(* ===== verification/Ipc_Prelude.thy ===== *)
theory Ipc_Prelude
imports Main "HOL-Library.Word" "HOL-Library.Monad_Syntax"
begin

text \<open>
  Shared vocabulary of the development.

  \<^item> \<^emph>\<open>Panics.\<close>  Every routine that can stop the kernel (a failed
    \<^verbatim>\<open>assert\<close> or \<^verbatim>\<open>panic\<close>, a dereference of memory that is not there, a loop that never
    ends) has a result of type \<open>'a option\<close>: \<open>None\<close> means that the call does not return.
    \<open>kassert\<close> is the kernel's \<open>assert\<close>; \<open>nth_opt\<close> reads an array and is \<open>None\<close>
    out of range.  A theorem that a routine yields \<open>Some\<close> therefore says that it terminates,
    that no assertion fires and that it stays inside its tables.
  \<^item> \<^emph>\<open>Words.\<close>  The lemmas that let the simplifier see a C bit mask as a range of bits,
    and additions that do not carry out of a bit field as additions of that field.
  \<^item> \<^emph>\<open>Collections.\<close>  \<open>mach_consts\<close> holds the values of the constants of the headers,
    \<open>bit_fields\<close> the rules that normalise mask expressions, \<open>panic_simps\<close> the rules
    that evaluate the panic monad and \<open>panic_elims\<close> those that take a result of it apart.
\<close>

named_theorems mach_consts \<open>values of the constants of the C headers\<close>
named_theorems bit_fields \<open>normalisation of mask expressions\<close>
named_theorems panic_simps \<open>evaluation of the panic monad\<close>
named_theorems panic_elims \<open>inversion of results of the panic monad\<close>

unbundle bit_operations_syntax


section \<open>The panic monad\<close>

definition kassert :: "bool \<Rightarrow> unit option" where
  "kassert P = (if P then Some () else None)"

definition nth_opt :: "'a list \<Rightarrow> nat \<Rightarrow> 'a option" where
  "nth_opt xs i = (if i < length xs then Some (xs ! i) else None)"

lemma kassert_True [simp, panic_simps]: "kassert True = Some ()"
  by (simp add: kassert_def)

lemma kassert_eq_Some [simp, panic_simps]: "kassert P = Some u \<longleftrightarrow> P"
  by (simp add: kassert_def)

lemma kassert_eq_None [simp, panic_simps]: "kassert P = None \<longleftrightarrow> \<not> P"
  by (simp add: kassert_def)

lemma kassert_bind [panic_simps]: "Option.bind (kassert P) f = (if P then f () else None)"
  by (simp add: kassert_def)

lemma nth_opt_eq_Some [panic_elims]: "nth_opt xs i = Some x \<longleftrightarrow> i < length xs \<and> xs ! i = x"
  by (auto simp: nth_opt_def)

lemma nth_opt_in [panic_simps]: "i < length xs \<Longrightarrow> nth_opt xs i = Some (xs ! i)"
  by (simp add: nth_opt_def)

lemma bind_Some_iff [panic_elims]:
  "Option.bind m f = Some y \<longleftrightarrow> (\<exists>x. m = Some x \<and> f x = Some y)"
  by (cases m) auto


section \<open>Bit fields of machine words\<close>

lemma bit_slice_mask:
  "bit (push_bit m (mask k) :: 'a::len word) n \<longleftrightarrow> m \<le> n \<and> n < m + k \<and> n < LENGTH('a)"
  by (auto simp: bit_simps)

lemma word_less_exp_bit: "(x :: 'a::len word) < 2 ^ k \<Longrightarrow> bit x n \<Longrightarrow> n < k"
  by (metis bit_and_iff bit_mask_iff less_mask_eq)

lemma unat_lt2p: "unat (x :: 'a::len word) < 2 ^ LENGTH('a)"
  by (rule unsigned_less)

lemma word_eq_of_nat: "unat w = n \<Longrightarrow> w = word_of_nat n"
  by auto

lemma unat_of_nat_len: "n < 2 ^ LENGTH('a::len) \<Longrightarrow> unat (word_of_nat n :: 'a word) = n"
  by (simp add: unat_of_nat)

lemma unat_take_bit_mod: "unat (take_bit k (b :: 'a::len word)) = unat b mod 2 ^ k"
  by (metis take_bit_eq_mod unsigned_take_bit_eq)

lemma unat_drop_bit_div: "unat (drop_bit k (b :: 'a::len word)) = unat b div 2 ^ k"
  by (metis drop_bit_eq_div unat_drop_bit_eq)

lemma or_absorb_iff: "(a :: 'a::len word) OR b = a \<longleftrightarrow> a AND b = b"
  by (auto simp: bit_eq_iff bit_simps)

lemma and_or_masks [bit_fields]:
  fixes b c d :: "'a::len word"
  shows "(b OR c) AND d = (b AND d) OR (c AND d)"
    and "(b AND c) AND d = b AND (c AND d)"
    and "(b OR c) OR d = b OR (c OR d)"
  by (simp_all add: bit.conj_disj_distrib2 and.assoc or.assoc)

text \<open>An addition that stays inside the low \<open>k\<close> bits does not touch the others.\<close>

lemma low_field_split: "(b :: 'a::len word) = (b AND NOT (mask k)) + take_bit k b"
proof -
  have "(b AND NOT (mask k)) AND take_bit k b = 0"
    by (rule bit_word_eqI) (auto simp: bit_simps)
  moreover have "(b AND NOT (mask k)) OR take_bit k b = b"
    by (rule bit_word_eqI) (auto simp: bit_simps)
  ultimately show ?thesis by (simp add: disjunctive_add_eq_or)
qed

lemma high_plus_low:
  fixes h s :: "'a::len word"
  assumes h: "h AND mask k = 0" and s: "take_bit k s = s"
  shows "take_bit k (h + s) = s" and "(h + s) AND NOT (mask k) = h"
proof -
  have bits: "\<not> (bit h n \<and> bit s n)" "bit h n \<Longrightarrow> k \<le> n" "bit s n \<Longrightarrow> n < k" for n
  proof -
    show s': "bit s n \<Longrightarrow> n < k" by (subst (asm) s [symmetric]) (simp add: bit_simps)
    have "\<not> (bit h n \<and> n < k)"
      using arg_cong [OF h, of "\<lambda>w. bit w n"] by (auto simp: bit_simps dest: bit_imp_le_length)
    with s' show "\<not> (bit h n \<and> bit s n)" "bit h n \<Longrightarrow> k \<le> n" by auto
  qed
  have or: "h + s = h OR s"
    by (rule disjunctive_add) (use bits in auto)
  show "take_bit k (h + s) = s" and "(h + s) AND NOT (mask k) = h"
    unfolding or by (rule bit_word_eqI; use bits in \<open>fastforce simp: bit_simps\<close>)+
qed

lemma add_low_field:
  fixes b :: "'a::len word"
  assumes n: "unat (take_bit k b) + n < 2 ^ k" and k: "k \<le> LENGTH('a)"
  shows "take_bit k (b + word_of_nat n) = take_bit k b + word_of_nat n"
    and "(b + word_of_nat n) AND NOT (mask k) = b AND NOT (mask k)"
proof -
  let ?s = "take_bit k b + word_of_nat n"
  have h: "(b AND NOT (mask k)) AND mask k = 0"
    by (rule bit_word_eqI) (auto simp: bit_simps)
  have "?s = word_of_nat (unat (take_bit k b) + n)" by simp
  moreover have "unat (word_of_nat (unat (take_bit k b) + n) :: 'a word) = unat (take_bit k b) + n"
    using n k by (intro unat_of_nat_len) (meson less_le_trans one_le_numeral power_increasing)
  ultimately have "unat ?s < 2 ^ k" using n by simp
  then have s: "take_bit k ?s = ?s"
    by (simp add: word_unat_eq_iff unat_take_bit_mod)
  have eq: "b + word_of_nat n = (b AND NOT (mask k)) + ?s"
    by (subst low_field_split [of b k]) (simp add: add.assoc)
  show "take_bit k (b + word_of_nat n) = take_bit k b + word_of_nat n"
    and "(b + word_of_nat n) AND NOT (mask k) = b AND NOT (mask k)"
    unfolding eq using high_plus_low [OF h s] by simp_all
qed

lemma sub_low_field:
  fixes b :: "'a::len word"
  assumes n: "n \<le> unat (take_bit k b)"
  shows "take_bit k (b - word_of_nat n) = take_bit k b - word_of_nat n"
    and "(b - word_of_nat n) AND NOT (mask k) = b AND NOT (mask k)"
proof -
  let ?s = "take_bit k b - word_of_nat n"
  have h: "(b AND NOT (mask k)) AND mask k = 0"
    by (rule bit_word_eqI) (auto simp: bit_simps)
  have "?s = word_of_nat (unat (take_bit k b) - n)" using n by (simp add: of_nat_diff)
  moreover have "unat (word_of_nat (unat (take_bit k b) - n) :: 'a word) = unat (take_bit k b) - n"
    by (intro unat_of_nat_len) (meson diff_le_self le_less_trans unsigned_less)
  moreover have "unat (take_bit k b) < 2 ^ k" by (simp add: unat_take_bit_mod)
  ultimately have "unat ?s < 2 ^ k" by simp
  then have s: "take_bit k ?s = ?s"
    by (simp add: word_unat_eq_iff unat_take_bit_mod)
  have eq: "b - word_of_nat n = (b AND NOT (mask k)) + ?s"
    by (subst low_field_split [of b k]) (simp add: algebra_simps)
  show "take_bit k (b - word_of_nat n) = take_bit k b - word_of_nat n"
    and "(b - word_of_nat n) AND NOT (mask k) = b AND NOT (mask k)"
    unfolding eq using high_plus_low [OF h s] by simp_all
qed

end
