(* ===== verification/Mach_Names.thy ===== *)
theory Mach_Names
imports Ipc_Prelude
begin

text \<open>
  Port names, rights, capability types and user-reference arithmetic: the macros of
  \<^verbatim>\<open>osfmk/mach/port.h\<close> and \<^verbatim>\<open>osfmk/ipc/port.h\<close>, and the return codes of
  \<^verbatim>\<open>osfmk/mach/kern_return.h\<close> that the IPC layer uses.  A name is a 32-bit word whose
  upper 24 bits are an index into the capability table of a space and whose lower 8 bits are a
  generation number.  \<open>mach_port_delta_t\<close> is a signed 32-bit integer; it is kept as a word and
  read with \<open>sint\<close>.
\<close>

type_synonym mach_port_name_t = "32 word"
type_synonym mach_port_index_t = "32 word"
type_synonym mach_port_gen_t = "32 word"
type_synonym mach_port_right_t = "32 word"
type_synonym mach_port_type_t = "32 word"
type_synonym mach_port_urefs_t = "32 word"
type_synonym mach_port_delta_t = "32 word"


section \<open>Return codes\<close>

datatype kern_return_t =
    KERN_SUCCESS
  | KERN_INVALID_ADDRESS
  | KERN_PROTECTION_FAILURE
  | KERN_NO_SPACE
  | KERN_INVALID_ARGUMENT
  | KERN_FAILURE
  | KERN_RESOURCE_SHORTAGE
  | KERN_NOT_RECEIVER
  | KERN_NO_ACCESS
  | KERN_ALREADY_IN_SET
  | KERN_NOT_IN_SET
  | KERN_NAME_EXISTS
  | KERN_ABORTED
  | KERN_INVALID_NAME
  | KERN_INVALID_TASK
  | KERN_INVALID_RIGHT
  | KERN_INVALID_VALUE
  | KERN_UREFS_OVERFLOW
  | KERN_INVALID_CAPABILITY
  | KERN_RIGHT_EXISTS
  | KERN_INVALID_OBJECT
  | KERN_ALREADY_WAITING
  | KERN_NOT_SUPPORTED
  | KERN_DENIED


section \<open>Names\<close>

definition MACH_PORT_NULL :: mach_port_name_t where
  "MACH_PORT_NULL = 0"

definition MACH_PORT_DEAD :: mach_port_name_t where
  "MACH_PORT_DEAD = NOT 0"

definition MACH_PORT_SPECIAL_DEFAULT :: mach_port_name_t where
  "MACH_PORT_SPECIAL_DEFAULT = 1"

definition MACH_PORT_VALID :: "mach_port_name_t \<Rightarrow> bool" where
  "MACH_PORT_VALID name \<longleftrightarrow> name \<noteq> MACH_PORT_NULL \<and> name \<noteq> MACH_PORT_DEAD"

definition MACH_PORT_INDEX :: "mach_port_name_t \<Rightarrow> mach_port_index_t" where
  "MACH_PORT_INDEX name = drop_bit 8 name"

definition MACH_PORT_GEN :: "mach_port_name_t \<Rightarrow> mach_port_gen_t" where
  "MACH_PORT_GEN name = push_bit 24 (name AND 0xff)"

definition MACH_PORT_MAKE :: "mach_port_index_t \<Rightarrow> mach_port_gen_t \<Rightarrow> mach_port_name_t" where
  "MACH_PORT_MAKE index gen = push_bit 8 index OR drop_bit 24 gen"


section \<open>Rights and types\<close>

definition MACH_PORT_RIGHT_SEND :: mach_port_right_t where
  "MACH_PORT_RIGHT_SEND = 0"

definition MACH_PORT_RIGHT_RECEIVE :: mach_port_right_t where
  "MACH_PORT_RIGHT_RECEIVE = 1"

definition MACH_PORT_RIGHT_SEND_ONCE :: mach_port_right_t where
  "MACH_PORT_RIGHT_SEND_ONCE = 2"

definition MACH_PORT_RIGHT_PORT_SET :: mach_port_right_t where
  "MACH_PORT_RIGHT_PORT_SET = 3"

definition MACH_PORT_RIGHT_DEAD_NAME :: mach_port_right_t where
  "MACH_PORT_RIGHT_DEAD_NAME = 4"

definition MACH_PORT_RIGHT_LABELH :: mach_port_right_t where
  "MACH_PORT_RIGHT_LABELH = 5"

definition MACH_PORT_RIGHT_NUMBER :: mach_port_right_t where
  "MACH_PORT_RIGHT_NUMBER = 6"

definition MACH_PORT_RIGHT_VALID_TRANSLATE :: "mach_port_right_t \<Rightarrow> bool" where
  "MACH_PORT_RIGHT_VALID_TRANSLATE right \<longleftrightarrow>
     right \<ge> MACH_PORT_RIGHT_SEND \<and> right \<le> MACH_PORT_RIGHT_DEAD_NAME"

definition MACH_PORT_TYPE :: "mach_port_right_t \<Rightarrow> mach_port_type_t" where
  "MACH_PORT_TYPE right = push_bit (unat (right + 16)) 1"

definition MACH_PORT_TYPE_NONE :: mach_port_type_t where
  "MACH_PORT_TYPE_NONE = 0"

definition MACH_PORT_TYPE_SEND :: mach_port_type_t where
  "MACH_PORT_TYPE_SEND = MACH_PORT_TYPE MACH_PORT_RIGHT_SEND"

definition MACH_PORT_TYPE_RECEIVE :: mach_port_type_t where
  "MACH_PORT_TYPE_RECEIVE = MACH_PORT_TYPE MACH_PORT_RIGHT_RECEIVE"

definition MACH_PORT_TYPE_SEND_ONCE :: mach_port_type_t where
  "MACH_PORT_TYPE_SEND_ONCE = MACH_PORT_TYPE MACH_PORT_RIGHT_SEND_ONCE"

definition MACH_PORT_TYPE_PORT_SET :: mach_port_type_t where
  "MACH_PORT_TYPE_PORT_SET = MACH_PORT_TYPE MACH_PORT_RIGHT_PORT_SET"

definition MACH_PORT_TYPE_DEAD_NAME :: mach_port_type_t where
  "MACH_PORT_TYPE_DEAD_NAME = MACH_PORT_TYPE MACH_PORT_RIGHT_DEAD_NAME"

definition MACH_PORT_TYPE_EX_RECEIVE :: mach_port_type_t where
  "MACH_PORT_TYPE_EX_RECEIVE = MACH_PORT_TYPE MACH_PORT_RIGHT_LABELH"

definition MACH_PORT_TYPE_SEND_RECEIVE :: mach_port_type_t where
  "MACH_PORT_TYPE_SEND_RECEIVE = MACH_PORT_TYPE_SEND OR MACH_PORT_TYPE_RECEIVE"

definition MACH_PORT_TYPE_SEND_RIGHTS :: mach_port_type_t where
  "MACH_PORT_TYPE_SEND_RIGHTS = MACH_PORT_TYPE_SEND OR MACH_PORT_TYPE_SEND_ONCE"

definition MACH_PORT_TYPE_PORT_RIGHTS :: mach_port_type_t where
  "MACH_PORT_TYPE_PORT_RIGHTS = MACH_PORT_TYPE_SEND_RIGHTS OR MACH_PORT_TYPE_RECEIVE"

definition MACH_PORT_TYPE_PORT_OR_DEAD :: mach_port_type_t where
  "MACH_PORT_TYPE_PORT_OR_DEAD = MACH_PORT_TYPE_PORT_RIGHTS OR MACH_PORT_TYPE_DEAD_NAME"

definition MACH_PORT_TYPE_ALL_RIGHTS :: mach_port_type_t where
  "MACH_PORT_TYPE_ALL_RIGHTS = MACH_PORT_TYPE_PORT_OR_DEAD OR MACH_PORT_TYPE_PORT_SET"

definition MACH_PORT_TYPE_DNREQUEST :: mach_port_type_t where
  "MACH_PORT_TYPE_DNREQUEST = 0x80000000"

definition MACH_PORT_TYPE_SPREQUEST :: mach_port_type_t where
  "MACH_PORT_TYPE_SPREQUEST = 0x40000000"

definition MACH_PORT_TYPE_SPREQUEST_DELAYED :: mach_port_type_t where
  "MACH_PORT_TYPE_SPREQUEST_DELAYED = 0x20000000"


section \<open>User references\<close>

definition MACH_PORT_UREFS_MAX :: mach_port_urefs_t where
  "MACH_PORT_UREFS_MAX = push_bit 16 1 - 1"

definition MACH_PORT_UREFS_OVERFLOW :: "mach_port_urefs_t \<Rightarrow> mach_port_delta_t \<Rightarrow> bool" where
  "MACH_PORT_UREFS_OVERFLOW urefs delta \<longleftrightarrow>
     sint delta > 0 \<and> (urefs + delta \<le> urefs \<or> urefs + delta \<ge> MACH_PORT_UREFS_MAX)"

definition MACH_PORT_UREFS_UNDERFLOW :: "mach_port_urefs_t \<Rightarrow> mach_port_delta_t \<Rightarrow> bool" where
  "MACH_PORT_UREFS_UNDERFLOW urefs delta \<longleftrightarrow> sint delta < 0 \<and> - delta > urefs"


section \<open>Values of the constants\<close>

lemma mach_name_consts [mach_consts]:
  "MACH_PORT_NULL = 0" "MACH_PORT_DEAD = 0xffffffff" "MACH_PORT_SPECIAL_DEFAULT = 1"
  by (simp_all add: MACH_PORT_NULL_def MACH_PORT_DEAD_def MACH_PORT_SPECIAL_DEFAULT_def)

lemmas mach_right_consts [mach_consts] =
  MACH_PORT_RIGHT_SEND_def MACH_PORT_RIGHT_RECEIVE_def MACH_PORT_RIGHT_SEND_ONCE_def
  MACH_PORT_RIGHT_PORT_SET_def MACH_PORT_RIGHT_DEAD_NAME_def MACH_PORT_RIGHT_LABELH_def
  MACH_PORT_RIGHT_NUMBER_def

lemma mach_type_consts [mach_consts]:
  "MACH_PORT_TYPE_NONE = 0" "MACH_PORT_TYPE_SEND = 0x10000" "MACH_PORT_TYPE_RECEIVE = 0x20000"
  "MACH_PORT_TYPE_SEND_ONCE = 0x40000" "MACH_PORT_TYPE_PORT_SET = 0x80000"
  "MACH_PORT_TYPE_DEAD_NAME = 0x100000" "MACH_PORT_TYPE_EX_RECEIVE = 0x200000"
  by (simp_all add: MACH_PORT_TYPE_def MACH_PORT_TYPE_NONE_def MACH_PORT_TYPE_SEND_def
      MACH_PORT_TYPE_RECEIVE_def MACH_PORT_TYPE_SEND_ONCE_def MACH_PORT_TYPE_PORT_SET_def
      MACH_PORT_TYPE_DEAD_NAME_def MACH_PORT_TYPE_EX_RECEIVE_def mach_right_consts)

lemma mach_type_sets [mach_consts]:
  "MACH_PORT_TYPE_SEND_RECEIVE = 0x30000" "MACH_PORT_TYPE_SEND_RIGHTS = 0x50000"
  "MACH_PORT_TYPE_PORT_RIGHTS = 0x70000" "MACH_PORT_TYPE_PORT_OR_DEAD = 0x170000"
  "MACH_PORT_TYPE_ALL_RIGHTS = 0x1f0000"
  by (simp_all add: mach_type_consts MACH_PORT_TYPE_SEND_RECEIVE_def MACH_PORT_TYPE_SEND_RIGHTS_def
      MACH_PORT_TYPE_PORT_RIGHTS_def MACH_PORT_TYPE_PORT_OR_DEAD_def MACH_PORT_TYPE_ALL_RIGHTS_def)

lemma mach_urefs_max [mach_consts]: "MACH_PORT_UREFS_MAX = 0xffff"
  by (simp add: MACH_PORT_UREFS_MAX_def)


section \<open>Taking names apart and putting them together\<close>

lemma bit_ff: "bit (0xff :: 32 word) n \<longleftrightarrow> n < 8"
  using bit_slice_mask [where 'a = 32, of 0 8 n] by (simp add: mask_eq_exp_minus_1) auto

lemma bit_ff000000: "bit (0xff000000 :: 32 word) n \<longleftrightarrow> 24 \<le> n \<and> n < 32"
  using bit_slice_mask [where 'a = 32, of 24 8 n] by (simp add: mask_eq_exp_minus_1)

lemma MAKE_INDEX_GEN [simp]: "MACH_PORT_MAKE (MACH_PORT_INDEX name) (MACH_PORT_GEN name) = name"
  unfolding MACH_PORT_MAKE_def MACH_PORT_INDEX_def MACH_PORT_GEN_def
  by (rule bit_word_eqI)
    (auto simp: bit_simps bit_ff simp del: bit_numeral_word_iff, metis le_add_diff_inverse not_le)

lemma GEN_MAKE [simp]: "MACH_PORT_GEN (MACH_PORT_MAKE index gen) = gen AND 0xff000000"
  unfolding MACH_PORT_MAKE_def MACH_PORT_GEN_def
  by (rule bit_word_eqI)
    (auto simp: bit_simps bit_ff bit_ff000000 not_le simp del: bit_numeral_word_iff)

lemma INDEX_MAKE [simp]: "index < 2 ^ 24 \<Longrightarrow> MACH_PORT_INDEX (MACH_PORT_MAKE index gen) = index"
  unfolding MACH_PORT_MAKE_def MACH_PORT_INDEX_def
  by (rule bit_word_eqI) (auto simp: bit_simps dest: word_less_exp_bit [where k = 24, simplified])

lemma unat_INDEX: "unat (MACH_PORT_INDEX name) = unat name div 256"
  by (simp add: MACH_PORT_INDEX_def unat_drop_bit_div)

lemma INDEX_less: "unat (MACH_PORT_INDEX name) < 2 ^ 24"
  using unat_lt2p [of name] by (simp add: unat_INDEX)

lemma GEN_and_mask [simp]: "MACH_PORT_GEN name AND 0xff000000 = MACH_PORT_GEN name"
  by (metis GEN_MAKE MAKE_INDEX_GEN)

lemma name_eqI:
  "MACH_PORT_INDEX a = MACH_PORT_INDEX b \<Longrightarrow> MACH_PORT_GEN a = MACH_PORT_GEN b \<Longrightarrow> a = b"
  by (metis MAKE_INDEX_GEN)

end
