(* ===== verification/Ipc_Entry_Bits.thy ===== *)
theory Ipc_Entry_Bits
imports Mach_Names
begin

text \<open>
  The capability entry and the packing of its \<open>ie_bits\<close> word: \<^verbatim>\<open>osfmk/ipc/ipc_entry.h\<close>.
  From the low end \<open>ie_bits\<close> holds 16 bits of user references, 5 bits of type, the extended-type
  bit, 2 bits that select the rollover point of the generation counter, and the 8-bit generation.
  The two unions of \<open>struct ipc_entry\<close> are single fields: \<open>ie_size\<close> (used only in
  entry 0) is \<open>ie_bits\<close>, and \<open>ie_next\<close> (used only in free entries) is
  \<open>ie_request\<close>.  The reverse-hash distance is a 12-bit field, so a store truncates.
\<close>

type_synonym ipc_entry_bits_t = "32 word"
type_synonym ipc_entry_num_t = "32 word"
type_synonym ipc_object_t = "64 word"

definition IO_NULL :: ipc_object_t where
  "IO_NULL = 0"

definition IO_DEAD :: ipc_object_t where
  "IO_DEAD = NOT 0"

definition IO_VALID :: "ipc_object_t \<Rightarrow> bool" where
  "IO_VALID io \<longleftrightarrow> io \<noteq> IO_NULL \<and> io \<noteq> IO_DEAD"

record ipc_entry =
  ie_object :: ipc_object_t
  ie_bits :: ipc_entry_bits_t
  ie_dist :: "12 word"
  ie_index :: mach_port_index_t
  ie_request :: "32 word"

abbreviation ie_size :: "ipc_entry \<Rightarrow> ipc_entry_num_t" where
  "ie_size e \<equiv> ie_bits e"

abbreviation ie_next :: "ipc_entry \<Rightarrow> mach_port_index_t" where
  "ie_next e \<equiv> ie_request e"

definition IPC_ENTRY_DIST_MAX :: nat where
  "IPC_ENTRY_DIST_MAX = 2 ^ 12 - 1"

definition IE_REQ_NONE :: "32 word" where
  "IE_REQ_NONE = 0"

definition IE_BITS_UREFS_MASK :: ipc_entry_bits_t where
  "IE_BITS_UREFS_MASK = 0x0000ffff"

definition IE_BITS_UREFS :: "ipc_entry_bits_t \<Rightarrow> mach_port_urefs_t" where
  "IE_BITS_UREFS bits = bits AND IE_BITS_UREFS_MASK"

definition IE_BITS_TYPE_MASK :: ipc_entry_bits_t where
  "IE_BITS_TYPE_MASK = 0x001f0000"

definition IE_BITS_TYPE :: "ipc_entry_bits_t \<Rightarrow> mach_port_type_t" where
  "IE_BITS_TYPE bits = bits AND IE_BITS_TYPE_MASK"

definition IE_BITS_EXTYPE_MASK :: ipc_entry_bits_t where
  "IE_BITS_EXTYPE_MASK = 0x00200000"

definition IE_BITS_GEN_MASK :: ipc_entry_bits_t where
  "IE_BITS_GEN_MASK = 0xff000000"

definition IE_BITS_GEN :: "ipc_entry_bits_t \<Rightarrow> mach_port_gen_t" where
  "IE_BITS_GEN bits = bits AND IE_BITS_GEN_MASK"

definition IE_BITS_GEN_ONE :: ipc_entry_bits_t where
  "IE_BITS_GEN_ONE = 0x04000000"

definition IE_BITS_ROLL_MASK :: ipc_entry_bits_t where
  "IE_BITS_ROLL_MASK = push_bit 22 (push_bit 2 1 - 1)"

definition IE_BITS_ROLL :: "ipc_entry_bits_t \<Rightarrow> ipc_entry_bits_t" where
  "IE_BITS_ROLL bits = push_bit 8 (bits AND IE_BITS_ROLL_MASK) XOR IE_BITS_GEN_MASK"

definition IE_BITS_RIGHT_MASK :: ipc_entry_bits_t where
  "IE_BITS_RIGHT_MASK = 0x007fffff"

definition ipc_entry_new_rollpoint :: "ipc_entry_bits_t \<Rightarrow> ipc_entry_bits_t" where
  "ipc_entry_new_rollpoint rollbits =
     (let rollbits = push_bit 22 rollbits AND IE_BITS_ROLL_MASK;
          newgen = IE_BITS_GEN_MASK + IE_BITS_GEN_ONE
      in newgen OR rollbits)"

definition ipc_entry_new_gen :: "ipc_entry_bits_t \<Rightarrow> ipc_entry_bits_t" where
  "ipc_entry_new_gen oldgen =
     (let sum = (oldgen + IE_BITS_GEN_ONE) AND IE_BITS_GEN_MASK;
          roll = oldgen AND IE_BITS_ROLL_MASK
      in (sum mod IE_BITS_ROLL oldgen) OR roll)"

definition ipc_entry_gen_rolled :: "ipc_entry_bits_t \<Rightarrow> ipc_entry_bits_t \<Rightarrow> bool" where
  "ipc_entry_gen_rolled oldgen newgen \<longleftrightarrow>
     oldgen AND IE_BITS_GEN_MASK > newgen AND IE_BITS_GEN_MASK"

definition ipc_entry_name_mask :: "mach_port_name_t \<Rightarrow> mach_port_name_t" where
  "ipc_entry_name_mask name = name OR MACH_PORT_MAKE 0 (IE_BITS_GEN_MASK + IE_BITS_GEN_ONE)"

text \<open>
  The generation part of \<^verbatim>\<open>ipc_entry_claim\<close>: the bits a free entry gets when it is
  claimed, \<open>roll\<close> being the draw from the space's entropy pool that is made when the counter
  rolled over.
\<close>

definition ipc_entry_next_gen :: "ipc_entry_bits_t \<Rightarrow> ipc_entry_bits_t \<Rightarrow> ipc_entry_bits_t" where
  "ipc_entry_next_gen bits roll =
     (let gen = ipc_entry_new_gen bits
      in if ipc_entry_gen_rolled bits gen then ipc_entry_new_rollpoint roll else gen)"

text \<open>The bits of an entry that is claimed and freed repeatedly.\<close>

fun ipc_entry_gens :: "ipc_entry_bits_t \<Rightarrow> ipc_entry_bits_t list \<Rightarrow> ipc_entry_bits_t" where
  "ipc_entry_gens bits [] = bits"
| "ipc_entry_gens bits (roll # rolls) = ipc_entry_gens (ipc_entry_next_gen bits roll) rolls"


section \<open>Numeric views\<close>

text \<open>
  The generation as a number, its rollover selector, and the point where the counter restarts.
  A generation is \<^emph>\<open>well formed\<close> when its two low bits are set, as in every name the kernel
  makes, and it has not passed its rollover point.
\<close>

definition gen_num :: "ipc_entry_bits_t \<Rightarrow> nat" where
  "gen_num bits = unat bits div 2 ^ 24"

definition roll_num :: "ipc_entry_bits_t \<Rightarrow> nat" where
  "roll_num bits = unat bits div 2 ^ 22 mod 4"

definition roll_limit :: "nat \<Rightarrow> nat" where
  "roll_limit r = 255 - 64 * r"

definition gen_ok :: "ipc_entry_bits_t \<Rightarrow> bool" where
  "gen_ok bits \<longleftrightarrow>
     gen_num bits mod 4 = 3 \<and> (gen_num bits < roll_limit (roll_num bits) \<or> gen_num bits = 255 \<and> roll_num bits = 0)"

lemmas ie_consts [mach_consts] =
  IE_REQ_NONE_def IE_BITS_UREFS_MASK_def IE_BITS_TYPE_MASK_def IE_BITS_EXTYPE_MASK_def
  IE_BITS_GEN_MASK_def IE_BITS_GEN_ONE_def IE_BITS_RIGHT_MASK_def IO_NULL_def

lemma ie_roll_mask [mach_consts]: "IE_BITS_ROLL_MASK = 0xc00000"
  by (simp add: IE_BITS_ROLL_MASK_def)

lemma io_dead [mach_consts]: "IO_DEAD = 0xffffffffffffffff"
  by (simp add: IO_DEAD_def)

lemmas ie_fields = IE_BITS_UREFS_def IE_BITS_TYPE_def IE_BITS_GEN_def

lemma unat_and_gen_mask: "unat (b AND 0xff000000 :: 32 word) = 2 ^ 24 * (unat b div 2 ^ 24)"
proof -
  have "b AND 0xff000000 = push_bit 24 (drop_bit 24 b)"
    by (rule bit_word_eqI) (auto simp: bit_simps bit_ff000000 simp del: bit_numeral_word_iff)
  moreover have "unat (drop_bit 24 b) < 2 ^ 8"
    using unat_lt2p [of b] by (simp add: unat_drop_bit_div)
  ultimately show ?thesis
    by (simp add: push_bit_eq_mult unat_word_ariths unat_drop_bit_div)
qed

lemma bit_c00000: "bit (0xc00000 :: 32 word) n \<longleftrightarrow> 22 \<le> n \<and> n < 24"
  using bit_slice_mask [where 'a = 32, of 22 2 n] by (simp add: mask_eq_exp_minus_1) auto

lemma unat_and_roll_mask: "unat (b AND 0xc00000 :: 32 word) = 2 ^ 22 * roll_num b"
proof -
  have "b AND 0xc00000 = push_bit 22 (take_bit 2 (drop_bit 22 b))"
    by (rule bit_word_eqI) (auto simp: bit_simps bit_c00000 simp del: bit_numeral_word_iff)
  moreover have "unat (take_bit 2 (drop_bit 22 b)) = roll_num b"
    by (simp add: unat_take_bit_mod unat_drop_bit_div roll_num_def)
  moreover have "roll_num b < 4" by (simp add: roll_num_def)
  ultimately show ?thesis
    by (simp add: push_bit_eq_mult unat_word_ariths)
qed

lemma roll_num_less: "roll_num b < 4"
  by (simp add: roll_num_def)

lemma roll_num_cases: obtains "roll_num b = 0" | "roll_num b = 1" | "roll_num b = 2" | "roll_num b = 3"
  using roll_num_less [of b] by linarith

lemma unat_IE_BITS_ROLL: "unat (IE_BITS_ROLL b) = 2 ^ 24 * roll_limit (roll_num b)"
proof -
  have eq: "b AND 0xc00000 = word_of_nat (2 ^ 22 * roll_num b)"
    by (rule word_eq_of_nat [OF unat_and_roll_mask])
  show ?thesis
    by (cases b rule: roll_num_cases)
      (simp_all add: IE_BITS_ROLL_def eq mach_consts roll_limit_def)
qed

lemma gen_num_less: "gen_num b < 256"
  using unat_lt2p [of b] by (simp add: gen_num_def)

lemma gen_roll_or:
  assumes x: "x < 256" and r: "r < 4"
  shows "gen_num (word_of_nat (2 ^ 24 * x) OR word_of_nat (2 ^ 22 * r)) = x"
    and "roll_num (word_of_nat (2 ^ 24 * x) OR word_of_nat (2 ^ 22 * r)) = r"
proof -
  have less: "(word_of_nat r :: 32 word) < 2 ^ 2"
    using r by (simp add: word_less_nat_alt unat_of_nat_len)
  have "word_of_nat (2 ^ 24 * x) AND word_of_nat (2 ^ 22 * r) =
      push_bit 24 (word_of_nat x) AND (push_bit 22 (word_of_nat r) :: 32 word)"
    by (simp add: push_bit_eq_mult mult.commute)
  also have "\<dots> = 0"
    by (rule bit_word_eqI) (use word_less_exp_bit [OF less] in \<open>force simp: bit_simps\<close>)
  finally have "word_of_nat (2 ^ 24 * x) OR word_of_nat (2 ^ 22 * r) =
      (word_of_nat (2 ^ 24 * x + 2 ^ 22 * r) :: 32 word)"
    by (simp flip: disjunctive_add_eq_or)
  moreover have "unat (word_of_nat (2 ^ 24 * x + 2 ^ 22 * r) :: 32 word) = 2 ^ 24 * x + 2 ^ 22 * r"
    using x r by (intro unat_of_nat_len) simp
  ultimately show "gen_num (word_of_nat (2 ^ 24 * x) OR word_of_nat (2 ^ 22 * r)) = x"
    and "roll_num (word_of_nat (2 ^ 24 * x) OR word_of_nat (2 ^ 22 * r)) = r"
    using r by (simp_all add: gen_num_def roll_num_def)
qed

lemma ipc_entry_new_gen_form:
  "ipc_entry_new_gen b =
     word_of_nat (2 ^ 24 * ((gen_num b + 4) mod 256 mod roll_limit (roll_num b))) OR
     word_of_nat (2 ^ 22 * roll_num b)"
proof -
  let ?x = "(gen_num b + 4) mod 256 mod roll_limit (roll_num b)"
  have "(unat b + 67108864) div 16777216 = unat b div 16777216 + 4"
    using div_mult_self1 [of 16777216 "unat b" 4] by simp
  then have "unat ((b + 0x04000000) AND 0xff000000) = 2 ^ 24 * ((gen_num b + 4) mod 256)"
    using mod_mult2_eq [of "unat b + 67108864" "2 ^ 24" 256]
    by (simp add: unat_and_gen_mask gen_num_def unat_word_ariths)
  then have "unat (((b + 0x04000000) AND 0xff000000) mod IE_BITS_ROLL b) = 2 ^ 24 * ?x"
    by (simp only: unat_mod unat_IE_BITS_ROLL mult_mod_right)
  then have 1: "((b + 0x04000000) AND 0xff000000) mod IE_BITS_ROLL b = word_of_nat (2 ^ 24 * ?x)"
    by (rule word_eq_of_nat)
  have 2: "b AND 0xc00000 = word_of_nat (2 ^ 22 * roll_num b)"
    by (rule word_eq_of_nat [OF unat_and_roll_mask])
  show ?thesis by (simp only: ipc_entry_new_gen_def mach_consts Let_def 1 2)
qed

lemma ipc_entry_new_rollpoint_form:
  "ipc_entry_new_rollpoint roll = word_of_nat (2 ^ 24 * 3) OR word_of_nat (2 ^ 22 * (unat roll mod 4))"
proof -
  have "push_bit 22 roll AND 0xc00000 = (push_bit 22 (take_bit 2 roll) :: 32 word)"
    by (rule bit_word_eqI) (auto simp: bit_simps bit_c00000 simp del: bit_numeral_word_iff)
  also have "\<dots> = word_of_nat (2 ^ 22 * (unat roll mod 4))"
    by (simp add: push_bit_eq_mult word_unat_eq_iff unat_word_ariths unat_take_bit_mod unat_of_nat)
  finally have roll: "push_bit 22 roll AND 0xc00000 = word_of_nat (2 ^ 22 * (unat roll mod 4))" .
  have gen: "(0xff000000 + 0x04000000 :: 32 word) = word_of_nat (2 ^ 24 * 3)" by simp
  show ?thesis by (simp only: ipc_entry_new_rollpoint_def mach_consts Let_def gen roll)
qed

lemma new_gen_less: "(gen_num b + 4) mod 256 mod roll_limit (roll_num b) < 256"
  by (meson le_less_trans mod_less_divisor mod_less_eq_dividend zero_less_numeral)

lemma ipc_entry_new_gen_num:
  "gen_num (ipc_entry_new_gen b) = (gen_num b + 4) mod 256 mod roll_limit (roll_num b)"
  "roll_num (ipc_entry_new_gen b) = roll_num b"
  using gen_roll_or [OF new_gen_less roll_num_less] unfolding ipc_entry_new_gen_form by simp_all

lemma ipc_entry_new_rollpoint_num:
  "gen_num (ipc_entry_new_rollpoint roll) = 3"
  "roll_num (ipc_entry_new_rollpoint roll) = unat roll mod 4"
  using gen_roll_or [of 3 "unat roll mod 4"] unfolding ipc_entry_new_rollpoint_form by simp_all

text \<open>A claimed entry starts with no references and no type.\<close>

lemma ipc_entry_next_gen_low: "ipc_entry_next_gen b roll AND 0x003fffff = 0"
proof -
  have mask: "(0x003fffff :: 32 word) = mask 22" by (simp add: mask_eq_exp_minus_1)
  have low: "(word_of_nat (2 ^ 24 * x) OR word_of_nat (2 ^ 22 * r) :: 32 word) AND 0x003fffff = 0" for x r
  proof -
    have "(word_of_nat (2 ^ 24 * x) OR word_of_nat (2 ^ 22 * r) :: 32 word) =
        push_bit 24 (word_of_nat x) OR push_bit 22 (word_of_nat r)"
      by (simp add: push_bit_eq_mult mult.commute)
    then show ?thesis
      unfolding mask take_bit_eq_mask [symmetric] by (simp add: take_bit_push_bit)
  qed
  show ?thesis
    unfolding ipc_entry_next_gen_def Let_def ipc_entry_new_gen_form ipc_entry_new_rollpoint_form
    by (simp only: low split: if_split) blast
qed

lemma ipc_entry_gen_rolled_num: "ipc_entry_gen_rolled b c \<longleftrightarrow> gen_num b > gen_num c"
  by (simp add: ipc_entry_gen_rolled_def mach_consts word_less_nat_alt unat_and_gen_mask gen_num_def)

lemma IE_BITS_GEN_num: "IE_BITS_GEN b = word_of_nat (2 ^ 24 * gen_num b)"
  unfolding IE_BITS_GEN_def mach_consts gen_num_def by (rule word_eq_of_nat [OF unat_and_gen_mask])

lemma IE_BITS_GEN_eq_iff: "IE_BITS_GEN b = IE_BITS_GEN c \<longleftrightarrow> gen_num b = gen_num c"
  unfolding IE_BITS_GEN_def mach_consts word_unat_eq_iff unat_and_gen_mask gen_num_def by simp


section \<open>The generation counter of an entry\<close>

lemma roll_limit_cases:
  "roll_limit (roll_num b) \<in> {255, 191, 127, 63}" "roll_limit (roll_num b) mod 4 = 3"
  "63 \<le> roll_limit (roll_num b)"
  by (cases b rule: roll_num_cases; simp add: roll_limit_def)+

text \<open>One claim of an entry: the counter advances by one step, or restarts when it would reach its limit.\<close>

lemma ipc_entry_next_gen_num:
  assumes "gen_ok b"
  shows "gen_num (ipc_entry_next_gen b roll) =
      (if gen_num b + 4 < roll_limit (roll_num b) then gen_num b + 4 else 3)" (is ?gen)
    and "roll_num (ipc_entry_next_gen b roll) =
      (if gen_num b + 4 < roll_limit (roll_num b) then roll_num b else unat roll mod 4)" (is ?roll)
proof -
  let ?g = "gen_num b" and ?l = "roll_limit (roll_num b)"
  have mods: "?g mod 4 = 3" "?l mod 4 = 3" "63 \<le> ?l" "?l \<le> 255"
    using assms roll_limit_cases [of b] by (auto simp: gen_ok_def)
  have "?gen \<and> ?roll"
  proof (cases "?g + 4 < ?l")
    case True
    then show ?thesis using mods
      by (simp add: ipc_entry_next_gen_def Let_def ipc_entry_gen_rolled_num ipc_entry_new_gen_num)
  next
    case False
    have "(?g + 4) mod 256 mod ?l < ?g"
    proof (cases "?g < ?l")
      case True
      then have "?g + 4 = ?l" using False mods by presburger
      moreover have "0 < ?g" using mods by (cases "?g = 0") auto
      moreover have "?l < 256" using mods by simp
      ultimately show ?thesis by simp
    next
      case False
      then show ?thesis using assms by (simp add: gen_ok_def roll_limit_def)
    qed
    then have "ipc_entry_next_gen b roll = ipc_entry_new_rollpoint roll"
      by (simp add: ipc_entry_next_gen_def Let_def ipc_entry_gen_rolled_num ipc_entry_new_gen_num)
    then show ?thesis using False by (simp add: ipc_entry_new_rollpoint_num)
  qed
  then show ?gen ?roll by simp_all
qed

lemma gen_ok_next_gen: "gen_ok b \<Longrightarrow> gen_ok (ipc_entry_next_gen b roll)"
proof -
  assume b: "gen_ok b"
  have "63 \<le> roll_limit (unat roll mod 4)"
    by (simp add: roll_limit_def)
  moreover have "(gen_num b + 4) mod 4 = 3" using b by (simp add: gen_ok_def)
  ultimately show ?thesis
    using ipc_entry_next_gen_num [OF b, of roll] by (auto simp: gen_ok_def)
qed

lemma ipc_entry_gens_snoc:
  "ipc_entry_gens b (rolls @ [roll]) = ipc_entry_next_gen (ipc_entry_gens b rolls) roll"
  by (induction rolls arbitrary: b) simp_all

lemma gen_ok_gens: "gen_ok b \<Longrightarrow> gen_ok (ipc_entry_gens b rolls)"
  by (induction rolls arbitrary: b) (simp_all add: gen_ok_next_gen)

lemma ipc_entry_gens_num:
  assumes "gen_ok b" "length rolls \<le> 15"
  shows "gen_num (ipc_entry_gens b rolls) = gen_num b + 4 * length rolls \<and>
           roll_num (ipc_entry_gens b rolls) = roll_num b \<and>
           (rolls \<noteq> [] \<longrightarrow> gen_num b + 4 * length rolls < roll_limit (roll_num b)) \<or>
         (\<exists>j. 0 < j \<and> j \<le> length rolls \<and> roll_limit (roll_num b) \<le> gen_num b + 4 * j \<and>
              gen_num (ipc_entry_gens b rolls) = 3 + 4 * (length rolls - j))"
  using assms(2)
proof (induction rolls rule: rev_induct)
  case (snoc roll rolls)
  let ?c = "ipc_entry_gens b rolls"
  have c: "gen_ok ?c" by (rule gen_ok_gens [OF assms(1)])
  note step = ipc_entry_next_gen_num(1) [OF c, of roll, folded ipc_entry_gens_snoc]
  note step' = ipc_entry_next_gen_num(2) [OF c, of roll, folded ipc_entry_gens_snoc]
  from snoc.prems have n: "length rolls \<le> 14" by simp
  from snoc.IH n consider
      "gen_num ?c = gen_num b + 4 * length rolls" "roll_num ?c = roll_num b"
    | j where "0 < j" "j \<le> length rolls" "roll_limit (roll_num b) \<le> gen_num b + 4 * j"
        "gen_num ?c = 3 + 4 * (length rolls - j)" by auto
  then show ?case
  proof cases
    case 1
    then show ?thesis
      using step step' by (cases "gen_num ?c + 4 < roll_limit (roll_num ?c)") auto
  next
    case 2
    have "gen_num ?c + 4 < roll_limit (roll_num ?c)"
      using 2 n roll_limit_cases(3) [of ?c] by linarith
    then have "gen_num (ipc_entry_gens b (rolls @ [roll])) = 3 + 4 * (Suc (length rolls) - j)"
      using step 2 by (simp add: Suc_diff_le)
    then show ?thesis using 2 by fastforce
  qed
qed simp

lemma ipc_entry_gens_fresh:
  assumes "gen_ok b" "rolls \<noteq> []" "length rolls \<le> 14"
  shows "gen_num (ipc_entry_gens b rolls) \<noteq> gen_num b"
proof
  assume eq: "gen_num (ipc_entry_gens b rolls) = gen_num b"
  have "63 \<le> roll_limit (roll_num b)" by (rule roll_limit_cases)
  with ipc_entry_gens_num [OF assms(1), of rolls] assms(2,3) eq show False by auto
qed


section \<open>Names made from entries\<close>

lemma gen_ok_cong:
  assumes "b AND 0xffc00000 = c AND 0xffc00000"
  shows "gen_ok b = gen_ok c" "IE_BITS_GEN b = IE_BITS_GEN c"
proof -
  have "b AND 0xff000000 = c AND 0xff000000" "b AND 0xc00000 = c AND 0xc00000"
    using arg_cong [OF assms, of "\<lambda>w. w AND 0xff000000"] arg_cong [OF assms, of "\<lambda>w. w AND 0xc00000"]
    by (simp_all add: and.assoc)
  then show "IE_BITS_GEN b = IE_BITS_GEN c" by (simp add: IE_BITS_GEN_def mach_consts)
  moreover have "roll_num b = roll_num c"
    using \<open>b AND 0xc00000 = c AND 0xc00000\<close> unat_and_roll_mask [of b] unat_and_roll_mask [of c] by simp
  ultimately show "gen_ok b = gen_ok c"
    by (simp add: gen_ok_def IE_BITS_GEN_eq_iff)
qed

lemma gen_num_GEN: "gen_num (MACH_PORT_GEN name) = unat name mod 256" "roll_num (MACH_PORT_GEN name) = 0"
proof -
  have "MACH_PORT_GEN name = push_bit 24 (take_bit 8 name)"
    by (simp add: MACH_PORT_GEN_def take_bit_eq_mask mask_eq_exp_minus_1)
  moreover have "unat (take_bit 8 name) = unat name mod 256" by (simp add: unat_take_bit_mod)
  ultimately have "unat (MACH_PORT_GEN name) = 2 ^ 24 * (unat name mod 256)"
    by (simp add: push_bit_eq_mult unat_word_ariths)
  then show "gen_num (MACH_PORT_GEN name) = unat name mod 256" "roll_num (MACH_PORT_GEN name) = 0"
    by (simp_all add: gen_num_def roll_num_def)
qed

lemma name_mask_iff: "name = ipc_entry_name_mask name \<longleftrightarrow> unat name mod 4 = 3"
proof -
  have "MACH_PORT_MAKE 0 (0xff000000 + 0x04000000) = 3"
    by (simp add: MACH_PORT_MAKE_def)
  then have mask: "ipc_entry_name_mask name = name OR 3"
    by (simp add: ipc_entry_name_mask_def mach_consts)
  have three: "(3 :: 32 word) = mask 2" by (simp add: mask_eq_exp_minus_1)
  have "name = name OR 3 \<longleftrightarrow> name AND 3 = 3"
    using or_absorb_iff [of name 3] by metis
  also have "\<dots> \<longleftrightarrow> unat (name AND 3) = 3"
    by (simp add: word_unat_eq_iff)
  also have "unat (name AND 3) = unat name mod 4"
    unfolding three take_bit_eq_mask [symmetric] by (simp add: unat_take_bit_mod)
  finally show ?thesis by (simp add: mask)
qed

end
