(* ===== verification/Ipc_Table.thy ===== *)
theory Ipc_Table
imports Ipc_Entry_Bits
begin

text \<open>
  The arrays of table sizes that capability tables and request tables grow through:
  \<^verbatim>\<open>osfmk/ipc/ipc_table.c\<close>.  Sizes are natural numbers; \<open>ipc_table_entries_bounds\<close> shows
  that no value leaves the 32-bit range it is stored in.  The page size is that of the x86-64
  kernel, the number of steps that of the development configuration, and the element sizes are
  those of the two C structures.  A pointer into one of the arrays is its index.
\<close>

definition PAGE_MAX_SIZE :: nat where
  "PAGE_MAX_SIZE = 4096"

definition IPC_TABLE_ENTRIES_SIZE :: nat where
  "IPC_TABLE_ENTRIES_SIZE = 256"

definition IPC_TABLE_REQUESTS_SIZE :: nat where
  "IPC_TABLE_REQUESTS_SIZE = 64"

definition sizeof_ipc_entry :: nat where
  "sizeof_ipc_entry = 24"

definition sizeof_ipc_port_request :: nat where
  "sizeof_ipc_port_request = 16"

definition ITS_SIZE_NONE :: "32 word" where
  "ITS_SIZE_NONE = - 1"

text \<open>
  The first loop of \<open>ipc_table_fill\<close> (powers of two below the page size): the sizes it
  stores from \<open>its[index]\<close> on, and the values of \<open>index\<close> and \<open>size\<close> after it.
\<close>

function ipc_table_fill_powers :: "nat \<Rightarrow> nat \<Rightarrow> nat \<Rightarrow> nat \<Rightarrow> nat \<Rightarrow> nat list \<times> nat \<times> nat" where
  "ipc_table_fill_powers num minsize elemsize index sz =
     (if index < num \<and> sz < PAGE_MAX_SIZE \<and> 0 < sz
      then if sz \<ge> minsize
           then let (its, r) = ipc_table_fill_powers num minsize elemsize (index + 1) (2 * sz)
                in (sz div elemsize # its, r)
           else ipc_table_fill_powers num minsize elemsize index (2 * sz)
      else ([], index, sz))"
  by pat_completeness auto

termination
  by (relation "measure (\<lambda>(_, _, _, _, sz). PAGE_MAX_SIZE - sz)") auto

text \<open>
  The second loop with the loop nested in it: runs of fifteen sizes, the increment doubled after
  each run until it is eight pages.
\<close>

function ipc_table_fill_pages :: "nat \<Rightarrow> nat \<Rightarrow> nat \<Rightarrow> nat \<Rightarrow> nat \<Rightarrow> nat \<Rightarrow> nat \<Rightarrow> nat list" where
  "ipc_table_fill_pages num minsize elemsize period index sz incrsize =
     (if index < num \<and> 0 < incrsize
      then if period < 15
           then if sz \<ge> minsize
                then sz div elemsize #
                  ipc_table_fill_pages num minsize elemsize (period + 1) (index + 1) (sz + incrsize) incrsize
                else ipc_table_fill_pages num minsize elemsize (period + 1) index (sz + incrsize) incrsize
           else ipc_table_fill_pages num minsize elemsize 0 index sz
                  (if incrsize < PAGE_MAX_SIZE * 8 then 2 * incrsize else incrsize)
      else [])"
  by pat_completeness auto

termination
  by (relation "measures [\<lambda>(num, minsize, _, _, index, sz, _). (num - index) + (minsize - sz),
                          \<lambda>(_, _, _, period, _). if period < 15 then 0 else 1]") auto

definition ipc_table_fill :: "nat \<Rightarrow> nat \<Rightarrow> nat \<Rightarrow> nat list" where
  "ipc_table_fill num min_elems elemsize =
     (let minsize = min_elems * elemsize;
          (its, index, sz) = ipc_table_fill_powers num minsize elemsize 0 1
      in its @ ipc_table_fill_pages num minsize elemsize 0 index sz PAGE_MAX_SIZE)"

definition ipc_table_entries :: "nat list" where
  "ipc_table_entries =
     (let its = ipc_table_fill (IPC_TABLE_ENTRIES_SIZE - 1) 16 sizeof_ipc_entry
      in its @ [its ! (IPC_TABLE_ENTRIES_SIZE - 2)])"

definition ipc_table_requests :: "nat list" where
  "ipc_table_requests =
     ipc_table_fill (IPC_TABLE_REQUESTS_SIZE - 1) 2 sizeof_ipc_port_request @ [0]"

definition ipc_table_max_entries :: nat where
  "ipc_table_max_entries = ipc_table_entries ! (IPC_TABLE_ENTRIES_SIZE - 1)"

definition ipc_table_max_requests :: nat where
  "ipc_table_max_requests = ipc_table_requests ! (IPC_TABLE_REQUESTS_SIZE - 2)"



lemma ipc_table_fill_entries:
  "ipc_table_fill 255 16 24 =
     [21, 42, 85, 170, 341, 512, 682, 853, 1024, 1194, 1365, 1536, 1706, 1877, 2048, 2218,
      2389, 2560, 2730, 3072, 3413, 3754, 4096, 4437, 4778, 5120, 5461, 5802, 6144, 6485,
      6826, 7168, 7509, 7850, 8533, 9216, 9898, 10581, 11264, 11946, 12629, 13312, 13994,
      14677, 15360, 16042, 16725, 17408, 18090, 19456, 20821, 22186, 23552, 24917, 26282,
      27648, 29013, 30378, 31744, 33109, 34474, 35840, 37205, 38570, 39936, 41301, 42666,
      44032, 45397, 46762, 48128, 49493, 50858, 52224, 53589, 54954, 56320, 57685, 59050,
      60416, 61781, 63146, 64512, 65877, 67242, 68608, 69973, 71338, 72704, 74069, 75434,
      76800, 78165, 79530, 80896, 82261, 83626, 84992, 86357, 87722, 89088, 90453, 91818,
      93184, 94549, 95914, 97280, 98645, 100010, 101376, 102741, 104106, 105472, 106837,
      108202, 109568, 110933, 112298, 113664, 115029, 116394, 117760, 119125, 120490,
      121856, 123221, 124586, 125952, 127317, 128682, 130048, 131413, 132778, 134144,
      135509, 136874, 138240, 139605, 140970, 142336, 143701, 145066, 146432, 147797,
      149162, 150528, 151893, 153258, 154624, 155989, 157354, 158720, 160085, 161450,
      162816, 164181, 165546, 166912, 168277, 169642, 171008, 172373, 173738, 175104,
      176469, 177834, 179200, 180565, 181930, 183296, 184661, 186026, 187392, 188757,
      190122, 191488, 192853, 194218, 195584, 196949, 198314, 199680, 201045, 202410,
      203776, 205141, 206506, 207872, 209237, 210602, 211968, 213333, 214698, 216064,
      217429, 218794, 220160, 221525, 222890, 224256, 225621, 226986, 228352, 229717,
      231082, 232448, 233813, 235178, 236544, 237909, 239274, 240640, 242005, 243370,
      244736, 246101, 247466, 248832, 250197, 251562, 252928, 254293, 255658, 257024,
      258389, 259754, 261120, 262485, 263850, 265216, 266581, 267946, 269312, 270677,
      272042, 273408, 274773, 276138, 277504, 278869, 280234, 281600, 282965, 284330,
      285696, 287061, 288426, 289792, 291157, 292522, 293888, 295253, 296618, 297984,
      299349]"
  by (simp add: ipc_table_fill_def PAGE_MAX_SIZE_def Let_def)

lemma ipc_table_fill_requests:
  "ipc_table_fill 63 2 16 =
     [2, 4, 8, 16, 32, 64, 128, 256, 512, 768, 1024, 1280, 1536, 1792, 2048, 2304, 2560,
      2816, 3072, 3328, 3584, 3840, 4096, 4608, 5120, 5632, 6144, 6656, 7168, 7680, 8192,
      8704, 9216, 9728, 10240, 10752, 11264, 11776, 12800, 13824, 14848, 15872, 16896,
      17920, 18944, 19968, 20992, 22016, 23040, 24064, 25088, 26112, 27136, 29184, 31232,
      33280, 35328, 37376, 39424, 41472, 43520, 45568, 47616]"
  by (simp add: ipc_table_fill_def PAGE_MAX_SIZE_def Let_def)

lemma ipc_table_entries_eq:
  "ipc_table_entries = ipc_table_fill 255 16 24 @ [299349]"
proof -
  have "ipc_table_fill 255 16 24 ! 254 = 299349"
    unfolding ipc_table_fill_entries by simp
  then show ?thesis
    by (simp add: ipc_table_entries_def IPC_TABLE_ENTRIES_SIZE_def sizeof_ipc_entry_def)
qed

lemma length_ipc_table_fill_entries: "length (ipc_table_fill 255 16 24) = 255"
  unfolding ipc_table_fill_entries by simp

lemma length_ipc_table_entries [simp]: "length ipc_table_entries = 256"
  by (simp add: ipc_table_entries_eq length_ipc_table_fill_entries)

lemma ipc_table_fill_entries_sorted: "sorted_wrt (<) (ipc_table_fill 255 16 24)"
proof -
  have "successively (<) (ipc_table_fill 255 16 24)"
    unfolding ipc_table_fill_entries by simp
  then show ?thesis by (simp add: successively_conv_sorted_wrt)
qed

lemma ipc_table_entries_less:
  "i < j \<Longrightarrow> j < 255 \<Longrightarrow> ipc_table_entries ! i < ipc_table_entries ! j"
  using sorted_wrt_nth_less [OF ipc_table_fill_entries_sorted, of i j]
  by (simp add: ipc_table_entries_eq nth_append length_ipc_table_fill_entries)

lemma ipc_table_entries_last [simp]:
  "ipc_table_entries ! 254 = 299349" "ipc_table_entries ! 255 = 299349"
  by (simp_all add: ipc_table_entries_eq nth_append length_ipc_table_fill_entries)
    (simp add: ipc_table_fill_entries)

lemma ipc_table_entries_first: "ipc_table_entries ! 0 = 21"
  by (simp add: ipc_table_entries_eq nth_append length_ipc_table_fill_entries)
    (simp add: ipc_table_fill_entries)

lemma ipc_table_entries_bounds:
  assumes "i < 256"
  shows "21 \<le> ipc_table_entries ! i" and "ipc_table_entries ! i \<le> 299349"
proof -
  have "i = 0 \<or> i = 254 \<or> i = 255 \<or> 0 < i \<and> i < 254" using assms by linarith
  then show "21 \<le> ipc_table_entries ! i" "ipc_table_entries ! i \<le> 299349"
    using ipc_table_entries_less [of 0 i] ipc_table_entries_less [of i 254] ipc_table_entries_first
    by auto
qed

end
