(* ===== verification/Robin_Hood.thy ===== *)
theory Robin_Hood
imports Main
begin

text \<open>
  Open addressing with linear probing and Robin Hood displacement, on functions instead of arrays.
  A table of \<open>n\<close> slots holds in \<open>idx h\<close> the item of slot \<open>h\<close> (0 when the slot is empty) and in
  \<open>dst h\<close> its displacement from its home slot, cut off at \<open>M\<close>.  \<open>rh_wf\<close> is the invariant that
  makes a search sound: the slots between the home of an item and the item are all occupied, and
  each by an item that is displaced at least as far as the search has gone, up to the cut-off.
  The lemmas cover one step of each loop of \<^verbatim>\<open>osfmk/ipc/ipc_hash.c\<close>.
\<close>

section \<open>Circular distances\<close>

definition hnext :: "nat \<Rightarrow> nat \<Rightarrow> nat" where
  "hnext n h = (if h + 1 = n then 0 else h + 1)"

definition disp :: "nat \<Rightarrow> nat \<Rightarrow> nat \<Rightarrow> nat" where
  "disp n a h = (if h \<ge> a then h - a else h + n - a)"

lemma hnext_less: "h < n \<Longrightarrow> hnext n h < n"
  by (auto simp: hnext_def)

lemma disp_less: "a < n \<Longrightarrow> h < n \<Longrightarrow> disp n a h < n"
  by (auto simp: disp_def)

lemma disp_self [simp]: "disp n a a = 0"
  by (simp add: disp_def)

lemma disp_eq_0_iff: "a < n \<Longrightarrow> h < n \<Longrightarrow> disp n a h = 0 \<longleftrightarrow> h = a"
  by (auto simp: disp_def)

lemma disp_hnext: "a < n \<Longrightarrow> h < n \<Longrightarrow> hnext n h \<noteq> a \<Longrightarrow> disp n a (hnext n h) = disp n a h + 1"
  by (auto simp: disp_def hnext_def)

lemma disp_hnext_from: "a < n \<Longrightarrow> h < n \<Longrightarrow> h \<noteq> a \<Longrightarrow> disp n (hnext n a) h = disp n a h - 1"
  by (auto simp: disp_def hnext_def)

lemma disp_inj: "a < n \<Longrightarrow> h < n \<Longrightarrow> h' < n \<Longrightarrow> disp n a h = disp n a h' \<Longrightarrow> h = h'"
  by (auto simp: disp_def split: if_splits)

lemma hnext_inj: "h < n \<Longrightarrow> h' < n \<Longrightarrow> hnext n h = hnext n h' \<Longrightarrow> h = h'"
  by (auto simp: hnext_def split: if_splits)

lemma hnext_home_disp: "a < n \<Longrightarrow> h < n \<Longrightarrow> hnext n h = a \<Longrightarrow> disp n a h = n - 1"
  by (auto simp: disp_def hnext_def split: if_splits)

section \<open>The invariant\<close>

text \<open>\<open>rh_path\<close>: a search for an item with home \<open>a\<close> gets from \<open>a\<close> to \<open>h\<close>.\<close>

definition rh_path :: "nat \<Rightarrow> nat \<Rightarrow> (nat \<Rightarrow> nat) \<Rightarrow> (nat \<Rightarrow> nat) \<Rightarrow> nat \<Rightarrow> nat \<Rightarrow> bool" where
  "rh_path n M idx dst a h \<longleftrightarrow>
     (\<forall>s<n. disp n a s < disp n a h \<longrightarrow> idx s \<noteq> 0 \<and> min (disp n a s) M \<le> dst s)"

definition rh_wf :: "nat \<Rightarrow> nat \<Rightarrow> (nat \<Rightarrow> nat) \<Rightarrow> (nat \<Rightarrow> nat) \<Rightarrow> (nat \<Rightarrow> nat) \<Rightarrow> nat set \<Rightarrow> bool" where
  "rh_wf n M home idx dst H \<longleftrightarrow>
     0 \<notin> H \<and> finite H \<and> card H < n \<and> (\<forall>i. home i < n) \<and>
     bij_betw idx {h. h < n \<and> idx h \<noteq> 0} H \<and>
     (\<forall>h<n. idx h \<noteq> 0 \<longrightarrow>
        dst h = min (disp n (home (idx h)) h) M \<and> rh_path n M idx dst (home (idx h)) h)"

lemma rh_wf_slot:
  assumes "rh_wf n M home idx dst H" "i \<in> H"
  obtains h where "h < n" "idx h = i" "i \<noteq> 0"
proof -
  have "i \<in> idx ` {h. h < n \<and> idx h \<noteq> 0}" using assms by (simp add: rh_wf_def bij_betw_def)
  then show thesis using that by auto
qed

lemma rh_wf_idx:
  "rh_wf n M home idx dst H \<Longrightarrow> h < n \<Longrightarrow> idx h \<noteq> 0 \<Longrightarrow> idx h \<in> H"
  unfolding rh_wf_def bij_betw_def by blast

lemma rh_wf_inj:
  "rh_wf n M home idx dst H \<Longrightarrow> h < n \<Longrightarrow> h' < n \<Longrightarrow> idx h \<noteq> 0 \<Longrightarrow> idx h = idx h' \<Longrightarrow> h = h'"
  unfolding rh_wf_def bij_betw_def inj_on_def by auto

lemma rh_wf_dst:
  assumes "rh_wf n M home idx dst H" "h < n" "idx h \<noteq> 0"
  shows "dst h = min (disp n (home (idx h)) h) M" "rh_path n M idx dst (home (idx h)) h"
  using assms unfolding rh_wf_def by blast+

lemma rh_wf_home: "rh_wf n M home idx dst H \<Longrightarrow> home i < n"
  unfolding rh_wf_def by blast

text \<open>Only the homes of the stored items matter.\<close>

lemma rh_wf_home_cong:
  assumes wf: "rh_wf n M home idx dst H" and home: "\<And>i. i \<in> H \<Longrightarrow> home' i = home i" "\<And>i. home' i < n"
  shows "rh_wf n M home' idx dst H"
proof -
  have "home' (idx h) = home (idx h)" if "h < n" "idx h \<noteq> 0" for h
    using rh_wf_idx [OF wf that] home(1) by simp
  then show ?thesis using wf home(2) unfolding rh_wf_def by simp
qed

lemma rh_wf_cong:
  assumes wf: "rh_wf n M home idx dst H"
    and eq: "\<And>s. s < n \<Longrightarrow> idx' s = idx s" "\<And>s. s < n \<Longrightarrow> dst' s = dst s"
  shows "rh_wf n M home idx' dst' H"
proof -
  have "{h. h < n \<and> idx' h \<noteq> 0} = {h. h < n \<and> idx h \<noteq> 0}" using eq by auto
  moreover have "bij_betw idx {h. h < n \<and> idx h \<noteq> 0} H" using wf by (simp add: rh_wf_def)
  then have "bij_betw idx' {h. h < n \<and> idx h \<noteq> 0} H"
    by (rule bij_betw_cong [THEN iffD1, rotated]) (simp add: eq)
  moreover have "rh_path n M idx' dst' a s = rh_path n M idx dst a s" for a s
    using eq by (simp add: rh_path_def)
  ultimately show ?thesis
    using wf eq unfolding rh_wf_def by simp
qed

text \<open>There is always an empty slot.\<close>

lemma rh_wf_empty_slot:
  assumes "rh_wf n M home idx dst H"
  obtains e where "e < n" "idx e = 0"
proof -
  let ?S = "{h. h < n \<and> idx h \<noteq> 0}"
  have "card ?S = card H" "card H < n"
    using assms bij_betw_same_card [of idx ?S H] by (auto simp: rh_wf_def)
  moreover have "?S = {..<n}" if "\<not> (\<exists>e<n. idx e = 0)" using that by auto
  ultimately have "\<exists>e<n. idx e = 0" by (metis card_lessThan less_irrefl)
  then show thesis using that by blast
qed

section \<open>Searching\<close>

text \<open>A search from the home of a stored item meets no empty slot and no less displaced item before it.\<close>

lemma rh_search_continue:
  assumes wf: "rh_wf n M home idx dst H" and i: "h < n" "idx h = i" "i \<noteq> 0"
    and s: "s < n" "disp n (home i) s < disp n (home i) h"
  shows "idx s \<noteq> 0" and "min (disp n (home i) s) M \<le> dst s" and "idx s \<noteq> i"
proof -
  have "rh_path n M idx dst (home i) h" using rh_wf_dst(2) [OF wf i(1)] i by simp
  then show "idx s \<noteq> 0" "min (disp n (home i) s) M \<le> dst s"
    using s unfolding rh_path_def by blast+
  show "idx s \<noteq> i"
  proof
    assume "idx s = i"
    then have "h = s" using i by (intro rh_wf_inj [OF wf i(1) s(1)]) simp_all
    then show False using s by simp
  qed
qed

section \<open>Insertion\<close>

text \<open>The carried item is put down in the first empty slot.\<close>

lemma rh_place:
  assumes wf: "rh_wf n M home idx dst H" and h: "h < n" "idx h = 0"
    and c: "c \<noteq> 0" "c \<notin> H" "card H + 1 < n" and path: "rh_path n M idx dst (home c) h"
  shows "rh_wf n M home (idx(h := c)) (dst(h := min (disp n (home c) h) M)) (insert c H)"
proof -
  let ?idx = "idx(h := c)" and ?dst = "dst(h := min (disp n (home c) h) M)"
  have set: "{s. s < n \<and> ?idx s \<noteq> 0} = insert h {s. s < n \<and> idx s \<noteq> 0}" using h c by auto
  have "bij_betw idx {s. s < n \<and> idx s \<noteq> 0} H" using wf by (simp add: rh_wf_def)
  then have "bij_betw ?idx {s. s < n \<and> idx s \<noteq> 0} H"
    by (rule bij_betw_cong [THEN iffD1, rotated]) (use h in auto)
  then have "bij_betw ?idx (insert h {s. s < n \<and> idx s \<noteq> 0}) (insert c H)"
    using h c notIn_Un_bij_betw [of h "{s. s < n \<and> idx s \<noteq> 0}" ?idx H] by simp
  moreover have keep: "rh_path n M ?idx ?dst a s" if "rh_path n M idx dst a s" for a s
    using that h c unfolding rh_path_def by auto
  ultimately show ?thesis
    using wf path c h unfolding rh_wf_def set by (auto simp: keep)
qed

text \<open>The carried item takes the slot of a less displaced one, which is carried on.\<close>

lemma rh_swap:
  assumes wf: "rh_wf n M home idx dst H" and h: "h < n" "idx h \<noteq> 0"
    and c: "c \<noteq> 0" "c \<notin> H" and path: "rh_path n M idx dst (home c) h"
    and less: "dst h < min (disp n (home c) h) M"
  shows "rh_wf n M home (idx(h := c)) (dst(h := min (disp n (home c) h) M)) (insert c (H - {idx h}))"
    and "rh_path n M (idx(h := c)) (dst(h := min (disp n (home c) h) M)) (home (idx h)) h"
proof -
  let ?idx = "idx(h := c)" and ?dst = "dst(h := min (disp n (home c) h) M)"
  let ?S = "{s. s < n \<and> idx s \<noteq> 0}"
  have set: "{s. s < n \<and> ?idx s \<noteq> 0} = ?S" using h c by auto
  have bij: "bij_betw idx ?S H" and H: "0 \<notin> H" "finite H" "card H < n" using wf by (auto simp: rh_wf_def)
  have hH: "idx h \<in> H" using rh_wf_idx [OF wf h] .
  have "bij_betw idx (?S - {h}) (H - {idx h})"
    using bij h by (simp add: bij_betw_def inj_on_diff inj_on_image_set_diff [of idx ?S])
  then have "bij_betw ?idx (?S - {h}) (H - {idx h})"
    by (rule bij_betw_cong [THEN iffD1, rotated]) auto
  then have "bij_betw ?idx (insert h (?S - {h})) (insert c (H - {idx h}))"
    using c notIn_Un_bij_betw [of h "?S - {h}" ?idx "H - {idx h}"] by simp
  then have bij': "bij_betw ?idx ?S (insert c (H - {idx h}))"
    using h by (simp add: insert_absorb)
  have keep: "rh_path n M ?idx ?dst a s" if "rh_path n M idx dst a s" for a s
    using that less c unfolding rh_path_def by auto
  have card: "card (insert c (H - {idx h})) = card H"
    using H hH c by (simp add: card_Diff_singleton)
       (metis One_nat_def Suc_pred card_gt_0_iff empty_iff)
  show "rh_wf n M home ?idx ?dst (insert c (H - {idx h}))"
    using wf bij' H c path card unfolding rh_wf_def set by (auto simp: keep)
  show "rh_path n M ?idx ?dst (home (idx h)) h"
    by (rule keep) (use wf h in \<open>auto simp: rh_wf_def\<close>)
qed

text \<open>The search for a place moves on past an item that is displaced at least as far.\<close>

lemma rh_advance:
  assumes wf: "rh_wf n M home idx dst H" and h: "h < n" "idx h \<noteq> 0"
    and path: "rh_path n M idx dst (home c) h" and ge: "min (disp n (home c) h) M \<le> dst h"
  shows "rh_path n M idx dst (home c) (hnext n h)" and "hnext n h \<noteq> home c"
proof -
  have c: "home c < n" using wf by (simp add: rh_wf_def)
  show ne: "hnext n h \<noteq> home c"
  proof
    assume eq: "hnext n h = home c"
    obtain e where e: "e < n" "idx e = 0" using rh_wf_empty_slot [OF wf] .
    then have "e \<noteq> h" using h by auto
    then have "disp n (home c) e < disp n (home c) h"
      using disp_less [OF c e(1)] hnext_home_disp [OF c h(1) eq] disp_inj [OF c e(1) h(1)]
      by (metis One_nat_def Suc_pred' gr_implies_not0 less_Suc_eq not_gr_zero)
    then show False using path e unfolding rh_path_def by blast
  qed
  show "rh_path n M idx dst (home c) (hnext n h)"
    unfolding rh_path_def disp_hnext [OF c h(1) ne]
  proof (intro allI impI)
    fix s assume s: "s < n" "disp n (home c) s < disp n (home c) h + 1"
    then consider "disp n (home c) s < disp n (home c) h" | "s = h"
      using disp_inj [OF c s(1) h(1)] by linarith
    then show "idx s \<noteq> 0 \<and> min (disp n (home c) s) M \<le> dst s"
      using path s h ge unfolding rh_path_def by cases auto
  qed
qed

section \<open>Deletion\<close>

text \<open>
  While a deletion closes the gap it opened, slot \<open>h\<close> is a hole: its contents are stale.  The
  displacements are all within the cut-off, so that the stored distances are exact.
\<close>

definition rh_exact :: "nat \<Rightarrow> nat \<Rightarrow> (nat \<Rightarrow> nat) \<Rightarrow> (nat \<Rightarrow> nat) \<Rightarrow> bool" where
  "rh_exact n M home idx \<longleftrightarrow> (\<forall>h<n. idx h \<noteq> 0 \<longrightarrow> disp n (home (idx h)) h \<le> M)"

definition rh_hole :: "nat \<Rightarrow> nat \<Rightarrow> (nat \<Rightarrow> nat) \<Rightarrow> (nat \<Rightarrow> nat) \<Rightarrow> (nat \<Rightarrow> nat) \<Rightarrow> nat set \<Rightarrow> nat \<Rightarrow> bool" where
  "rh_hole n M home idx dst H h \<longleftrightarrow>
     0 \<notin> H \<and> finite H \<and> card H < n \<and> (\<forall>i. home i < n) \<and> h < n \<and>
     bij_betw idx {s. s < n \<and> s \<noteq> h \<and> idx s \<noteq> 0} H \<and>
     (\<forall>s<n. s \<noteq> h \<longrightarrow> idx s \<noteq> 0 \<longrightarrow>
        disp n (home (idx s)) s \<le> M \<and> dst s = disp n (home (idx s)) s \<and>
        (\<forall>t<n. t \<noteq> h \<longrightarrow> disp n (home (idx s)) t < disp n (home (idx s)) s \<longrightarrow>
           idx t \<noteq> 0 \<and> disp n (home (idx s)) t \<le> dst t))"

lemma rh_exact_home_cong:
  assumes "rh_wf n M home idx dst H" "rh_exact n M home idx" "\<And>i. i \<in> H \<Longrightarrow> home' i = home i"
  shows "rh_exact n M home' idx"
  using assms(2,3) rh_wf_idx [OF assms(1)] unfolding rh_exact_def by simp

lemma rh_open_hole:
  assumes wf: "rh_wf n M home idx dst H" and ex: "rh_exact n M home idx" and h: "h < n" "idx h \<noteq> 0"
  shows "rh_hole n M home idx dst (H - {idx h}) h"
proof -
  let ?S = "{s. s < n \<and> idx s \<noteq> 0}"
  have set: "{s. s < n \<and> s \<noteq> h \<and> idx s \<noteq> 0} = ?S - {h}" by auto
  have "bij_betw idx ?S H" using wf by (simp add: rh_wf_def)
  then have bij: "bij_betw idx (?S - {h}) (H - {idx h})"
    using h by (simp add: bij_betw_def inj_on_diff inj_on_image_set_diff [of idx ?S])
  have "card (H - {idx h}) < n"
    using wf card_Diff1_le [of H "idx h"] by (simp add: rh_wf_def)
  moreover have "0 \<notin> H - {idx h}" "finite (H - {idx h})" "\<forall>i. home i < n"
    using wf by (simp_all add: rh_wf_def)
  moreover have "disp n (home (idx s)) s \<le> M \<and> dst s = disp n (home (idx s)) s \<and>
        (\<forall>t<n. t \<noteq> h \<longrightarrow> disp n (home (idx s)) t < disp n (home (idx s)) s \<longrightarrow>
           idx t \<noteq> 0 \<and> disp n (home (idx s)) t \<le> dst t)" if s: "s < n" "idx s \<noteq> 0" for s
  proof -
    have le: "disp n (home (idx s)) s \<le> M" using ex s unfolding rh_exact_def by blast
    have "idx t \<noteq> 0 \<and> disp n (home (idx s)) t \<le> dst t"
      if t: "t < n" "disp n (home (idx s)) t < disp n (home (idx s)) s" for t
    proof -
      have "idx t \<noteq> 0 \<and> min (disp n (home (idx s)) t) M \<le> dst t"
        using rh_wf_dst(2) [OF wf s] t unfolding rh_path_def by blast
      then show ?thesis using t le by simp
    qed
    moreover have "dst s = disp n (home (idx s)) s" using le by (subst rh_wf_dst(1) [OF wf s]) simp
    ultimately show ?thesis using le by blast
  qed
  ultimately show ?thesis
    using bij h(1) unfolding rh_hole_def set by blast
qed

lemma rh_hole_slot:
  assumes "rh_hole n M home idx dst H h" "s < n" "s \<noteq> h" "idx s \<noteq> 0"
  shows "disp n (home (idx s)) s \<le> M" "dst s = disp n (home (idx s)) s"
    "\<And>t. t < n \<Longrightarrow> t \<noteq> h \<Longrightarrow> disp n (home (idx s)) t < disp n (home (idx s)) s \<Longrightarrow>
       idx t \<noteq> 0 \<and> disp n (home (idx s)) t \<le> dst t"
  using assms unfolding rh_hole_def by blast+

lemma rh_hole_home: "rh_hole n M home idx dst H h \<Longrightarrow> home i < n"
  unfolding rh_hole_def by blast

text \<open>An item whose search passes the hole is either just behind it or passes the slot behind it too.\<close>

lemma rh_hole_pass:
  assumes hole: "rh_hole n M home idx dst H h" and n: "1 < n"
    and s: "s < n" "s \<noteq> h" "idx s \<noteq> 0" "s \<noteq> hnext n h"
    and pass: "disp n (home (idx s)) h < disp n (home (idx s)) s"
  shows "idx (hnext n h) \<noteq> 0" and "disp n (home (idx s)) h + 1 \<le> dst (hnext n h)"
proof -
  let ?a = "home (idx s)" and ?d = "hnext n h"
  have h: "h < n" and a: "?a < n" using hole by (auto simp: rh_hole_def)
  have d: "?d < n" "?d \<noteq> h" using hnext_less [OF h] n by (auto simp: hnext_def)
  have "?d \<noteq> ?a"
    using pass hnext_home_disp [OF a h] disp_less [OF a s(1)] by fastforce
  then have eq: "disp n ?a ?d = disp n ?a h + 1" by (rule disp_hnext [OF a h])
  moreover have "disp n ?a ?d \<noteq> disp n ?a s" using disp_inj [OF a d(1) s(1)] s by blast
  ultimately have "disp n ?a ?d < disp n ?a s" using pass by linarith
  from rh_hole_slot(3) [OF hole s(1-3) d this] eq
  show "idx ?d \<noteq> 0" "disp n ?a h + 1 \<le> dst ?d" by simp_all
qed

lemma rh_close:
  assumes hole: "rh_hole n M home idx dst H h" and n: "1 < n"
    and stop: "idx (hnext n h) = 0 \<or> dst (hnext n h) = 0"
  shows "rh_wf n M home (idx(h := 0)) (dst(h := 0)) H" and "rh_exact n M home (idx(h := 0))"
proof -
  let ?idx = "idx(h := 0)" and ?dst = "dst(h := 0)"
  have set: "{s. s < n \<and> ?idx s \<noteq> 0} = {s. s < n \<and> s \<noteq> h \<and> idx s \<noteq> 0}" by auto
  have "bij_betw idx {s. s < n \<and> s \<noteq> h \<and> idx s \<noteq> 0} H" using hole by (simp add: rh_hole_def)
  then have bij: "bij_betw ?idx {s. s < n \<and> s \<noteq> h \<and> idx s \<noteq> 0} H"
    by (rule bij_betw_cong [THEN iffD1, rotated]) auto
  have no_pass: "\<not> disp n (home (idx s)) h < disp n (home (idx s)) s"
    if s: "s < n" "s \<noteq> h" "idx s \<noteq> 0" for s
  proof
    assume pass: "disp n (home (idx s)) h < disp n (home (idx s)) s"
    show False
    proof (cases "s = hnext n h")
      case True
      then show False using stop s pass rh_hole_slot(2) [OF hole s] by simp
    next
      case False
      then show False using rh_hole_pass [OF hole n s False pass] stop by simp
    qed
  qed
  have path: "rh_path n M ?idx ?dst (home (idx s)) s" if s: "s < n" "s \<noteq> h" "idx s \<noteq> 0" for s
    unfolding rh_path_def
  proof (intro allI impI)
    fix t assume t: "t < n" "disp n (home (idx s)) t < disp n (home (idx s)) s"
    then have "t \<noteq> h" using no_pass [OF s] by auto
    with rh_hole_slot(3) [OF hole s t(1) this t(2)]
    show "?idx t \<noteq> 0 \<and> min (disp n (home (idx s)) t) M \<le> ?dst t"
      by (simp add: min.coboundedI1)
  qed
  have dst: "dst s = min (disp n (home (idx s)) s) M" if "s < n" "s \<noteq> h" "idx s \<noteq> 0" for s
    using rh_hole_slot(1,2) [OF hole that] by simp
  have "\<forall>s<n. ?idx s \<noteq> 0 \<longrightarrow> ?dst s = min (disp n (home (?idx s)) s) M \<and>
      rh_path n M ?idx ?dst (home (?idx s)) s"
  proof (intro allI impI)
    fix s assume "s < n" "?idx s \<noteq> 0"
    moreover from this have "s \<noteq> h" "?idx s = idx s" "?dst s = dst s" by (auto split: if_splits)
    ultimately show "?dst s = min (disp n (home (?idx s)) s) M \<and>
      rh_path n M ?idx ?dst (home (?idx s)) s"
      using path [of s] dst [of s] by metis
  qed
  then show "rh_wf n M home ?idx ?dst H"
    using hole bij unfolding rh_wf_def rh_hole_def set by blast
  show "rh_exact n M home ?idx"
    using rh_hole_slot(1) [OF hole] unfolding rh_exact_def by auto
qed

lemma rh_shift:
  assumes hole: "rh_hole n M home idx dst H h" and n: "1 < n"
    and go: "idx (hnext n h) \<noteq> 0" "dst (hnext n h) \<noteq> 0"
  defines "d \<equiv> hnext n h"
  shows "rh_hole n M home (idx(h := idx d)) (dst(h := dst d - 1)) H d"
    and "disp n (home (idx d)) h = dst d - 1" and "dst d \<le> M"
proof -
  have h: "h < n" using hole by (simp add: rh_hole_def)
  have d: "d < n" "d \<noteq> h" "idx d \<noteq> 0" "dst d \<noteq> 0"
    using hnext_less [OF h] n go by (auto simp: hnext_def d_def)
  let ?a = "home (idx d)" and ?idx = "idx(h := idx d)" and ?dst = "dst(h := dst d - 1)"
  have a: "?a < n" by (rule rh_hole_home [OF hole])
  have dst: "dst d = disp n ?a d" "disp n ?a d \<le> M" using rh_hole_slot [OF hole d(1-3)] by simp_all
  then have "d \<noteq> ?a" using d(4) by auto
  then have step: "disp n ?a d = disp n ?a h + 1"
    using disp_hnext [OF a h] by (simp add: d_def)
  then show eq: "disp n ?a h = dst d - 1" and "dst d \<le> M" using dst by simp_all
  have S: "{s. s < n \<and> s \<noteq> d \<and> ?idx s \<noteq> 0} = insert h ({s. s < n \<and> s \<noteq> h \<and> idx s \<noteq> 0} - {d})"
    using h d by auto
  have bij: "bij_betw idx {s. s < n \<and> s \<noteq> h \<and> idx s \<noteq> 0} H" using hole by (simp add: rh_hole_def)
  then have "idx d \<in> H" using d by (auto simp: bij_betw_def)
  from bij have "bij_betw idx ({s. s < n \<and> s \<noteq> h \<and> idx s \<noteq> 0} - {d}) (H - {idx d})"
    using d by (simp add: bij_betw_def inj_on_diff inj_on_image_set_diff [of idx "{s. s < n \<and> s \<noteq> h \<and> idx s \<noteq> 0}"])
  then have "bij_betw ?idx ({s. s < n \<and> s \<noteq> h \<and> idx s \<noteq> 0} - {d}) (H - {idx d})"
    by (rule bij_betw_cong [THEN iffD1, rotated]) auto
  then have "bij_betw ?idx (insert h ({s. s < n \<and> s \<noteq> h \<and> idx s \<noteq> 0} - {d})) (insert (idx d) (H - {idx d}))"
    using notIn_Un_bij_betw [of h "{s. s < n \<and> s \<noteq> h \<and> idx s \<noteq> 0} - {d}" ?idx "H - {idx d}"] by simp
  then have bij': "bij_betw ?idx {s. s < n \<and> s \<noteq> d \<and> ?idx s \<noteq> 0} H"
    unfolding S using \<open>idx d \<in> H\<close> by (simp add: insert_absorb)
  have old: "disp n (home (idx s)) s \<le> M \<and> dst s = disp n (home (idx s)) s \<and>
        (\<forall>t<n. t \<noteq> d \<longrightarrow> disp n (home (idx s)) t < disp n (home (idx s)) s \<longrightarrow>
           ?idx t \<noteq> 0 \<and> disp n (home (idx s)) t \<le> ?dst t)"
    if s: "s < n" "s \<noteq> h" "s \<noteq> d" "idx s \<noteq> 0" for s
  proof -
    have "?idx t \<noteq> 0 \<and> disp n (home (idx s)) t \<le> ?dst t"
      if t: "t < n" "t \<noteq> d" "disp n (home (idx s)) t < disp n (home (idx s)) s" for t
    proof (cases "t = h")
      case True
      then show ?thesis
        using rh_hole_pass [OF hole n s(1,2,4), folded d_def, OF s(3)] t d by auto
    next
      case False
      then show ?thesis using rh_hole_slot(3) [OF hole s(1,2,4) t(1) False t(3)] by simp
    qed
    then show ?thesis using rh_hole_slot(1,2) [OF hole s(1,2,4)] by blast
  qed
  have new: "disp n ?a h \<le> M \<and> (\<forall>t<n. t \<noteq> d \<longrightarrow> disp n ?a t < disp n ?a h \<longrightarrow>
           ?idx t \<noteq> 0 \<and> disp n ?a t \<le> ?dst t)"
  proof -
    have "?idx t \<noteq> 0 \<and> disp n ?a t \<le> ?dst t" if t: "t < n" "disp n ?a t < disp n ?a h" for t
    proof -
      have "t \<noteq> h" using t by auto
      moreover have "disp n ?a t < disp n ?a d" using t step by simp
      ultimately show ?thesis using rh_hole_slot(3) [OF hole d(1-3) t(1)] by simp
    qed
    then show ?thesis using step dst by simp
  qed
  have "\<forall>s<n. s \<noteq> d \<longrightarrow> ?idx s \<noteq> 0 \<longrightarrow>
        disp n (home (?idx s)) s \<le> M \<and> ?dst s = disp n (home (?idx s)) s \<and>
        (\<forall>t<n. t \<noteq> d \<longrightarrow> disp n (home (?idx s)) t < disp n (home (?idx s)) s \<longrightarrow>
           ?idx t \<noteq> 0 \<and> disp n (home (?idx s)) t \<le> ?dst t)"
  proof (intro allI impI)
    fix s assume s: "s < n" "s \<noteq> d" "?idx s \<noteq> 0"
    show "disp n (home (?idx s)) s \<le> M \<and> ?dst s = disp n (home (?idx s)) s \<and>
        (\<forall>t<n. t \<noteq> d \<longrightarrow> disp n (home (?idx s)) t < disp n (home (?idx s)) s \<longrightarrow>
           ?idx t \<noteq> 0 \<and> disp n (home (?idx s)) t \<le> ?dst t)"
    proof (cases "s = h")
      case True
      have i: "?idx s = idx d" "?dst s = dst d - 1" using True by simp_all
      show ?thesis unfolding i unfolding True using new by (simp only: eq [symmetric] simp_thms) blast
    next
      case False
      then have i: "?idx s = idx s" "?dst s = dst s" by simp_all
      show ?thesis unfolding i by (rule old) (use s False in auto)
    qed
  qed
  then show "rh_hole n M home ?idx ?dst H d"
    using hole bij' d(1) unfolding rh_hole_def by blast
qed

text \<open>A displacement is bounded by the number of items.\<close>

lemma card_disp_less:
  assumes a: "a < n" and d: "d \<le> n"
  shows "card {s. s < n \<and> disp n a s < d} = d"
proof -
  have inj: "inj_on (disp n a) {..<n}" using disp_inj [OF a] by (auto intro: inj_onI)
  have "disp n a ` {..<n} = {..<n}"
    using disp_less [OF a] by (intro endo_inj_surj [OF _ _ inj]) auto
  then have "disp n a ` {s. s < n \<and> disp n a s < d} = {..<d}" using d by auto
  moreover have "inj_on (disp n a) {s. s < n \<and> disp n a s < d}"
    by (rule inj_on_subset [OF inj]) auto
  ultimately show ?thesis by (metis card_image card_lessThan)
qed

lemma rh_exact_card:
  assumes wf: "rh_wf n M home idx dst H" and card: "card H \<le> M + 1"
  shows "rh_exact n M home idx"
  unfolding rh_exact_def
proof (intro allI impI)
  fix h assume h: "h < n" "idx h \<noteq> 0"
  let ?a = "home (idx h)"
  let ?P = "{s. s < n \<and> disp n ?a s < disp n ?a h}" and ?S = "{s. s < n \<and> idx s \<noteq> 0}"
  have a: "?a < n" by (rule rh_wf_home [OF wf])
  have "rh_path n M idx dst ?a h" by (rule rh_wf_dst(2) [OF wf h])
  then have "insert h ?P \<subseteq> ?S" using h unfolding rh_path_def by blast
  then have "card (insert h ?P) \<le> card ?S" by (intro card_mono) auto
  moreover have "card (insert h ?P) = disp n ?a h + 1"
    using card_disp_less [OF a, of "disp n ?a h"] disp_less [OF a h(1)] by simp
  moreover have "card ?S = card H"
    using wf bij_betw_same_card [of idx ?S H] by (simp add: rh_wf_def)
  ultimately show "disp n ?a h \<le> M" using card by simp
qed

end
