(* ===== verification/Ipc_Hash.thy ===== *)
theory Ipc_Hash
imports Ipc_Entry_Bits Robin_Hood
begin

text \<open>
  The reverse hash of a capability table, from an object to the entry that holds a pure send right
  for it: \<^verbatim>\<open>osfmk/ipc/ipc_hash.c\<close> and the pointer hash of \<^verbatim>\<open>libkern/os/hash.h\<close>.  The hash
  lives in the \<open>ie_index\<close> and \<open>ie_dist\<close> fields of the table itself.  The loops carry fuel, one
  unit per slot: a probe that has gone round the whole table never ends, so running out of fuel is
  the endless loop, and is \<open>None\<close> like a failed assertion.  An entry pointer is its index.

  \<open>hash_inv table H\<close> says that exactly the entries of \<open>H\<close> are hashed; the operations are shown to
  implement a finite map under it.
\<close>

definition bswap32 :: "32 word \<Rightarrow> 32 word" where
  "bswap32 w = push_bit 24 (w AND 0xff) OR push_bit 8 (w AND 0xff00) OR
               (drop_bit 8 w AND 0xff00) OR (drop_bit 24 w AND 0xff)"

definition os_hash_kernel_pointer :: "64 word \<Rightarrow> 32 word" where
  "os_hash_kernel_pointer pointer =
     (let key = drop_bit 4 pointer * 0x5052acdb; k = ucast key
      in k XOR bswap32 k)"

definition IH_TABLE_HASH :: "ipc_object_t \<Rightarrow> nat \<Rightarrow> nat" where
  "IH_TABLE_HASH obj sz = unat (os_hash_kernel_pointer obj) mod sz"

text \<open>Advancing the displacement, pegged at its maximum, and the probe index.\<close>

definition peg :: "nat \<Rightarrow> nat" where
  "peg hdist = (if hdist < IPC_ENTRY_DIST_MAX then hdist + 1 else hdist)"

fun ipc_hash_table_lookup_loop ::
    "nat \<Rightarrow> ipc_entry list \<Rightarrow> ipc_object_t \<Rightarrow> nat \<Rightarrow> nat \<Rightarrow> nat \<Rightarrow> (mach_port_name_t \<times> nat) option option" where
  "ipc_hash_table_lookup_loop 0 table obj sz hindex hdist = None"
| "ipc_hash_table_lookup_loop (Suc fuel) table obj sz hindex hdist = do {
     slot \<leftarrow> nth_opt table hindex;
     let index = unat (ie_index slot);
     if index = 0 then Some None
     else if hdist > unat (ie_dist slot) then Some None
     else do {
       entry \<leftarrow> nth_opt table index;
       if hdist = unat (ie_dist slot)
       then do {
         kassert (index < sz);
         if ie_object entry = obj
         then Some (Some (MACH_PORT_MAKE (word_of_nat index) (IE_BITS_GEN (ie_bits entry)), index))
         else ipc_hash_table_lookup_loop fuel table obj sz (hnext sz hindex) (peg hdist)
       }
       else do {
         kassert (ie_object entry \<noteq> obj);
         ipc_hash_table_lookup_loop fuel table obj sz (hnext sz hindex) (peg hdist)
       }
     }
   }"

definition ipc_hash_table_lookup ::
    "ipc_entry list \<Rightarrow> ipc_object_t \<Rightarrow> (mach_port_name_t \<times> nat) option option" where
  "ipc_hash_table_lookup table obj = do {
     head \<leftarrow> nth_opt table 0;
     let sz = unat (ie_size head);
     if obj = IO_NULL then Some None
     else ipc_hash_table_lookup_loop sz table obj sz (IH_TABLE_HASH obj sz) 0
   }"

fun ipc_hash_table_insert_loop ::
    "nat \<Rightarrow> ipc_entry list \<Rightarrow> nat \<Rightarrow> nat \<Rightarrow> nat \<Rightarrow> nat \<Rightarrow> ipc_entry list option" where
  "ipc_hash_table_insert_loop 0 table sz hindex hdist index = None"
| "ipc_hash_table_insert_loop (Suc fuel) table sz hindex hdist index = do {
     slot \<leftarrow> nth_opt table hindex;
     if ie_index slot \<noteq> 0
     then if unat (ie_dist slot) < hdist
          then ipc_hash_table_insert_loop fuel
                 (table[hindex := slot\<lparr>ie_dist := word_of_nat hdist, ie_index := word_of_nat index\<rparr>])
                 sz (hnext sz hindex) (peg (unat (ie_dist slot))) (unat (ie_index slot))
          else ipc_hash_table_insert_loop fuel table sz (hnext sz hindex) (peg hdist) index
     else Some (table[hindex := slot\<lparr>ie_index := word_of_nat index, ie_dist := word_of_nat hdist\<rparr>])
   }"

definition ipc_hash_table_insert ::
    "ipc_entry list \<Rightarrow> ipc_object_t \<Rightarrow> nat \<Rightarrow> nat \<Rightarrow> ipc_entry list option" where
  "ipc_hash_table_insert table obj index entry = do {
     head \<leftarrow> nth_opt table 0;
     let sz = unat (ie_size head);
     kassert (index \<noteq> 0);
     kassert (obj \<noteq> IO_NULL);
     kassert (entry = index);
     e \<leftarrow> nth_opt table entry;
     kassert (ie_object e = obj);
     ipc_hash_table_insert_loop sz table sz (IH_TABLE_HASH obj sz) 0 index
   }"

text \<open>The two loops of a deletion: finding the slot of the entry, and closing the gap.\<close>

fun ipc_hash_table_delete_find :: "nat \<Rightarrow> ipc_entry list \<Rightarrow> nat \<Rightarrow> nat \<Rightarrow> nat \<Rightarrow> nat option" where
  "ipc_hash_table_delete_find 0 table sz hindex index = None"
| "ipc_hash_table_delete_find (Suc fuel) table sz hindex index = do {
     slot \<leftarrow> nth_opt table hindex;
     if unat (ie_index slot) \<noteq> index
     then ipc_hash_table_delete_find fuel table sz (hnext sz hindex) index
     else Some hindex
   }"

fun ipc_hash_table_delete_shift :: "nat \<Rightarrow> ipc_entry list \<Rightarrow> nat \<Rightarrow> nat \<Rightarrow> ipc_entry list option" where
  "ipc_hash_table_delete_shift 0 table sz hindex = None"
| "ipc_hash_table_delete_shift (Suc fuel) table sz hindex = do {
     let dindex = hnext sz hindex;
     hole \<leftarrow> nth_opt table hindex;
     next_slot \<leftarrow> nth_opt table dindex;
     let index = unat (ie_index next_slot);
     let dist = unat (ie_dist next_slot);
     if index = 0 \<or> dist = 0
     then Some (table[hindex := hole\<lparr>ie_index := 0, ie_dist := 0\<rparr>])
     else do {
       dist \<leftarrow> (if dist = IPC_ENTRY_DIST_MAX
                then do {
                  moved \<leftarrow> nth_opt table index;
                  Some (min (disp sz (IH_TABLE_HASH (ie_object moved) sz) hindex) IPC_ENTRY_DIST_MAX)
                }
                else Some (dist - 1));
       ipc_hash_table_delete_shift fuel
         (table[hindex := hole\<lparr>ie_index := word_of_nat index, ie_dist := word_of_nat dist\<rparr>]) sz dindex
     }
   }"

definition ipc_hash_table_delete ::
    "ipc_entry list \<Rightarrow> ipc_object_t \<Rightarrow> nat \<Rightarrow> nat \<Rightarrow> ipc_entry list option" where
  "ipc_hash_table_delete table obj index entry = do {
     head \<leftarrow> nth_opt table 0;
     let sz = unat (ie_size head);
     kassert (index \<noteq> 0);
     kassert (obj \<noteq> IO_NULL);
     kassert (entry = index);
     e \<leftarrow> nth_opt table entry;
     kassert (ie_object e = obj);
     hindex \<leftarrow> ipc_hash_table_delete_find sz table sz (IH_TABLE_HASH obj sz) index;
     ipc_hash_table_delete_shift sz table sz hindex
   }"


section \<open>The invariant\<close>

definition hslot :: "ipc_entry list \<Rightarrow> nat \<Rightarrow> nat" where
  "hslot table h = unat (ie_index (table ! h))"

definition hdst :: "ipc_entry list \<Rightarrow> nat \<Rightarrow> nat" where
  "hdst table h = unat (ie_dist (table ! h))"

definition hhome :: "ipc_entry list \<Rightarrow> nat \<Rightarrow> nat" where
  "hhome table i = (if i < length table then IH_TABLE_HASH (ie_object (table ! i)) (length table) else 0)"

definition table_sized :: "ipc_entry list \<Rightarrow> bool" where
  "table_sized table \<longleftrightarrow> 1 < length table \<and> unat (ie_size (table ! 0)) = length table"

definition hash_inv :: "ipc_entry list \<Rightarrow> nat set \<Rightarrow> bool" where
  "hash_inv table H \<longleftrightarrow>
     H \<subseteq> {1..<length table} \<and> (\<forall>i\<in>H. ie_object (table ! i) \<noteq> IO_NULL) \<and>
     inj_on (\<lambda>i. ie_object (table ! i)) H \<and>
     rh_wf (length table) IPC_ENTRY_DIST_MAX (hhome table) (hslot table) (hdst table) H"

definition hash_exact :: "ipc_entry list \<Rightarrow> bool" where
  "hash_exact table \<longleftrightarrow>
     rh_exact (length table) IPC_ENTRY_DIST_MAX (hhome table) (hslot table)"

text \<open>Two tables that differ at most in the hash fields.\<close>

definition same_caps :: "ipc_entry list \<Rightarrow> ipc_entry list \<Rightarrow> bool" where
  "same_caps t t' \<longleftrightarrow> length t' = length t \<and>
     (\<forall>i<length t. ie_object (t' ! i) = ie_object (t ! i) \<and> ie_bits (t' ! i) = ie_bits (t ! i) \<and>
        ie_request (t' ! i) = ie_request (t ! i))"

definition entry_name :: "ipc_entry list \<Rightarrow> nat \<Rightarrow> mach_port_name_t" where
  "entry_name table i = MACH_PORT_MAKE (word_of_nat i) (IE_BITS_GEN (ie_bits (table ! i)))"

lemma same_caps_refl [simp]: "same_caps t t"
  by (simp add: same_caps_def)

lemma same_caps_trans [trans]: "same_caps t t' \<Longrightarrow> same_caps t' t'' \<Longrightarrow> same_caps t t''"
  by (simp add: same_caps_def)

lemma same_caps_length: "same_caps t t' \<Longrightarrow> length t' = length t"
  by (simp add: same_caps_def)

lemma same_caps_hhome: "same_caps t t' \<Longrightarrow> hhome t' = hhome t"
  by (auto simp: same_caps_def hhome_def)

lemma same_caps_sized: "same_caps t t' \<Longrightarrow> table_sized t \<Longrightarrow> table_sized t'"
  unfolding same_caps_def table_sized_def by (metis less_trans zero_less_one)

lemma same_caps_upd:
  "h < length t \<Longrightarrow> same_caps t (t[h := (t ! h)\<lparr>ie_index := i, ie_dist := d\<rparr>])"
  "h < length t \<Longrightarrow> same_caps t (t[h := (t ! h)\<lparr>ie_dist := d, ie_index := i\<rparr>])"
  by (auto simp: same_caps_def nth_list_update)

lemma hash_fields_upd:
  assumes "h < length t" "i < 2 ^ 32" "d \<le> IPC_ENTRY_DIST_MAX"
    and "e = (t ! h)\<lparr>ie_index := word_of_nat i, ie_dist := word_of_nat d\<rparr>"
  shows "hslot (t[h := e]) = (hslot t)(h := i)" and "hdst (t[h := e]) = (hdst t)(h := d)"
  using assms by (auto simp: hslot_def hdst_def fun_eq_iff nth_list_update unat_of_nat_len IPC_ENTRY_DIST_MAX_def)

lemma hash_inv_bounds: "hash_inv t H \<Longrightarrow> i \<in> H \<Longrightarrow> 0 < i \<and> i < length t"
  unfolding hash_inv_def by fastforce

lemma hash_inv_wf:
  "hash_inv t H \<Longrightarrow> rh_wf (length t) IPC_ENTRY_DIST_MAX (hhome t) (hslot t) (hdst t) H"
  by (simp add: hash_inv_def)

lemma hash_invI:
  assumes caps: "same_caps t t'" and H: "H \<subseteq> {1..<length t}" "\<forall>i\<in>H. ie_object (t ! i) \<noteq> IO_NULL"
    "inj_on (\<lambda>i. ie_object (t ! i)) H"
    and wf: "rh_wf (length t) IPC_ENTRY_DIST_MAX (hhome t) (hslot t') (hdst t') H"
  shows "hash_inv t' H"
proof -
  have obj: "ie_object (t' ! i) = ie_object (t ! i)" if "i \<in> H" for i
    using caps H(1) that by (auto simp: same_caps_def)
  then have "inj_on (\<lambda>i. ie_object (t' ! i)) H"
    using H(3) by (simp add: inj_on_def)
  then show ?thesis
    using H wf obj same_caps_hhome [OF caps] same_caps_length [OF caps] by (simp add: hash_inv_def)
qed

text \<open>The hash depends on its two fields and on the objects of the hashed entries.\<close>

lemma hash_inv_cong:
  assumes inv: "hash_inv t H" and len: "length t' = length t"
    and fields: "\<And>s. s < length t \<Longrightarrow> ie_index (t' ! s) = ie_index (t ! s) \<and> ie_dist (t' ! s) = ie_dist (t ! s)"
    and obj: "\<And>i. i \<in> H \<Longrightarrow> ie_object (t' ! i) = ie_object (t ! i)"
  shows "hash_inv t' H" and "hash_exact t \<Longrightarrow> hash_exact t'"
proof -
  let ?n = "length t" and ?M = IPC_ENTRY_DIST_MAX
  have wf: "rh_wf ?n ?M (hhome t) (hslot t) (hdst t) H" using inv by (simp add: hash_inv_def)
  have n: "0 < ?n" using rh_wf_home [OF wf, of 0] by linarith
  have home: "hhome t' i = hhome t i" if "i \<in> H" for i
    using obj [OF that] by (simp add: hhome_def len)
  have less: "hhome t' i < ?n" for i using n by (simp add: hhome_def len IH_TABLE_HASH_def)
  have eq: "hslot t' s = hslot t s" "hdst t' s = hdst t s" if "s < ?n" for s
    using fields [OF that] by (simp_all add: hslot_def hdst_def)
  have "rh_wf ?n ?M (hhome t') (hslot t) (hdst t) H"
    by (rule rh_wf_home_cong [OF wf home less])
  then have "rh_wf ?n ?M (hhome t') (hslot t') (hdst t') H"
    by (rule rh_wf_cong) (simp_all add: eq)
  then show "hash_inv t' H"
    using inv obj unfolding hash_inv_def len by (simp add: inj_on_def)
  assume "hash_exact t"
  then have "rh_exact ?n ?M (hhome t') (hslot t)"
    using rh_exact_home_cong [OF wf _ home] by (simp add: hash_exact_def)
  then show "hash_exact t'" unfolding hash_exact_def rh_exact_def len by (simp add: eq)
qed

lemma table_sized_bounds: "table_sized t \<Longrightarrow> length t < 2 ^ 32"
  unfolding table_sized_def using unat_lt2p [of "ie_size (t ! 0)"] by simp

lemma table_sized_head:
  assumes "table_sized t"
  shows "nth_opt t 0 = Some (t ! 0)" "unat (ie_size (t ! 0)) = length t" "0 < length t" "1 < length t"
proof -
  show "1 < length t" "unat (ie_size (t ! 0)) = length t" using assms by (auto simp: table_sized_def)
  then show "0 < length t" by linarith
  then show "nth_opt t 0 = Some (t ! 0)" by (simp add: nth_opt_in)
qed

lemma peg_min: "peg (min d IPC_ENTRY_DIST_MAX) = min (d + 1) IPC_ENTRY_DIST_MAX"
  by (auto simp: peg_def)

lemma IH_TABLE_HASH_less: "0 < n \<Longrightarrow> IH_TABLE_HASH obj n < n"
  by (simp add: IH_TABLE_HASH_def)


section \<open>Lookup\<close>

lemma lookup_loop_step:
  assumes "s < length t" "hslot t s \<noteq> 0" "hslot t s < length t" "hdist \<le> hdst t s"
    "ie_object (t ! hslot t s) \<noteq> obj"
  shows "ipc_hash_table_lookup_loop (Suc fuel) t obj (length t) s hdist =
    ipc_hash_table_lookup_loop fuel t obj (length t) (hnext (length t) s) (peg hdist)"
  using assms by (auto simp: Let_def panic_simps hslot_def hdst_def)

lemma lookup_loop_found:
  assumes inv: "hash_inv t H" and i: "h < length t" "hslot t h = i" "i \<noteq> 0"
    and s: "s < length t" "disp (length t) (hhome t i) s \<le> disp (length t) (hhome t i) h"
    and fuel: "disp (length t) (hhome t i) h - disp (length t) (hhome t i) s < fuel"
  shows "ipc_hash_table_lookup_loop fuel t (ie_object (t ! i)) (length t) s
      (min (disp (length t) (hhome t i) s) IPC_ENTRY_DIST_MAX) = Some (Some (entry_name t i, i))"
  using s fuel
proof (induction fuel arbitrary: s)
  case (Suc fuel)
  let ?n = "length t" and ?a = "hhome t i"
  note wf = hash_inv_wf [OF inv]
  have a: "?a < ?n" by (rule rh_wf_home [OF wf])
  have iH: "i \<in> H" using rh_wf_idx [OF wf i(1)] i by simp
  then have i_less: "i < ?n" using hash_inv_bounds [OF inv] by blast
  show ?case
  proof (cases "s = h")
    case True
    have "hdst t h = min (disp ?n ?a h) IPC_ENTRY_DIST_MAX" using rh_wf_dst(1) [OF wf i(1)] i by simp
    then show ?thesis
      using True i i_less
      by (simp add: Let_def panic_simps hslot_def hdst_def entry_name_def)
  next
    case False
    then have less: "disp ?n ?a s < disp ?n ?a h"
      using disp_inj [OF a Suc.prems(1) i(1)] Suc.prems(2) by (metis le_neq_implies_less)
    note cont = rh_search_continue [OF wf i Suc.prems(1) less]
    define j where "j = hslot t s"
    have j: "j \<noteq> 0" "j \<noteq> i" using cont by (simp_all add: j_def)
    have jH: "j \<in> H" using rh_wf_idx [OF wf Suc.prems(1)] cont j_def by simp
    then have j_less: "j < ?n" using hash_inv_bounds [OF inv] by blast
    have obj: "ie_object (t ! j) \<noteq> ie_object (t ! i)"
      using inv iH jH j(2) unfolding hash_inv_def inj_on_def by blast
    have "hnext ?n s \<noteq> ?a"
    proof
      assume "hnext ?n s = ?a"
      then show False
        using hnext_home_disp [OF a Suc.prems(1)] disp_less [OF a i(1)] less by simp
    qed
    then have next_disp: "disp ?n ?a (hnext ?n s) = disp ?n ?a s + 1"
      by (rule disp_hnext [OF a Suc.prems(1)])
    have "ipc_hash_table_lookup_loop fuel t (ie_object (t ! i)) ?n (hnext ?n s)
        (peg (min (disp ?n ?a s) IPC_ENTRY_DIST_MAX)) = Some (Some (entry_name t i, i))"
      unfolding peg_min next_disp [symmetric]
      by (rule Suc.IH) (use Suc.prems less next_disp hnext_less in auto)
    then show ?thesis
      using lookup_loop_step [OF Suc.prems(1) cont(1) _ cont(2)] j_less obj by (simp add: j_def)
  qed
qed simp

lemma lookup_loop_absent:
  assumes inv: "hash_inv t H" and absent: "\<forall>i\<in>H. ie_object (t ! i) \<noteq> obj"
    and e: "e < length t" "hslot t e = 0" and s: "s < length t"
    and fuel: "disp (length t) s e < fuel"
  shows "ipc_hash_table_lookup_loop fuel t obj (length t) s hdist = Some None"
  using s fuel
proof (induction fuel arbitrary: s hdist)
  case (Suc fuel)
  let ?n = "length t"
  show ?case
  proof (cases "hslot t s = 0")
    case True
    then show ?thesis using Suc.prems by (simp add: Let_def panic_simps hslot_def)
  next
    case False
    then have "hslot t s \<in> H" using rh_wf_idx [OF hash_inv_wf [OF inv] Suc.prems(1)] by simp
    then have *: "hslot t s < ?n" "ie_object (t ! hslot t s) \<noteq> obj"
      using hash_inv_bounds [OF inv] absent by auto
    have "s \<noteq> e" using False e by auto
    then have "ipc_hash_table_lookup_loop fuel t obj ?n (hnext ?n s) (peg hdist) = Some None"
      using Suc.prems disp_hnext_from [OF Suc.prems(1) e(1)] disp_eq_0_iff [OF Suc.prems(1) e(1)]
      by (intro Suc.IH hnext_less) auto
    then show ?thesis
      using lookup_loop_step [OF Suc.prems(1) False *(1) _ *(2), of hdist fuel] Suc.prems(1) False
      by (cases "hdist \<le> hdst t s") (simp_all add: Let_def panic_simps hslot_def hdst_def)
  qed
qed simp

lemma hhome_object: "i < length t \<Longrightarrow> hhome t i = IH_TABLE_HASH (ie_object (t ! i)) (length t)"
  by (simp add: hhome_def)

lemma ipc_hash_table_lookup_found:
  assumes sz: "table_sized t" and inv: "hash_inv t H" and i: "i \<in> H"
  shows "ipc_hash_table_lookup t (ie_object (t ! i)) = Some (Some (entry_name t i, i))"
proof -
  let ?n = "length t"
  note wf = hash_inv_wf [OF inv]
  obtain h where h: "h < ?n" "hslot t h = i" "i \<noteq> 0" using rh_wf_slot [OF wf i] .
  have il: "i < ?n" using hash_inv_bounds [OF inv i] by simp
  have obj: "ie_object (t ! i) \<noteq> IO_NULL" using inv i by (simp add: hash_inv_def)
  have a: "hhome t i < ?n" by (rule rh_wf_home [OF wf])
  have "ipc_hash_table_lookup_loop ?n t (ie_object (t ! i)) ?n (hhome t i)
      (min (disp ?n (hhome t i) (hhome t i)) IPC_ENTRY_DIST_MAX) = Some (Some (entry_name t i, i))"
    by (rule lookup_loop_found [OF inv h a]) (simp_all add: disp_less [OF a h(1)])
  then show ?thesis
    using table_sized_head [OF sz] obj hhome_object [OF il]
    by (simp add: ipc_hash_table_lookup_def Let_def)
qed

lemma ipc_hash_table_lookup_absent:
  assumes sz: "table_sized t" and inv: "hash_inv t H" and absent: "\<forall>i\<in>H. ie_object (t ! i) \<noteq> obj"
  shows "ipc_hash_table_lookup t obj = Some None"
proof -
  let ?n = "length t"
  note n = table_sized_head(3) [OF sz]
  obtain e where e: "e < ?n" "hslot t e = 0" using rh_wf_empty_slot [OF hash_inv_wf [OF inv]] .
  note a = IH_TABLE_HASH_less [OF n, of obj]
  have "ipc_hash_table_lookup_loop ?n t obj ?n (IH_TABLE_HASH obj ?n) 0 = Some None"
    by (rule lookup_loop_absent [OF inv absent e a disp_less [OF a e(1)]])
  then show ?thesis
    using table_sized_head [OF sz] by (simp add: ipc_hash_table_lookup_def Let_def)
qed


section \<open>Insertion\<close>

lemma insert_loop_pass:
  assumes "s < length t" "hslot t s \<noteq> 0" "hdist \<le> hdst t s"
  shows "ipc_hash_table_insert_loop (Suc fuel) t n s hdist c =
    ipc_hash_table_insert_loop fuel t n (hnext n s) (peg hdist) c"
  using assms by (auto simp: panic_simps hslot_def hdst_def)

lemma insert_loop_swap:
  assumes "s < length t" "hslot t s \<noteq> 0" "hdst t s < hdist"
  shows "ipc_hash_table_insert_loop (Suc fuel) t n s hdist c =
    ipc_hash_table_insert_loop fuel
      (t[s := (t ! s)\<lparr>ie_dist := word_of_nat hdist, ie_index := word_of_nat c\<rparr>])
      n (hnext n s) (peg (hdst t s)) (hslot t s)"
  using assms by (auto simp: panic_simps hslot_def hdst_def)

lemma insert_loop_spec:
  assumes "rh_wf (length t) IPC_ENTRY_DIST_MAX (hhome t) (hslot t) (hdst t) H"
    and "c \<noteq> 0" "c \<notin> H" "c < 2 ^ 32" "card H + 1 < length t"
    and "rh_path (length t) IPC_ENTRY_DIST_MAX (hslot t) (hdst t) (hhome t c) s" "s < length t"
    and "e < length t" "hslot t e = 0" "disp (length t) s e < fuel"
  shows "\<exists>t'. ipc_hash_table_insert_loop fuel t (length t) s
        (min (disp (length t) (hhome t c) s) IPC_ENTRY_DIST_MAX) c = Some t' \<and> same_caps t t' \<and>
      rh_wf (length t) IPC_ENTRY_DIST_MAX (hhome t) (hslot t') (hdst t') (insert c H)"
  using assms
proof (induction fuel arbitrary: t H c s)
  case (Suc fuel)
  let ?n = "length t" and ?M = IPC_ENTRY_DIST_MAX
  let ?d = "min (disp ?n (hhome t c) s) ?M"
  note wf = Suc.prems(1) and c = Suc.prems(2-5) and path = Suc.prems(6) and s = Suc.prems(7)
    and e = Suc.prems(8,9)
  show ?case
  proof (cases "hslot t s = 0")
    case True
    let ?t' = "t[s := (t ! s)\<lparr>ie_index := word_of_nat c, ie_dist := word_of_nat ?d\<rparr>]"
    have "ipc_hash_table_insert_loop (Suc fuel) t ?n s ?d c = Some ?t'"
      using True s by (simp add: panic_simps hslot_def word_unat_eq_iff)
    moreover have "rh_wf ?n ?M (hhome t) (hslot ?t') (hdst ?t') (insert c H)"
      using rh_place [OF wf s True c(1,2,4) path] hash_fields_upd [OF s c(3), of ?d] by simp
    ultimately show ?thesis using same_caps_upd(1) [OF s] by blast
  next
    case False
    then have ne: "s \<noteq> e" and occ: "ie_index (t ! s) \<noteq> 0" using e by (auto simp: hslot_def)
    have fuel: "disp ?n (hnext ?n s) e < fuel"
      using Suc.prems(10) disp_hnext_from [OF s e(1)] disp_eq_0_iff [OF s e(1)] ne by auto
    show ?thesis
    proof (cases "hdst t s < ?d")
      case True
      let ?e = "(t ! s)\<lparr>ie_dist := word_of_nat ?d, ie_index := word_of_nat c\<rparr>"
      let ?t = "t[s := ?e]" and ?c = "hslot t s"
      have caps: "same_caps t ?t" using same_caps_upd(2) [OF s] .
      have n: "length ?t = ?n" and home: "hhome ?t = hhome t"
        using same_caps_hhome [OF caps] by simp_all
      have fields: "hslot ?t = (hslot t)(s := c)" "hdst ?t = (hdst t)(s := ?d)"
        using hash_fields_upd [OF s c(3), of ?d ?e] by simp_all
      note swap = rh_swap [OF wf s False c(1,2) path True, folded fields]
      have cH: "?c \<in> H" by (rule rh_wf_idx [OF wf s False])
      have dst: "hdst t s = min (disp ?n (hhome t ?c) s) ?M" by (rule rh_wf_dst(1) [OF wf s False])
      have fin: "finite H" using wf by (simp add: rh_wf_def)
      have "card H > 0" using cH fin by (auto simp: card_gt_0_iff)
      then have card: "card (insert c (H - {?c})) = card H"
        using c(2) cH fin by simp
      have occ': "hslot ?t s \<noteq> 0" "min (disp ?n (hhome t ?c) s) ?M \<le> hdst ?t s"
        using c(1) True dst by (simp_all add: fields)
      have adv: "rh_path ?n ?M (hslot ?t) (hdst ?t) (hhome t ?c) (hnext ?n s)"
        "hnext ?n s \<noteq> hhome t ?c"
        using rh_advance [OF swap(1) s occ'(1) swap(2) occ'(2)] by blast+
      have "\<exists>t'. ipc_hash_table_insert_loop fuel ?t ?n (hnext ?n s)
          (min (disp ?n (hhome t ?c) (hnext ?n s)) ?M) ?c = Some t' \<and> same_caps ?t t' \<and>
          rh_wf ?n ?M (hhome t) (hslot t') (hdst t') (insert ?c (insert c (H - {?c})))"
      proof (rule Suc.IH [of ?t, unfolded n home])
        show "?c \<notin> insert c (H - {?c})" using c(2) cH by auto
        show "?c < 2 ^ 32" using unat_lt2p [of "ie_index (t ! s)"] by (simp add: hslot_def)
        show "card (insert c (H - {?c})) + 1 < ?n" using card c(4) by simp
        show "hslot ?t e = 0" using ne e by (simp add: fields)
      qed (fact swap(1) False adv(1) hnext_less [OF s] e(1) fuel)+
      moreover have "insert ?c (insert c (H - {?c})) = insert c H" using cH by auto
      moreover have "min (disp ?n (hhome t ?c) (hnext ?n s)) ?M = peg (hdst t s)"
        unfolding dst peg_min disp_hnext [OF rh_wf_home [OF wf] s adv(2)] ..
      ultimately show ?thesis
        using insert_loop_swap [OF s False True] same_caps_trans [OF caps] by auto
    next
      case ge: False
      then have ge': "?d \<le> hdst t s" by linarith
      note adv = rh_advance [OF wf s False path ge']
      have "\<exists>t'. ipc_hash_table_insert_loop fuel t ?n (hnext ?n s)
          (min (disp ?n (hhome t c) (hnext ?n s)) ?M) c = Some t' \<and> same_caps t t' \<and>
          rh_wf ?n ?M (hhome t) (hslot t') (hdst t') (insert c H)"
        by (rule Suc.IH [OF wf c adv(1) hnext_less [OF s] e fuel])
      moreover have "min (disp ?n (hhome t c) (hnext ?n s)) ?M = peg ?d"
        unfolding peg_min disp_hnext [OF rh_wf_home [OF wf] s adv(2)] ..
      ultimately show ?thesis using insert_loop_pass [OF s False ge'] by simp
    qed
  qed
qed simp

lemma ipc_hash_table_insert_spec:
  assumes sz: "table_sized t" and inv: "hash_inv t H" and i: "0 < i" "i < length t" "i \<notin> H"
    and obj: "ie_object (t ! i) \<noteq> IO_NULL" "\<forall>j\<in>H. ie_object (t ! j) \<noteq> ie_object (t ! i)"
  obtains t' where "ipc_hash_table_insert t (ie_object (t ! i)) i i = Some t'"
    "same_caps t t'" "hash_inv t' (insert i H)"
proof -
  let ?n = "length t" and ?M = IPC_ENTRY_DIST_MAX
  note wf = hash_inv_wf [OF inv] and head = table_sized_head [OF sz]
  have a: "hhome t i < ?n" by (rule rh_wf_home [OF wf])
  have H: "H \<subseteq> {1..<?n}" using inv by (simp add: hash_inv_def)
  then have "insert i H \<subseteq> {1..<?n}" using i by auto
  then have "card (insert i H) \<le> card {1..<?n}" by (intro card_mono) auto
  then have card: "card H + 1 < ?n"
    using i(3) head(4) finite_subset [OF H] by simp
  obtain e where e: "e < ?n" "hslot t e = 0" using rh_wf_empty_slot [OF wf] .
  have "\<exists>t'. ipc_hash_table_insert_loop ?n t ?n (hhome t i)
        (min (disp ?n (hhome t i) (hhome t i)) ?M) i = Some t' \<and> same_caps t t' \<and>
      rh_wf ?n ?M (hhome t) (hslot t') (hdst t') (insert i H)"
    using i table_sized_bounds [OF sz]
    by (intro insert_loop_spec [OF wf _ i(3) _ card _ a e disp_less [OF a e(1)]])
      (auto simp: rh_path_def)
  then obtain t' where t': "ipc_hash_table_insert_loop ?n t ?n (hhome t i) 0 i = Some t'"
    "same_caps t t'" "rh_wf ?n ?M (hhome t) (hslot t') (hdst t') (insert i H)" by auto
  have "ipc_hash_table_insert t (ie_object (t ! i)) i i = Some t'"
    using t'(1) head i obj hhome_object [OF i(2)]
    by (simp add: ipc_hash_table_insert_def Let_def panic_simps)
  moreover have "hash_inv t' (insert i H)"
  proof (rule hash_invI [OF t'(2) _ _ _ t'(3)])
    show "inj_on (\<lambda>i. ie_object (t ! i)) (insert i H)"
      using inv obj by (auto simp: hash_inv_def)
  qed (use inv i obj in \<open>auto simp: hash_inv_def\<close>)
  ultimately show thesis using t'(2) that by blast
qed


section \<open>Deletion\<close>

lemma delete_find_spec:
  assumes wf: "rh_wf (length t) M home (hslot t) dst H" and h: "h < length t" "hslot t h = i" "i \<noteq> 0"
    and s: "s < length t" and fuel: "disp (length t) s h < fuel"
  shows "ipc_hash_table_delete_find fuel t (length t) s i = Some h"
  using s fuel
proof (induction fuel arbitrary: s)
  case (Suc fuel)
  show ?case
  proof (cases "s = h")
    case True
    then show ?thesis using h by (simp add: panic_simps hslot_def)
  next
    case False
    have "hslot t s \<noteq> i"
    proof
      assume "hslot t s = i"
      then have "h = s" using h by (intro rh_wf_inj [OF wf h(1) Suc.prems(1)]) simp_all
      then show False using False by simp
    qed
    moreover have "ipc_hash_table_delete_find fuel t (length t) (hnext (length t) s) i = Some h"
      using Suc.prems disp_hnext_from [OF Suc.prems(1) h(1)] disp_eq_0_iff [OF Suc.prems(1) h(1)] False
      by (intro Suc.IH hnext_less) auto
    ultimately show ?thesis using Suc.prems(1) by (simp add: panic_simps hslot_def)
  qed
qed simp

lemma delete_shift_step:
  assumes "h < length t" "hnext n h < length t" "hslot t (hnext n h) \<noteq> 0" "hdst t (hnext n h) \<noteq> 0"
    "hslot t (hnext n h) < length t"
    "min (disp n (IH_TABLE_HASH (ie_object (t ! hslot t (hnext n h))) n) h) IPC_ENTRY_DIST_MAX =
       hdst t (hnext n h) - 1"
  shows "ipc_hash_table_delete_shift (Suc fuel) t n h =
    ipc_hash_table_delete_shift fuel
      (t[h := (t ! h)\<lparr>ie_index := word_of_nat (hslot t (hnext n h)),
                       ie_dist := word_of_nat (hdst t (hnext n h) - 1)\<rparr>]) n (hnext n h)"
  using assms
  by (simp only: ipc_hash_table_delete_shift.simps Let_def nth_opt_in hslot_def [symmetric]
      hdst_def [symmetric] Option.bind.simps if_cancel simp_thms if_False)

lemma delete_shift_spec:
  assumes "rh_hole (length t) IPC_ENTRY_DIST_MAX (hhome t) (hslot t) (hdst t) H h" "1 < length t"
    and "H \<subseteq> {1..<length t}"
    and "e < length t" "hslot t e = 0" "e \<noteq> h" "disp (length t) h e \<le> fuel"
  shows "\<exists>t'. ipc_hash_table_delete_shift fuel t (length t) h = Some t' \<and> same_caps t t' \<and>
      rh_wf (length t) IPC_ENTRY_DIST_MAX (hhome t) (hslot t') (hdst t') H \<and>
      rh_exact (length t) IPC_ENTRY_DIST_MAX (hhome t) (hslot t')"
  using assms
proof (induction fuel arbitrary: t h)
  case 0
  then show ?case using disp_eq_0_iff [of h "length t" e] by (auto simp: rh_hole_def)
next
  case (Suc fuel)
  let ?n = "length t" and ?M = IPC_ENTRY_DIST_MAX
  let ?d = "hnext ?n h"
  note hole = Suc.prems(1) and n = Suc.prems(2) and HH = Suc.prems(3) and e = Suc.prems(4-6)
  have h: "h < ?n" using hole by (simp add: rh_hole_def)
  have d: "?d < ?n" "?d \<noteq> h" using hnext_less [OF h] n by (auto simp: hnext_def)
  show ?case
  proof (cases "hslot t ?d = 0 \<or> hdst t ?d = 0")
    case True
    let ?e = "(t ! h)\<lparr>ie_index := 0, ie_dist := 0\<rparr>"
    have "ipc_hash_table_delete_shift (Suc fuel) t ?n h = Some (t[h := ?e])"
      using True h d by (auto simp: Let_def panic_simps hslot_def hdst_def)
    moreover have "hslot (t[h := ?e]) = (hslot t)(h := 0)" "hdst (t[h := ?e]) = (hdst t)(h := 0)"
      using hash_fields_upd [OF h, of 0 0 ?e] by simp_all
    ultimately show ?thesis
      using rh_close [OF hole n True] same_caps_upd(1) [OF h, of 0 0] by auto
  next
    case False
    then have go: "hslot t ?d \<noteq> 0" "hdst t ?d \<noteq> 0" by auto
    define i where "i = hslot t ?d"
    note shift = rh_shift [OF hole n go]
    have "i \<in> H" using hole d go unfolding rh_hole_def bij_betw_def i_def by auto
    then have il: "i < ?n" using HH by auto
    let ?e = "(t ! h)\<lparr>ie_index := word_of_nat i, ie_dist := word_of_nat (hdst t ?d - 1)\<rparr>"
    let ?t = "t[h := ?e]"
    have fields: "hslot ?t = (hslot t)(h := i)" "hdst ?t = (hdst t)(h := hdst t ?d - 1)"
      using hash_fields_upd [OF h, of i "hdst t ?d - 1" ?e] shift(3) unat_lt2p [of "ie_index (t ! ?d)"]
      by (simp_all add: i_def hslot_def)
    have caps: "same_caps t ?t" using same_caps_upd(1) [OF h] .
    then have home: "hhome ?t = hhome t" and len: "length ?t = ?n"
      using same_caps_hhome by simp_all
    have "e \<noteq> ?d" using go e by auto
    then have "disp ?n ?d e \<le> fuel" using Suc.prems(7) disp_hnext_from [OF h e(1,3)] by simp
    moreover have "hslot ?t e = 0" unfolding fields using e by simp
    moreover have "rh_hole ?n ?M (hhome t) (hslot ?t) (hdst ?t) H ?d"
      unfolding fields using shift(1) by (simp only: i_def)
    ultimately have "\<exists>t'. ipc_hash_table_delete_shift fuel ?t ?n ?d = Some t' \<and> same_caps ?t t' \<and>
      rh_wf ?n ?M (hhome t) (hslot t') (hdst t') H \<and> rh_exact ?n ?M (hhome t) (hslot t')"
      using Suc.IH [of ?t ?d] n HH e \<open>e \<noteq> ?d\<close> unfolding len home by blast
    moreover have "ipc_hash_table_delete_shift (Suc fuel) t ?n h = ipc_hash_table_delete_shift fuel ?t ?n ?d"
      unfolding i_def
      by (rule delete_shift_step [OF h d(1) go])
        (use shift(2,3) hhome_object [OF il] il in \<open>simp_all add: i_def\<close>)
    ultimately show ?thesis using same_caps_trans [OF caps] by auto
  qed
qed

lemma ipc_hash_table_delete_spec:
  assumes sz: "table_sized t" and inv: "hash_inv t H" and ex: "hash_exact t" and i: "i \<in> H"
  obtains t' where "ipc_hash_table_delete t (ie_object (t ! i)) i i = Some t'"
    "same_caps t t'" "hash_inv t' (H - {i})" "hash_exact t'"
proof -
  let ?n = "length t" and ?M = IPC_ENTRY_DIST_MAX
  note wf = hash_inv_wf [OF inv] and head = table_sized_head [OF sz]
  obtain h where h: "h < ?n" "hslot t h = i" "i \<noteq> 0" using rh_wf_slot [OF wf i] .
  have il: "i < ?n" using hash_inv_bounds [OF inv i] by simp
  have a: "hhome t i < ?n" by (rule rh_wf_home [OF wf])
  have H: "H - {i} \<subseteq> {1..<?n}" using inv by (auto simp: hash_inv_def)
  obtain e where e: "e < ?n" "hslot t e = 0" using rh_wf_empty_slot [OF wf] .
  have "e \<noteq> h" using e h by auto
  have "rh_exact ?n ?M (hhome t) (hslot t)" using ex by (simp add: hash_exact_def)
  then have "rh_hole ?n ?M (hhome t) (hslot t) (hdst t) (H - {i}) h"
    using rh_open_hole [OF wf _ h(1)] h by simp
  from delete_shift_spec [OF this head(4) H e \<open>e \<noteq> h\<close>, of ?n] disp_less [OF h(1) e(1)]
  obtain t' where t': "ipc_hash_table_delete_shift ?n t ?n h = Some t'" "same_caps t t'"
      "rh_wf ?n ?M (hhome t) (hslot t') (hdst t') (H - {i})" "rh_exact ?n ?M (hhome t) (hslot t')"
    by auto
  have "ipc_hash_table_delete_find ?n t ?n (hhome t i) i = Some h"
    by (rule delete_find_spec [OF wf h a disp_less [OF a h(1)]])
  then have "ipc_hash_table_delete t (ie_object (t ! i)) i i = Some t'"
    using t'(1) head h(3) il inv i hhome_object [OF il]
    by (simp add: ipc_hash_table_delete_def Let_def panic_simps hash_inv_def)
  moreover have "hash_inv t' (H - {i})"
    by (rule hash_invI [OF t'(2) H _ _ t'(3)])
      (use inv in \<open>auto simp: hash_inv_def intro: inj_on_diff\<close>)
  moreover have "hash_exact t'"
    using t'(2,4) same_caps_hhome [OF t'(2)] same_caps_length [OF t'(2)] by (simp add: hash_exact_def)
  ultimately show thesis using t'(2) that by blast
qed

text \<open>With at most 4096 hashed entries no displacement reaches the cut-off.\<close>

lemma hash_exact_small:
  assumes "hash_inv t H" "card H \<le> IPC_ENTRY_DIST_MAX + 1"
  shows "hash_exact t"
  unfolding hash_exact_def by (rule rh_exact_card [OF hash_inv_wf [OF assms(1)] assms(2)])

end
