(* ===== verification/Os_Refcnt.thy ===== *)
theory Os_Refcnt
imports Ipc_Prelude
begin

text \<open>
  Reference counters: \<^verbatim>\<open>libkern/os/refcnt.c\<close> and \<^verbatim>\<open>refcnt_internal.h\<close>.  A counter is a
  32-bit word; the masked variants keep \<open>b\<close> flag bits below the count.  Taking a reference on a
  dead object, overflow and underflow panic.
\<close>

definition OS_REFCNT_MAX_COUNT :: "32 word" where
  "OS_REFCNT_MAX_COUNT = 0x0FFFFFFF"

definition os_ref_check_underflow :: "32 word \<Rightarrow> 32 word \<Rightarrow> unit option" where
  "os_ref_check_underflow count n = kassert (\<not> count < n)"

definition os_ref_check_overflow :: "32 word \<Rightarrow> unit option" where
  "os_ref_check_overflow count = kassert (\<not> count \<ge> OS_REFCNT_MAX_COUNT)"

definition os_ref_check_retain :: "32 word \<Rightarrow> 32 word \<Rightarrow> unit option" where
  "os_ref_check_retain count n = do { kassert (\<not> count < n); os_ref_check_overflow count }"

text \<open>A retain yields the new counter; a release yields the new counter too.\<close>

definition os_ref_retain :: "32 word \<Rightarrow> 32 word option" where
  "os_ref_retain rc = do { os_ref_check_retain rc 1; Some (rc + 1) }"

definition os_ref_release_n :: "32 word \<Rightarrow> 32 word \<Rightarrow> 32 word option" where
  "os_ref_release_n rc n = do { os_ref_check_underflow rc n; Some (rc - n) }"

definition os_ref_release :: "32 word \<Rightarrow> 32 word option" where
  "os_ref_release rc = os_ref_release_n rc 1"

definition os_ref_init_count_mask :: "nat \<Rightarrow> 32 word \<Rightarrow> 32 word \<Rightarrow> 32 word option" where
  "os_ref_init_count_mask b init_count init_bits = do {
     kassert (init_bits < push_bit b 1);
     os_ref_check_underflow (push_bit b init_count) (push_bit b 1);
     Some (push_bit b init_count OR init_bits)
   }"

definition os_ref_retain_mask :: "32 word \<Rightarrow> nat \<Rightarrow> 32 word option" where
  "os_ref_retain_mask rc b = do { os_ref_check_retain rc (push_bit b 1); Some (rc + push_bit b 1) }"

definition os_ref_get_count_mask :: "32 word \<Rightarrow> nat \<Rightarrow> 32 word" where
  "os_ref_get_count_mask rc b = drop_bit b rc"

definition os_ref_release_mask :: "32 word \<Rightarrow> nat \<Rightarrow> (32 word \<times> 32 word) option" where
  "os_ref_release_mask rc b = do {
     rc \<leftarrow> os_ref_release_n rc (push_bit b 1);
     Some (rc, drop_bit b rc)
   }"

text \<open>The counter seen as a number.\<close>

lemma os_ref_retain_unat:
  assumes "0 < unat rc" "unat rc < 0x0FFFFFFF"
  shows "\<exists>rc'. os_ref_retain rc = Some rc' \<and> unat rc' = unat rc + 1"
proof -
  have "unat (rc + 1) = unat rc + 1"
    using assms(2) by (simp add: unat_word_ariths)
  moreover have "\<not> rc < 1" "rc < 0x0FFFFFFF"
    using assms by (simp_all add: word_less_nat_alt)
  ultimately show ?thesis
    by (simp add: os_ref_retain_def os_ref_check_retain_def os_ref_check_overflow_def
        OS_REFCNT_MAX_COUNT_def panic_simps)
qed

lemma os_ref_release_unat:
  assumes "0 < unat rc"
  shows "\<exists>rc'. os_ref_release rc = Some rc' \<and> unat rc' = unat rc - 1"
proof -
  have "1 \<le> rc" using assms by (simp add: word_le_nat_alt)
  then have "unat (rc - 1) = unat rc - 1" by (simp add: unat_sub)
  moreover have "rc \<noteq> 0" using assms by auto
  ultimately show ?thesis using \<open>1 \<le> rc\<close>
    by (simp add: os_ref_release_def os_ref_release_n_def os_ref_check_underflow_def panic_simps)
qed

end
