(* ===== verification/Ipc_Space.thy ===== *)
theory Ipc_Space
imports Ipc_Table Ipc_Hash Os_Refcnt
begin

text \<open>
  The IPC space: the record of \<^verbatim>\<open>osfmk/ipc/ipc_space.h\<close> and the operations of
  \<^verbatim>\<open>osfmk/ipc/ipc_space.c\<close> that do not destroy rights, with the boolean generator of
  \<^verbatim>\<open>osfmk/prng/prng_random.c\<close> that randomises the free list.  The generator is modelled exactly;
  its seed is arbitrary.  \<open>is_table\<close> is \<open>None\<close> once the space is dead, \<open>is_table_next\<close> is an
  index into \<open>ipc_table_entries\<close>, the low six bits of \<open>is_bits\<close> are flags and the rest is the
  reference count.  \<open>is_ast\<close> records that the resource-notification AST was posted to the current
  thread (\<^verbatim>\<open>act_set_astproc_resource\<close>).  Locks are not represented: each operation is the
  critical section it runs.
\<close>

type_synonym ipc_label_t = "64 word"

record bool_gen =
  bg_seed0 :: "32 word"
  bg_seed1 :: "32 word"
  bg_seed2 :: "32 word"
  bg_seed3 :: "32 word"
  bg_state :: "32 word"

record ipc_space =
  is_bits :: "32 word"
  is_table_hashed :: ipc_entry_num_t
  is_table_free :: ipc_entry_num_t
  is_table :: "ipc_entry list option"
  is_table_next :: nat
  is_grower :: bool
  is_label :: ipc_label_t
  is_low_mod :: ipc_entry_num_t
  is_high_mod :: ipc_entry_num_t
  is_bool_gen :: bool_gen
  is_entropy :: "32 word list"
  is_table_size_soft_limit :: ipc_entry_num_t
  is_table_size_hard_limit :: ipc_entry_num_t
  is_ast :: bool

definition IS_ENTROPY_CNT :: nat where
  "IS_ENTROPY_CNT = 1"

definition IS_FLAGS_BITS :: nat where
  "IS_FLAGS_BITS = 6"

definition IS_ABOVE_SOFT_LIMIT_NOTIFY :: "32 word" where
  "IS_ABOVE_SOFT_LIMIT_NOTIFY = 0x01"

definition IS_ABOVE_HARD_LIMIT_NOTIFY :: "32 word" where
  "IS_ABOVE_HARD_LIMIT_NOTIFY = 0x02"

definition IS_SOFT_LIMIT_NOTIFIED :: "32 word" where
  "IS_SOFT_LIMIT_NOTIFIED = 0x04"

definition IS_HARD_LIMIT_NOTIFIED :: "32 word" where
  "IS_HARD_LIMIT_NOTIFIED = 0x08"

definition IS_AT_MAX_LIMIT_NOTIFY :: "32 word" where
  "IS_AT_MAX_LIMIT_NOTIFY = 0x10"

definition IS_AT_MAX_LIMIT_NOTIFIED :: "32 word" where
  "IS_AT_MAX_LIMIT_NOTIFIED = 0x20"

definition IPC_LABEL_SPECIAL :: ipc_label_t where
  "IPC_LABEL_SPECIAL = 0x0003"


section \<open>The boolean generator\<close>

definition random_bool_gen_step :: "bool_gen \<Rightarrow> bool_gen \<times> 32 word" where
  "random_bool_gen_step bg =
     (let s1 = bg_seed1 bg;
          s1 = s1 XOR push_bit 5 s1;
          s1 = s1 XOR drop_bit 7 s1;
          s1 = s1 XOR push_bit 22 s1;
          t = bg_seed2 bg + bg_seed3 bg + bg_state bg;
          s3 = t AND 2147483647;
          s0 = bg_seed0 bg + 1411392427
      in (bg\<lparr>bg_seed0 := s0, bg_seed1 := s1, bg_seed2 := bg_seed3 bg, bg_seed3 := s3,
             bg_state := (if sint t < 0 then 1 else 0)\<rparr>,
          s0 + s1 + s3))"

fun random_bool_gen_entropy :: "bool_gen \<Rightarrow> nat \<Rightarrow> bool_gen \<times> 32 word list" where
  "random_bool_gen_entropy bg 0 = (bg, [])"
| "random_bool_gen_entropy bg (Suc count) =
     (let (bg, w) = random_bool_gen_step bg;
          (bg, ws) = random_bool_gen_entropy bg count
      in (bg, w # ws))"

text \<open>The first word of the pool, from \<open>index\<close> on, that is not used up.\<close>

fun random_bool_skip :: "32 word list \<Rightarrow> nat \<Rightarrow> nat" where
  "random_bool_skip [] index = index"
| "random_bool_skip (w # ws) index = (if w = 0 then random_bool_skip ws (Suc index) else index)"

fun random_bool_gen_bits ::
    "bool_gen \<Rightarrow> 32 word list \<Rightarrow> nat \<Rightarrow> 32 word \<Rightarrow> nat \<Rightarrow> bool_gen \<times> 32 word list \<times> 32 word" where
  "random_bool_gen_bits bg buffer index rbits 0 = (bg, buffer, rbits)"
| "random_bool_gen_bits bg buffer index rbits (Suc numbits) =
     (let index = random_bool_skip (drop index buffer) index;
          (bg, buffer, index) =
            (if index = length buffer
             then let (bg, buffer) = random_bool_gen_entropy bg (length buffer) in (bg, buffer, 0)
             else (bg, buffer, index));
          w = buffer ! index
      in random_bool_gen_bits bg (buffer[index := drop_bit 1 w]) index ((w AND 1) OR push_bit 1 rbits) numbits)"

definition ipc_space_random :: "ipc_space \<Rightarrow> nat \<Rightarrow> ipc_space \<times> 32 word" where
  "ipc_space_random space numbits =
     (let (bg, buffer, rbits) = random_bool_gen_bits (is_bool_gen space) (is_entropy space) 0 0 numbits
      in (space\<lparr>is_bool_gen := bg, is_entropy := buffer\<rparr>, rbits))"

definition ipc_space_get_rollpoint :: "ipc_space \<Rightarrow> ipc_space \<times> ipc_entry_bits_t" where
  "ipc_space_get_rollpoint space = ipc_space_random space 2"


section \<open>Flags and references\<close>

definition is_bits_set :: "ipc_space \<Rightarrow> 32 word \<Rightarrow> ipc_space \<times> bool" where
  "is_bits_set space b = (space\<lparr>is_bits := is_bits space OR b\<rparr>, is_bits space AND b = 0)"

definition is_bits_clear :: "ipc_space \<Rightarrow> 32 word \<Rightarrow> ipc_space \<times> bool" where
  "is_bits_clear space b = (space\<lparr>is_bits := is_bits space AND NOT b\<rparr>, is_bits space AND b \<noteq> 0)"

definition is_bits_test :: "ipc_space \<Rightarrow> 32 word \<Rightarrow> bool" where
  "is_bits_test space b \<longleftrightarrow> is_bits space AND b \<noteq> 0"

definition is_active :: "ipc_space \<Rightarrow> bool" where
  "is_active space \<longleftrightarrow> is_table space \<noteq> None"

definition is_active_table :: "ipc_space \<Rightarrow> ipc_entry list option" where
  "is_active_table space = is_table space"

definition is_growing :: "ipc_space \<Rightarrow> bool" where
  "is_growing space \<longleftrightarrow> is_grower space"

definition ipc_space_reference :: "ipc_space \<Rightarrow> ipc_space option" where
  "ipc_space_reference space = do {
     b \<leftarrow> os_ref_retain_mask (is_bits space) IS_FLAGS_BITS;
     Some (space\<lparr>is_bits := b\<rparr>)
   }"

text \<open>The result is the space, or nothing when the last reference went and it was freed.\<close>

definition ipc_space_release :: "ipc_space \<Rightarrow> ipc_space option option" where
  "ipc_space_release space = do {
     (b, count) \<leftarrow> os_ref_release_mask (is_bits space) IS_FLAGS_BITS;
     if count = 0
     then do { kassert (\<not> is_active space); Some None }
     else Some (Some (space\<lparr>is_bits := b\<rparr>))
   }"


section \<open>The free list\<close>

text \<open>
  The loop of \<open>ipc_space_rand_freelist\<close>; \<open>n = hi + 1 - lo\<close> entries are still to be linked.
  Sequential order is forced for the first entries of a fresh table.
\<close>

definition NUM_SEQ_ENTRIES :: nat where
  "NUM_SEQ_ENTRIES = 8"

fun ipc_space_rand_freelist_loop ::
    "nat \<Rightarrow> ipc_space \<Rightarrow> ipc_entry list \<Rightarrow> bool \<Rightarrow> nat \<Rightarrow> nat \<Rightarrow> nat \<Rightarrow> nat \<Rightarrow>
     ipc_space \<times> ipc_entry list \<times> nat" where
  "ipc_space_rand_freelist_loop 0 space table at_start total_seq cur lo hi = (space, table, cur)"
| "ipc_space_rand_freelist_loop (Suc n) space table at_start total_seq cur lo hi =
     (let (space, which, total_seq) =
            (if at_start \<and> total_seq < NUM_SEQ_ENTRIES then (space, 0, total_seq + 1)
             else let (space, w) = ipc_space_random space 1
                  in (space, w, if at_start then total_seq + 1 else total_seq));
          (next, lo, hi) =
            (if which \<noteq> 0 then (hi, lo, hi - 1) else (lo, lo + 1, hi));
          table = table[cur := (table ! cur)\<lparr>ie_bits := IE_BITS_GEN_MASK, ie_request := word_of_nat next\<rparr>]
      in ipc_space_rand_freelist_loop n space table at_start total_seq next lo hi)"

definition ipc_space_rand_freelist ::
    "ipc_space \<Rightarrow> ipc_entry list \<Rightarrow> nat \<Rightarrow> nat \<Rightarrow> ipc_space \<times> ipc_entry list" where
  "ipc_space_rand_freelist space table lo sz =
     (let (space, table, cur) =
            ipc_space_rand_freelist_loop (sz - 1 - lo) space table (lo = 0) 0
              lo (lo + 1) (sz - 1);
          table = table[cur := (table ! cur)\<lparr>ie_bits := IE_BITS_GEN_MASK\<rparr>];
          table = table[0 := (table ! 0)\<lparr>ie_bits := word_of_nat sz\<rparr>]
      in (space, table))"

definition ipc_entry_zero :: ipc_entry where
  "ipc_entry_zero = \<lparr>ie_object = 0, ie_bits = 0, ie_dist = 0, ie_index = 0, ie_request = 0\<rparr>"

text \<open>\<open>it_entries_alloc\<close>: \<open>mem\<close> says whether the allocator has memory for a table of that size.\<close>

definition it_entries_alloc :: "(nat \<Rightarrow> bool) \<Rightarrow> nat \<Rightarrow> ipc_entry list option" where
  "it_entries_alloc mem its =
     (if mem (ipc_table_entries ! its) then Some (replicate (ipc_table_entries ! its) ipc_entry_zero) else None)"


section \<open>Creation, labels and limits\<close>

definition ipc_space_alloc :: ipc_space where
  "ipc_space_alloc =
     \<lparr>is_bits = 0, is_table_hashed = 0, is_table_free = 0, is_table = None, is_table_next = 0,
      is_grower = False, is_label = 0, is_low_mod = 0, is_high_mod = 0,
      is_bool_gen = \<lparr>bg_seed0 = 0, bg_seed1 = 0, bg_seed2 = 0, bg_seed3 = 0, bg_state = 0\<rparr>,
      is_entropy = replicate IS_ENTROPY_CNT 0,
      is_table_size_soft_limit = 0, is_table_size_hard_limit = 0, is_ast = False\<rparr>"

text \<open>\<open>random_bool_init\<close> seeds the generator with \<open>seed\<close>, four words from the kernel's random source.\<close>

definition random_bool_init :: "32 word \<times> 32 word \<times> 32 word \<times> 32 word \<Rightarrow> bool_gen" where
  "random_bool_init seed =
     (case seed of (a, b, c, d) \<Rightarrow> \<lparr>bg_seed0 = a, bg_seed1 = b, bg_seed2 = c, bg_seed3 = d, bg_state = 0\<rparr>)"

definition ipc_space_create ::
    "(nat \<Rightarrow> bool) \<Rightarrow> 32 word \<times> 32 word \<times> 32 word \<times> 32 word \<Rightarrow> nat \<Rightarrow> ipc_label_t \<Rightarrow>
     (ipc_space option \<times> kern_return_t) option" where
  "ipc_space_create mem seed initial label =
     (case it_entries_alloc mem initial of
        None \<Rightarrow> Some (None, KERN_RESOURCE_SHORTAGE)
      | Some table \<Rightarrow> do {
          let space = ipc_space_alloc;
          let new_size = ipc_table_entries ! initial;
          let space = space\<lparr>is_bool_gen := random_bool_init seed\<rparr>;
          let (space, table) = ipc_space_rand_freelist space table 0 new_size;
          b \<leftarrow> os_ref_init_count_mask IS_FLAGS_BITS 2 0;
          Some (Some (space\<lparr>is_bits := b,
                            is_table_free := word_of_nat (new_size - 1),
                            is_table_next := initial + 1,
                            is_label := label,
                            is_low_mod := word_of_nat new_size,
                            is_table := Some table\<rparr>), KERN_SUCCESS)
        })"

definition ipc_space_create_special :: "(ipc_space option \<times> kern_return_t) option" where
  "ipc_space_create_special = do {
     b \<leftarrow> os_ref_init_count_mask IS_FLAGS_BITS 1 0;
     Some (Some (ipc_space_alloc\<lparr>is_bits := b, is_label := IPC_LABEL_SPECIAL\<rparr>), KERN_SUCCESS)
   }"

definition ipc_space_label :: "ipc_space \<Rightarrow> ipc_label_t \<Rightarrow> ipc_space \<times> kern_return_t" where
  "ipc_space_label space label =
     (if \<not> is_active space then (space, KERN_SUCCESS)
      else if is_label space AND label \<noteq> is_label space then (space, KERN_INVALID_VALUE)
      else (space\<lparr>is_label := label\<rparr>, KERN_SUCCESS))"

definition ipc_space_add_label :: "ipc_space \<Rightarrow> ipc_label_t \<Rightarrow> ipc_space \<times> kern_return_t" where
  "ipc_space_add_label space label =
     (if \<not> is_active space then (space, KERN_SUCCESS)
      else (space\<lparr>is_label := is_label space OR label\<rparr>, KERN_SUCCESS))"

definition ipc_space_set_table_size_limits ::
    "ipc_space option \<Rightarrow> ipc_entry_num_t \<Rightarrow> ipc_entry_num_t \<Rightarrow> ipc_space option \<times> kern_return_t" where
  "ipc_space_set_table_size_limits sp soft_limit hard_limit =
     (case sp of
        None \<Rightarrow> (None, KERN_INVALID_TASK)
      | Some space \<Rightarrow>
          if \<not> is_active space then (Some space, KERN_INVALID_TASK)
          else let soft_limit = (if hard_limit \<noteq> 0 \<and> soft_limit \<ge> hard_limit then 0 else soft_limit)
               in (Some (space\<lparr>is_table_size_soft_limit := soft_limit,
                              is_table_size_hard_limit := hard_limit\<rparr>), KERN_SUCCESS))"

definition ipc_space_check_limit_exceeded :: "ipc_space \<Rightarrow> ipc_space option" where
  "ipc_space_check_limit_exceeded space = do {
     table \<leftarrow> is_active_table space;
     head \<leftarrow> nth_opt table 0;
     let used = ie_size head - is_table_free space;
     Some (if \<not> is_bits_test space IS_ABOVE_SOFT_LIMIT_NOTIFY \<and> is_table_size_soft_limit space \<noteq> 0 \<and>
              used > is_table_size_soft_limit space
           then (fst (is_bits_set space IS_ABOVE_SOFT_LIMIT_NOTIFY))\<lparr>is_ast := True\<rparr>
           else if \<not> is_bits_test space IS_ABOVE_HARD_LIMIT_NOTIFY \<and> is_table_size_hard_limit space \<noteq> 0 \<and>
              used > is_table_size_hard_limit space
           then (fst (is_bits_set space IS_ABOVE_HARD_LIMIT_NOTIFY))\<lparr>is_ast := True\<rparr>
           else space)
   }"

definition ipc_space_set_at_max_limit :: "ipc_space \<Rightarrow> ipc_space" where
  "ipc_space_set_at_max_limit space =
     (if \<not> is_bits_test space IS_AT_MAX_LIMIT_NOTIFY
      then (fst (is_bits_set space IS_AT_MAX_LIMIT_NOTIFY))\<lparr>is_ast := True\<rparr>
      else space)"

text \<open>
  The three out parameters start with the values the caller passed; the result is the space, the
  current size, the soft and the hard limit, and the return code.
\<close>

definition ipc_space_get_table_size_and_limits ::
    "ipc_space option \<Rightarrow> ipc_entry_num_t \<times> ipc_entry_num_t \<times> ipc_entry_num_t \<Rightarrow>
     (ipc_space option \<times> (ipc_entry_num_t \<times> ipc_entry_num_t \<times> ipc_entry_num_t) \<times> kern_return_t) option" where
  "ipc_space_get_table_size_and_limits sp out =
     (case sp of
        None \<Rightarrow> Some (None, out, KERN_INVALID_TASK)
      | Some space \<Rightarrow>
          if \<not> is_active space then Some (Some space, out, KERN_INVALID_TASK)
          else do {
            table \<leftarrow> is_active_table space;
            head \<leftarrow> nth_opt table 0;
            let current_size = ie_size head - is_table_free space;
            let (_, soft_limit, hard_limit) = out;
            Some (if is_bits_test space IS_AT_MAX_LIMIT_NOTIFY
              then if is_bits_test space IS_AT_MAX_LIMIT_NOTIFIED
                   then (Some space, (current_size, soft_limit, hard_limit), KERN_FAILURE)
                   else (Some (fst (is_bits_set space IS_AT_MAX_LIMIT_NOTIFIED)), (current_size, 0, 0), KERN_SUCCESS)
              else let soft_limit = is_table_size_soft_limit space;
                       hard_limit = is_table_size_hard_limit space
                   in if soft_limit = 0 \<and> hard_limit = 0
                      then (Some space, (current_size, soft_limit, hard_limit), KERN_INVALID_VALUE)
                      else if is_bits_test space IS_HARD_LIMIT_NOTIFIED
                      then (Some space, (current_size, soft_limit, hard_limit), KERN_FAILURE)
                      else if hard_limit > 0 \<and> current_size \<ge> hard_limit
                      then (Some (fst (is_bits_set space IS_HARD_LIMIT_NOTIFIED)), (current_size, 0, hard_limit), KERN_SUCCESS)
                      else if is_bits_test space IS_SOFT_LIMIT_NOTIFIED
                      then (Some space, (current_size, soft_limit, hard_limit), KERN_FAILURE)
                      else if soft_limit > 0 \<and> current_size \<ge> soft_limit
                      then (Some (fst (is_bits_set space IS_SOFT_LIMIT_NOTIFIED)), (current_size, soft_limit, 0), KERN_SUCCESS)
                      else (Some space, (current_size, soft_limit, hard_limit), KERN_SUCCESS))
          })"


section \<open>The free list as a path\<close>

text \<open>\<open>fl_path t i xs\<close>: following \<open>ie_next\<close> from entry \<open>i\<close> visits \<open>xs\<close> and then ends.\<close>

fun fl_path :: "ipc_entry list \<Rightarrow> nat \<Rightarrow> nat list \<Rightarrow> bool" where
  "fl_path t i [] \<longleftrightarrow> ie_next (t ! i) = 0"
| "fl_path t i (x # xs) \<longleftrightarrow> x \<noteq> 0 \<and> unat (ie_next (t ! i)) = x \<and> fl_path t x xs"

text \<open>Two spaces that differ at most in the state of their random generator.\<close>

definition rng_only :: "ipc_space \<Rightarrow> ipc_space \<Rightarrow> bool" where
  "rng_only sp sp' \<longleftrightarrow> (\<exists>bg en. sp' = sp\<lparr>is_bool_gen := bg, is_entropy := en\<rparr>)"

lemma rng_only_refl [simp]: "rng_only sp sp"
  unfolding rng_only_def by (metis ipc_space.surjective ipc_space.update_convs(10,11))

lemma rng_only_trans: "rng_only a b \<Longrightarrow> rng_only b c \<Longrightarrow> rng_only a c"
  unfolding rng_only_def by (elim exE) (simp, blast)

lemma rng_only_random: "rng_only sp (fst (ipc_space_random sp n))"
  unfolding rng_only_def ipc_space_random_def by (auto split: prod.splits)

lemma rng_only_fields:
  "rng_only sp sp' \<Longrightarrow>
     is_table sp' = is_table sp \<and> is_table_hashed sp' = is_table_hashed sp \<and>
     is_table_free sp' = is_table_free sp \<and> is_table_next sp' = is_table_next sp \<and>
     is_grower sp' = is_grower sp \<and> is_label sp' = is_label sp \<and> is_bits sp' = is_bits sp \<and>
     is_low_mod sp' = is_low_mod sp \<and> is_high_mod sp' = is_high_mod sp"
  unfolding rng_only_def by auto

lemma fl_path_cong:
  "(\<And>j. j = i \<or> j \<in> set xs \<Longrightarrow> ie_next (t' ! j) = ie_next (t ! j)) \<Longrightarrow> fl_path t' i xs = fl_path t i xs"
  by (induction xs arbitrary: i) auto

lemma fl_path_upd: "j \<noteq> i \<Longrightarrow> j \<notin> set xs \<Longrightarrow> fl_path (t[j := e]) i xs = fl_path t i xs"
  by (induction xs arbitrary: i) auto

lemma fl_path_append:
  "fl_path t i (xs @ y # ys) \<Longrightarrow> fl_path t y ys \<and> y \<noteq> 0 \<and> unat (ie_next (t ! last (i # xs))) = y"
  by (induction xs arbitrary: i) auto

text \<open>
  \<open>fl_built t cur R t' cur'\<close>: the entries of \<open>R\<close> were linked behind \<open>cur\<close>, in some order that
  ends with \<open>cur'\<close>; that last entry and those outside are as before.
\<close>

definition fl_built :: "ipc_entry list \<Rightarrow> nat \<Rightarrow> nat set \<Rightarrow> ipc_entry list \<Rightarrow> nat \<Rightarrow> bool" where
  "fl_built t cur R t' cur' \<longleftrightarrow> length t' = length t \<and>
     (\<exists>xs. fl_path t' cur xs \<and> distinct xs \<and> set xs = R \<and> cur' = last (cur # xs)) \<and>
     (\<forall>s. s \<noteq> cur \<and> s \<notin> R \<or> s = cur' \<longrightarrow> t' ! s = t ! s) \<and>
     (\<forall>s. s \<noteq> cur' \<and> (s = cur \<or> s \<in> R) \<longrightarrow>
       (\<exists>nx. t' ! s = (t ! s)\<lparr>ie_bits := IE_BITS_GEN_MASK, ie_request := nx\<rparr>))"

lemma fl_built_step:
  assumes built: "fl_built (t[cur := (t ! cur)\<lparr>ie_bits := IE_BITS_GEN_MASK, ie_request := word_of_nat nx\<rparr>])
      nx (R - {nx}) t' cur'"
    and nx: "nx \<in> R" "nx \<noteq> 0" "nx < 2 ^ 32" and cur: "cur \<notin> R" "cur < length t"
  shows "fl_built t cur R t' cur'"
proof -
  let ?e = "(t ! cur)\<lparr>ie_bits := IE_BITS_GEN_MASK, ie_request := word_of_nat nx\<rparr>"
  obtain xs where xs: "fl_path t' nx xs" "distinct xs" "set xs = R - {nx}" "cur' = last (nx # xs)"
    using built by (auto simp: fl_built_def)
  have "cur' \<in> R" using xs nx by (cases xs rule: rev_cases) auto
  then have ne: "cur' \<noteq> cur" "nx \<noteq> cur" using cur nx by auto
  then have t'cur: "t' ! cur = ?e" using built cur by (simp add: fl_built_def)
  have "fl_path t' cur (nx # xs)" "distinct (nx # xs)" "set (nx # xs) = R" "cur' = last (cur # nx # xs)"
    using xs nx t'cur by (auto simp: unat_of_nat_len)
  moreover have "t' ! s = t ! s" if "s \<noteq> cur \<and> s \<notin> R \<or> s = cur'" for s
    using that built ne nx(1) by (auto simp: fl_built_def)
  moreover have "\<exists>n. t' ! s = (t ! s)\<lparr>ie_bits := IE_BITS_GEN_MASK, ie_request := n\<rparr>"
    if "s \<noteq> cur' \<and> (s = cur \<or> s \<in> R)" for s
  proof (cases "s = cur")
    case True
    then show ?thesis using t'cur by blast
  next
    case False
    then have "\<exists>n. t' ! s = (t[cur := ?e] ! s)\<lparr>ie_bits := IE_BITS_GEN_MASK, ie_request := n\<rparr>"
      using that built unfolding fl_built_def by (metis Diff_iff singletonD)
    then show ?thesis using False by simp
  qed
  ultimately show ?thesis using built unfolding fl_built_def by (metis length_list_update)
qed

lemma rand_freelist_loop_spec:
  assumes "hi + 1 = lo + n" "hi < length t" "cur < length t" "cur < lo \<or> hi < cur" "0 < lo"
    "length t \<le> 2 ^ 32" "\<forall>s. s = cur \<or> lo \<le> s \<and> s \<le> hi \<longrightarrow> ie_next (t ! s) = 0"
    "ipc_space_rand_freelist_loop n sp t at_start total_seq cur lo hi = (sp', t', cur')"
  shows "rng_only sp sp' \<and> fl_built t cur {lo..hi} t' cur'"
  using assms
proof (induction n arbitrary: sp t total_seq cur lo hi)
  case 0
  then show ?case by (auto simp: fl_built_def intro!: exI [of _ "[]"])
next
  case (Suc n)
  obtain sp1 wh tot where draw:
    "(if at_start \<and> total_seq < NUM_SEQ_ENTRIES then (sp, 0, total_seq + 1)
      else let (space, w) = ipc_space_random sp 1
           in (space, w, if at_start then total_seq + 1 else total_seq)) = (sp1, wh, tot)"
    by (cases "if at_start \<and> total_seq < NUM_SEQ_ENTRIES then (sp, 0, total_seq + 1)
      else let (space, w) = ipc_space_random sp 1
           in (space, w, if at_start then total_seq + 1 else total_seq)") auto
  have rng: "rng_only sp sp1"
    using draw rng_only_random [of sp 1] by (auto split: if_splits prod.splits)
  obtain nx lo' hi' where step: "(if wh \<noteq> 0 then (hi, lo, hi - 1) else (lo, lo + 1, hi)) = (nx, lo', hi')"
    by (cases "if wh \<noteq> 0 then (hi, lo, hi - 1) else (lo, lo + 1, hi)") auto
  have nx: "nx \<in> {lo..hi}" "{lo..hi} - {nx} = {lo'..hi'}" "hi' + 1 = lo' + n" "hi' \<le> hi" "0 < lo'"
    "nx < lo' \<or> hi' < nx" "lo \<le> lo'"
    using step Suc.prems(1,5) by (auto split: if_splits)
  let ?t = "t[cur := (t ! cur)\<lparr>ie_bits := IE_BITS_GEN_MASK, ie_request := word_of_nat nx\<rparr>]"
  have rest: "ipc_space_rand_freelist_loop n sp1 ?t at_start tot nx lo' hi' = (sp', t', cur')"
    using Suc.prems(8) draw step by (simp add: Let_def)
  have cur: "cur \<notin> {lo..hi}" using Suc.prems(4) by auto
  have "rng_only sp1 sp' \<and> fl_built ?t nx {lo'..hi'} t' cur'"
  proof (rule Suc.IH [OF nx(3) _ _ nx(6,5) _ _ rest])
    show "\<forall>s. s = nx \<or> lo' \<le> s \<and> s \<le> hi' \<longrightarrow> ie_next (?t ! s) = 0"
      using Suc.prems(7) cur nx by auto
  qed (use Suc.prems nx in auto)
  then show ?case
    using rng_only_trans [OF rng] fl_built_step [of t cur nx "{lo..hi}" t' cur'] nx Suc.prems cur by auto
qed

text \<open>A freshly allocated table is turned into a table whose entries above \<open>lo\<close> are all on the list.\<close>

lemma ipc_space_rand_freelist_spec:
  assumes lo: "lo < sz" and sz: "1 < sz" "sz < 2 ^ 32"
    and res: "ipc_space_rand_freelist sp (replicate sz ipc_entry_zero) lo sz = (sp', t')"
  shows "rng_only sp sp'" "length t' = sz" "ie_size (t' ! 0) = word_of_nat sz"
    "\<exists>xs. fl_path t' lo xs \<and> distinct xs \<and> set xs = {lo<..<sz}"
    "\<And>s. 0 < s \<Longrightarrow> lo \<le> s \<Longrightarrow> s < sz \<Longrightarrow>
       \<exists>nx. t' ! s = ipc_entry_zero\<lparr>ie_bits := IE_BITS_GEN_MASK, ie_request := nx\<rparr>"
    "\<And>s. 0 < s \<Longrightarrow> s < lo \<Longrightarrow> t' ! s = ipc_entry_zero"
    "ie_object (t' ! 0) = 0 \<and> ie_index (t' ! 0) = 0 \<and> ie_dist (t' ! 0) = 0 \<and> (0 < lo \<longrightarrow> ie_next (t' ! 0) = 0)"
proof -
  let ?t = "replicate sz ipc_entry_zero"
  obtain t1 cur where loop:
    "ipc_space_rand_freelist_loop (sz - 1 - lo) sp ?t (lo = 0) 0 lo (lo + 1) (sz - 1) = (sp', t1, cur)"
    and t': "t' = t1[cur := (t1 ! cur)\<lparr>ie_bits := IE_BITS_GEN_MASK\<rparr>,
                     0 := (t1[cur := (t1 ! cur)\<lparr>ie_bits := IE_BITS_GEN_MASK\<rparr>] ! 0)\<lparr>ie_bits := word_of_nat sz\<rparr>]"
    using res by (auto simp: ipc_space_rand_freelist_def Let_def split: prod.splits)
  have z: "ie_next ipc_entry_zero = 0" by (simp add: ipc_entry_zero_def)
  have loop_spec: "rng_only sp sp' \<and> fl_built ?t lo {lo + 1..sz - 1} t1 cur"
    by (rule rand_freelist_loop_spec [OF _ _ _ _ _ _ _ loop]) (use lo sz z in auto)
  then have built: "fl_built ?t lo {lo + 1..sz - 1} t1 cur" and "rng_only sp sp'" by simp_all
  then show "rng_only sp sp'" by simp
  have len: "length t1 = sz" using built by (simp add: fl_built_def)
  obtain xs where xs: "fl_path t1 lo xs" "distinct xs" "set xs = {lo + 1..sz - 1}" "cur = last (lo # xs)"
    using built by (auto simp: fl_built_def)
  have range: "cur = lo \<or> cur \<in> {lo + 1..sz - 1}" using xs by (cases xs rule: rev_cases) auto
  then have cur: "lo \<le> cur" "cur < sz" using lo by auto
  have same_next: "ie_next (t' ! s) = ie_next (t1 ! s)" for s
    unfolding t' using cur len sz by (cases "s = 0"; cases "s = cur") auto
  show "length t' = sz" using len by (simp add: t')
  show "ie_size (t' ! 0) = word_of_nat sz" using len sz by (simp add: t')
  have "fl_path t' lo xs" using xs(1) fl_path_cong [of lo xs t' t1] same_next by simp
  moreover have "{lo + 1..sz - 1} = {lo<..<sz}" by auto
  ultimately show "\<exists>xs. fl_path t' lo xs \<and> distinct xs \<and> set xs = {lo<..<sz}"
    using xs by auto
  have t1_cur: "t1 ! cur = ipc_entry_zero" using built cur by (simp add: fl_built_def)
  have t1: "\<exists>nx. t1 ! s = ipc_entry_zero\<lparr>ie_bits := IE_BITS_GEN_MASK, ie_request := nx\<rparr>"
    if "lo \<le> s" "s < sz" "s \<noteq> cur" for s
  proof -
    have "s = lo \<or> s \<in> {lo + 1..sz - 1}" using that by auto
    then have "\<exists>nx. t1 ! s = (?t ! s)\<lparr>ie_bits := IE_BITS_GEN_MASK, ie_request := nx\<rparr>"
      using built that(3) unfolding fl_built_def by blast
    then show ?thesis using that(2) by simp
  qed
  show "\<exists>nx. t' ! s = ipc_entry_zero\<lparr>ie_bits := IE_BITS_GEN_MASK, ie_request := nx\<rparr>"
    if "0 < s" "lo \<le> s" "s < sz" for s
  proof (cases "s = cur")
    case True
    then have "t' ! s = ipc_entry_zero\<lparr>ie_bits := IE_BITS_GEN_MASK, ie_request := 0\<rparr>"
      using that cur len t1_cur by (simp add: t' ipc_entry_zero_def)
    then show ?thesis by blast
  next
    case False
    then show ?thesis using that t1 by (simp add: t')
  qed
  show "t' ! s = ipc_entry_zero" if "0 < s" "s < lo" for s
    using that built cur lo by (auto simp: t' fl_built_def)
  have "ie_object (t1 ! 0) = 0 \<and> ie_index (t1 ! 0) = 0 \<and> ie_dist (t1 ! 0) = 0 \<and> (0 < lo \<longrightarrow> ie_next (t1 ! 0) = 0)"
  proof (cases "lo = 0 \<and> cur \<noteq> 0")
    case True
    then show ?thesis using t1 [of 0] sz by (auto simp: ipc_entry_zero_def)
  next
    case False
    have "t1 ! 0 = ipc_entry_zero"
    proof (cases "cur = 0")
      case True
      then show ?thesis using t1_cur by simp
    next
      case cur0: False
      then have "0 \<noteq> lo \<and> 0 \<notin> {lo + 1..sz - 1}" using False by auto
      then have "t1 ! 0 = ?t ! 0" using built unfolding fl_built_def by blast
      then show ?thesis using sz by simp
    qed
    then show ?thesis by (simp add: ipc_entry_zero_def)
  qed
  then show "ie_object (t' ! 0) = 0 \<and> ie_index (t' ! 0) = 0 \<and> ie_dist (t' ! 0) = 0 \<and> (0 < lo \<longrightarrow> ie_next (t' ! 0) = 0)"
    using same_next [of 0] cur len sz by (cases "cur = 0") (auto simp: t')
qed

end
