(* ===== verification/Ipc_Entry.thy ===== *)
theory Ipc_Entry
imports Ipc_Space
begin

text \<open>
  Capability entries: \<^verbatim>\<open>osfmk/ipc/ipc_entry.c\<close>.  Lookup by name, holding and claiming entries
  from the free list, allocation by name, deallocation and growing the table.  An entry pointer is
  its index in the table of the space; \<open>IE_NULL\<close> is \<open>None\<close> inside the result.  The operations run
  as critical sections; the unlocked part of \<open>ipc_entry_grow_table\<close> is run without interference
  from other threads, and a table that somebody else is growing is left as it is.
\<close>

section \<open>Operations\<close>

definition ipc_entry_lookup :: "ipc_space \<Rightarrow> mach_port_name_t \<Rightarrow> nat option option" where
  "ipc_entry_lookup space name = do {
     table \<leftarrow> is_active_table space;
     let index = unat (MACH_PORT_INDEX name);
     head \<leftarrow> nth_opt table 0;
     if index > 0 \<and> index < unat (ie_size head)
     then do {
       entry \<leftarrow> nth_opt table index;
       if IE_BITS_GEN (ie_bits entry) \<noteq> MACH_PORT_GEN name \<or>
          IE_BITS_TYPE (ie_bits entry) = MACH_PORT_TYPE_NONE
       then Some None
       else do { kassert (IE_BITS_TYPE (ie_bits entry) \<noteq> 0); Some (Some index) }
     }
     else Some None
   }"

text \<open>The loop of \<open>ipc_entries_hold\<close>: whether the free list has \<open>n\<close> more entries.\<close>

fun ipc_entries_hold_loop :: "nat \<Rightarrow> ipc_entry list \<Rightarrow> nat \<Rightarrow> nat \<Rightarrow> bool option" where
  "ipc_entries_hold_loop 0 table sz next_free = Some True"
| "ipc_entries_hold_loop (Suc n) table sz next_free = do {
     e \<leftarrow> nth_opt table next_free;
     let next_free = unat (ie_next e);
     if next_free = 0 then Some False
     else do {
       kassert (next_free < sz);
       e \<leftarrow> nth_opt table next_free;
       kassert (ie_object e = IO_NULL);
       ipc_entries_hold_loop n table sz next_free
     }
   }"

definition ipc_entries_hold :: "ipc_space \<Rightarrow> 32 word \<Rightarrow> (ipc_space \<times> kern_return_t) option" where
  "ipc_entries_hold space entries_needed = do {
     table \<leftarrow> is_active_table space;
     head \<leftarrow> nth_opt table 0;
     if is_table_hashed space + entries_needed > ie_size head * 7 div 8
     then Some (space, KERN_NO_SPACE)
     else do {
       enough \<leftarrow> ipc_entries_hold_loop (unat entries_needed) table (unat (ie_size head)) 0;
       if enough
       then do { space \<leftarrow> ipc_space_check_limit_exceeded space; Some (space, KERN_SUCCESS) }
       else Some (space, KERN_NO_SPACE)
     }
   }"

definition ipc_entry_claim ::
    "ipc_space \<Rightarrow> ipc_object_t \<Rightarrow> (ipc_space \<times> mach_port_name_t \<times> nat) option" where
  "ipc_entry_claim space object = do {
     table \<leftarrow> is_active_table space;
     head \<leftarrow> nth_opt table 0;
     let first_free = unat (ie_next head);
     kassert (first_free \<noteq> 0);
     entry \<leftarrow> nth_opt table first_free;
     let table = table[0 := head\<lparr>ie_request := ie_next entry\<rparr>];
     let space = space\<lparr>is_table_free := is_table_free space - 1\<rparr>;
     kassert (ie_next entry < ie_size head);
     kassert (ie_object entry = IO_NULL);
     let (space, roll) =
       (if ipc_entry_gen_rolled (ie_bits entry) (ipc_entry_new_gen (ie_bits entry))
        then ipc_space_get_rollpoint space else (space, 0));
     let gen = ipc_entry_next_gen (ie_bits entry) roll;
     let entry = entry\<lparr>ie_bits := gen, ie_request := IE_REQ_NONE, ie_object := object\<rparr>;
     let new_name = MACH_PORT_MAKE (word_of_nat first_free) gen;
     kassert (MACH_PORT_VALID new_name);
     Some (space\<lparr>is_table := Some (table[first_free := entry])\<rparr>, new_name, first_free)
   }"

definition ipc_entry_modified :: "ipc_space \<Rightarrow> mach_port_name_t \<Rightarrow> nat \<Rightarrow> ipc_space option" where
  "ipc_entry_modified space name entry = do {
     let index = unat (MACH_PORT_INDEX name);
     table \<leftarrow> is_active_table space;
     head \<leftarrow> nth_opt table 0;
     let sz = unat (ie_size head);
     kassert (index < sz);
     kassert (entry = index);
     kassert (unat (is_low_mod space) \<le> sz);
     kassert (unat (is_high_mod space) < sz);
     let space = (if index < unat (is_low_mod space) then space\<lparr>is_low_mod := word_of_nat index\<rparr> else space);
     let space = (if index > unat (is_high_mod space) then space\<lparr>is_high_mod := word_of_nat index\<rparr> else space);
     Some space
   }"

definition ipc_entry_dealloc ::
    "ipc_space \<Rightarrow> ipc_object_t \<Rightarrow> mach_port_name_t \<Rightarrow> nat \<Rightarrow> ipc_space option" where
  "ipc_entry_dealloc space object name entry = do {
     table \<leftarrow> is_active_table space;
     e \<leftarrow> nth_opt table entry;
     kassert (ie_object e = object);
     kassert (ie_request e = IE_REQ_NONE);
     let index = unat (MACH_PORT_INDEX name);
     head \<leftarrow> nth_opt table 0;
     kassert (index > 0 \<and> index < unat (ie_size head));
     kassert (entry = index);
     kassert (IE_BITS_GEN (ie_bits e) = MACH_PORT_GEN name);
     let e = e\<lparr>ie_bits := ie_bits e AND (IE_BITS_GEN_MASK OR IE_BITS_ROLL_MASK),
               ie_request := ie_next head, ie_object := IO_NULL\<rparr>;
     let table = table[index := e, 0 := head\<lparr>ie_request := word_of_nat index\<rparr>];
     ipc_entry_modified
       (space\<lparr>is_table := Some table, is_table_free := is_table_free space + 1\<rparr>) name entry
   }"


section \<open>Growing the table\<close>

text \<open>The search for a table size that holds \<open>target\<close> entries; fuel is one unit per size.\<close>

fun ipc_entry_grow_find :: "nat \<Rightarrow> nat \<Rightarrow> nat \<Rightarrow> nat \<Rightarrow> nat \<Rightarrow> (nat \<times> nat \<times> nat) option" where
  "ipc_entry_grow_find 0 target psize its sz = None"
| "ipc_entry_grow_find (Suc fuel) target psize its sz =
     (if psize \<noteq> sz \<and> target > sz
      then do {
        sz' \<leftarrow> nth_opt ipc_table_entries (its + 1);
        ipc_entry_grow_find fuel target sz (its + 1) sz'
      }
      else Some (psize, its, sz))"

text \<open>Copying \<open>n\<close> entries from index \<open>i\<close> on, rehashing the pure send rights.\<close>

fun ipc_entry_grow_scan ::
    "nat \<Rightarrow> nat \<Rightarrow> ipc_entry list \<Rightarrow> ipc_entry list \<Rightarrow> ipc_entry list option" where
  "ipc_entry_grow_scan 0 i otable table = Some table"
| "ipc_entry_grow_scan (Suc n) i otable table = do {
     entry \<leftarrow> nth_opt table i;
     osnap \<leftarrow> nth_opt otable i;
     table \<leftarrow>
       (if ie_object entry \<noteq> ie_object osnap \<or>
           IE_BITS_TYPE (ie_bits entry) \<noteq> IE_BITS_TYPE (ie_bits osnap)
        then do {
          table \<leftarrow> (if ie_object entry \<noteq> IO_NULL \<and> IE_BITS_TYPE (ie_bits entry) = MACH_PORT_TYPE_SEND
                    then ipc_hash_table_delete table (ie_object entry) i i else Some table);
          entry \<leftarrow> nth_opt table i;
          let table = table[i := entry\<lparr>ie_object := ie_object osnap, ie_bits := ie_bits osnap,
                                       ie_request := ie_request osnap\<rparr>];
          if ie_object osnap \<noteq> IO_NULL \<and> IE_BITS_TYPE (ie_bits osnap) = MACH_PORT_TYPE_SEND
          then ipc_hash_table_insert table (ie_object osnap) i i else Some table
        }
        else Some (table[i := entry\<lparr>ie_bits := ie_bits osnap, ie_request := ie_request osnap\<rparr>]));
     ipc_entry_grow_scan n (i + 1) otable table
   }"

text \<open>The end of the free list of the new table, looking at no more than \<open>sanity\<close> entries.\<close>

fun ipc_entry_grow_tail :: "nat \<Rightarrow> ipc_entry list \<Rightarrow> nat \<Rightarrow> nat \<Rightarrow> nat option" where
  "ipc_entry_grow_tail 0 table osize free_index = Some free_index"
| "ipc_entry_grow_tail (Suc sanity) table osize free_index = do {
     e \<leftarrow> nth_opt table free_index;
     if ie_object e \<noteq> IO_NULL then Some free_index
     else let i = unat (ie_next e)
          in if i = 0 \<or> i \<ge> osize then Some free_index
             else ipc_entry_grow_tail sanity table osize i
   }"

definition ipc_space_done_growing :: "ipc_space \<Rightarrow> ipc_space option" where
  "ipc_space_done_growing space = do {
     kassert (is_grower space);
     Some (space\<lparr>is_grower := False\<rparr>)
   }"

text \<open>From the label \<open>rescan\<close> on; fuel bounds the number of rescans.\<close>

fun ipc_entry_grow_rescan ::
    "nat \<Rightarrow> ipc_space \<Rightarrow> ipc_entry list \<Rightarrow> ipc_entry list \<Rightarrow> nat \<Rightarrow> nat \<Rightarrow> 32 word \<Rightarrow> nat \<Rightarrow> nat \<Rightarrow> nat \<Rightarrow>
     (ipc_space \<times> kern_return_t) option" where
  "ipc_entry_grow_rescan 0 space otable table low_mod hi_mod target its osize sz = None"
| "ipc_entry_grow_rescan (Suc fuel) space otable table low_mod hi_mod target its osize sz = do {
     kassert (low_mod > 0);
     table \<leftarrow> ipc_entry_grow_scan (hi_mod + 1 - low_mod) low_mod otable table;
     ohead \<leftarrow> nth_opt otable 0;
     head \<leftarrow> nth_opt table 0;
     let table = table[0 := head\<lparr>ie_request := ie_next ohead\<rparr>];
     free_index \<leftarrow> ipc_entry_grow_tail osize table osize 0;
     if \<not> is_active space
     then do { space \<leftarrow> ipc_space_done_growing space; Some (space, KERN_SUCCESS) }
     else if unat (is_low_mod space) < osize
     then do {
       kassert (is_high_mod space > 0);
       ipc_entry_grow_rescan fuel
         (space\<lparr>is_low_mod := word_of_nat osize, is_high_mod := 0\<rparr>) otable table
         (unat (is_low_mod space)) (unat (is_high_mod space)) target its osize sz
     }
     else do {
       last_free \<leftarrow> nth_opt table free_index;
       kassert (ie_next last_free = 0 \<and> ie_object last_free = IO_NULL);
       let table = table[free_index := last_free\<lparr>ie_request := word_of_nat osize\<rparr>];
       kassert (is_table space = Some otable);
       kassert (is_table_next space = its \<or> target \<noteq> ITS_SIZE_NONE);
       kassert (unat (ie_size ohead) = osize);
       space \<leftarrow> ipc_space_done_growing
         (space\<lparr>is_table_next := its + 1,
                is_table_free := is_table_free space + word_of_nat (sz - osize),
                is_table := Some table\<rparr>);
       Some (space, KERN_SUCCESS)
     }
   }"

definition ipc_entry_grow_table ::
    "(nat \<Rightarrow> bool) \<Rightarrow> ipc_space \<Rightarrow> 32 word \<Rightarrow> (ipc_space \<times> kern_return_t) option" where
  "ipc_entry_grow_table mem space target =
     (if is_growing space then Some (space, KERN_SUCCESS)
      else do {
        otable \<leftarrow> is_active_table space;
        let its = is_table_next space;
        sz \<leftarrow> nth_opt ipc_table_entries its;
        kassert (0 < its);
        osize \<leftarrow> nth_opt ipc_table_entries (its - 1);
        if target \<noteq> ITS_SIZE_NONE \<and> unat target \<le> osize then Some (space, KERN_SUCCESS)
        else do {
          (psize, its, sz) \<leftarrow>
            (if target \<noteq> ITS_SIZE_NONE
             then ipc_entry_grow_find (IPC_TABLE_ENTRIES_SIZE + 1) (unat target) osize its sz
             else Some (osize, its, sz));
          if target \<noteq> ITS_SIZE_NONE \<and> psize = sz \<or> osize = sz
          then Some (ipc_space_set_at_max_limit space, KERN_NO_SPACE)
          else do {
            nsize \<leftarrow> nth_opt ipc_table_entries (its + 1);
            kassert (osize < sz \<and> sz \<le> nsize);
            let space = space\<lparr>is_grower := True, is_low_mod := word_of_nat osize, is_high_mod := 0\<rparr>;
            case it_entries_alloc mem its of
              None \<Rightarrow> do { space \<leftarrow> ipc_space_done_growing space; Some (space, KERN_RESOURCE_SHORTAGE) }
            | Some table \<Rightarrow>
                let (space, table) = ipc_space_rand_freelist space table osize sz
                in ipc_entry_grow_rescan 2 space otable table 1 (osize - 1) target its osize sz
          }
        }
      })"


section \<open>Allocation\<close>

text \<open>
  The retry loops of the two allocators.  Each round either returns or grows the table by at least
  one step of \<open>ipc_table_entries\<close>, so the number of steps is enough fuel.
\<close>

fun ipc_entry_alloc_loop ::
    "nat \<Rightarrow> (nat \<Rightarrow> bool) \<Rightarrow> ipc_space \<Rightarrow> ipc_object_t \<Rightarrow>
     (ipc_space \<times> kern_return_t \<times> (mach_port_name_t \<times> nat) option) option" where
  "ipc_entry_alloc_loop 0 mem space object = None"
| "ipc_entry_alloc_loop (Suc fuel) mem space object =
     (if \<not> is_active space then Some (space, KERN_INVALID_TASK, None)
      else do {
        (space, kr) \<leftarrow> ipc_entries_hold space 1;
        if kr = KERN_SUCCESS
        then do {
          (space, name, entry) \<leftarrow> ipc_entry_claim space object;
          Some (space, KERN_SUCCESS, Some (name, entry))
        }
        else do {
          (space, kr) \<leftarrow> ipc_entry_grow_table mem space ITS_SIZE_NONE;
          if kr \<noteq> KERN_SUCCESS then Some (space, kr, None)
          else ipc_entry_alloc_loop fuel mem space object
        }
      })"

definition ipc_entry_alloc ::
    "(nat \<Rightarrow> bool) \<Rightarrow> ipc_space \<Rightarrow> ipc_object_t \<Rightarrow>
     (ipc_space \<times> kern_return_t \<times> (mach_port_name_t \<times> nat) option) option" where
  "ipc_entry_alloc mem space object =
     ipc_entry_alloc_loop (IPC_TABLE_ENTRIES_SIZE + 1) mem space object"

text \<open>The predecessor of \<open>index\<close> on the free list; fuel is one unit per entry.\<close>

fun ipc_entry_find_prev :: "nat \<Rightarrow> ipc_entry list \<Rightarrow> nat \<Rightarrow> nat \<Rightarrow> nat option" where
  "ipc_entry_find_prev 0 table index free_index = None"
| "ipc_entry_find_prev (Suc fuel) table index free_index = do {
     e \<leftarrow> nth_opt table free_index;
     let next_index = unat (ie_next e);
     if next_index \<noteq> index then ipc_entry_find_prev fuel table index next_index
     else Some free_index
   }"

text \<open>Case 4 of \<open>ipc_entry_alloc_name\<close>: ripping a free entry out of the free list.\<close>

definition ipc_entry_alloc_name_free ::
    "ipc_space \<Rightarrow> ipc_entry list \<Rightarrow> nat \<Rightarrow> mach_port_gen_t \<Rightarrow> ipc_space option" where
  "ipc_entry_alloc_name_free space table index gen = do {
     free_index \<leftarrow> ipc_entry_find_prev (length table) table index 0;
     prev \<leftarrow> nth_opt table free_index;
     entry \<leftarrow> nth_opt table index;
     let table = table[free_index := prev\<lparr>ie_request := ie_next entry\<rparr>];
     let space = space\<lparr>is_table_free := is_table_free space - 1, is_table := Some table\<rparr>;
     space \<leftarrow> ipc_entry_modified space
       (MACH_PORT_MAKE (word_of_nat free_index) (IE_BITS_GEN (ie_bits prev))) free_index;
     let entry = entry\<lparr>ie_bits := gen, ie_request := IE_REQ_NONE\<rparr>;
     kassert (ie_object entry = IO_NULL);
     Some (space\<lparr>is_table := Some (table[index := entry])\<rparr>)
   }"

fun ipc_entry_alloc_name_loop ::
    "nat \<Rightarrow> (nat \<Rightarrow> bool) \<Rightarrow> ipc_space \<Rightarrow> nat \<Rightarrow> mach_port_gen_t \<Rightarrow>
     (ipc_space \<times> kern_return_t \<times> nat option) option" where
  "ipc_entry_alloc_name_loop 0 mem space index gen = None"
| "ipc_entry_alloc_name_loop (Suc fuel) mem space index gen =
     (if \<not> is_active space then Some (space, KERN_INVALID_TASK, None)
      else do {
        table \<leftarrow> is_active_table space;
        head \<leftarrow> nth_opt table 0;
        if index < unat (ie_size head)
        then do {
          entry \<leftarrow> nth_opt table index;
          if index = 0 then Some (space, KERN_FAILURE, None)
          else if IE_BITS_TYPE (ie_bits entry) \<noteq> 0
          then if IE_BITS_GEN (ie_bits entry) = gen
               then Some (space, KERN_SUCCESS, Some index)
               else Some (space, KERN_FAILURE, None)
          else do {
            space \<leftarrow> ipc_entry_alloc_name_free space table index gen;
            Some (space, KERN_SUCCESS, Some index)
          }
        }
        else do {
          (space, kr) \<leftarrow> ipc_entry_grow_table mem space (word_of_nat (index + 1));
          if kr \<noteq> KERN_SUCCESS then Some (space, kr, None)
          else ipc_entry_alloc_name_loop fuel mem space index gen
        }
      })"

definition ipc_entry_alloc_name ::
    "(nat \<Rightarrow> bool) \<Rightarrow> ipc_space \<Rightarrow> mach_port_name_t \<Rightarrow> (ipc_space \<times> kern_return_t \<times> nat option) option" where
  "ipc_entry_alloc_name mem space name =
     (let index = unat (MACH_PORT_INDEX name); gen = MACH_PORT_GEN name
      in if index > ipc_table_max_entries then Some (space, KERN_NO_SPACE, None)
         else if name \<noteq> ipc_entry_name_mask name then Some (space, KERN_INVALID_VALUE, None)
         else do {
           kassert (MACH_PORT_VALID name);
           ipc_entry_alloc_name_loop (IPC_TABLE_ENTRIES_SIZE + 1) mem space index gen
         })"


section \<open>The invariant of a space\<close>

text \<open>
  \<open>table_inv t xs\<close>: the table is as long as its first entry says and not longer than the largest
  size, \<open>xs\<close> is the free list, the entries on it hold nothing, and every generation is one the
  kernel could have made.  \<open>space_inv sp t xs H\<close> adds the bookkeeping of the space: \<open>H\<close> are the
  entries in the reverse hash, none of which is displaced beyond the cut-off.
\<close>

definition entry_unused :: "ipc_entry \<Rightarrow> bool" where
  "entry_unused e \<longleftrightarrow>
     ie_object e = IO_NULL \<and> ie_bits e AND (IE_BITS_GEN_MASK OR IE_BITS_ROLL_MASK) = ie_bits e"

definition table_inv :: "ipc_entry list \<Rightarrow> nat list \<Rightarrow> bool" where
  "table_inv t xs \<longleftrightarrow>
     table_sized t \<and> length t \<le> 299349 \<and>
     fl_path t 0 xs \<and> distinct xs \<and> set xs \<subseteq> {1..<length t} \<and>
     (\<forall>i\<in>set xs. entry_unused (t ! i)) \<and>
     (\<forall>i. 0 < i \<longrightarrow> i < length t \<longrightarrow> gen_ok (ie_bits (t ! i)))"

definition space_inv :: "ipc_space \<Rightarrow> ipc_entry list \<Rightarrow> nat list \<Rightarrow> nat set \<Rightarrow> bool" where
  "space_inv sp t xs H \<longleftrightarrow>
     is_table sp = Some t \<and> table_inv t xs \<and> hash_inv t H \<and> hash_exact t \<and>
     is_table_hashed sp = word_of_nat (card H) \<and> is_table_free sp = word_of_nat (length xs) \<and>
     \<not> is_grower sp \<and> 1 \<le> is_table_next sp \<and> is_table_next sp \<le> 255 \<and>
     ipc_table_entries ! (is_table_next sp - 1) = length t \<and>
     unat (is_low_mod sp) \<le> length t \<and> unat (is_high_mod sp) < length t"

lemma space_inv_upd [simp]:
  "space_inv (sp\<lparr>is_bits := b\<rparr>) t xs H = space_inv sp t xs H"
  "space_inv (sp\<lparr>is_ast := a\<rparr>) t xs H = space_inv sp t xs H"
  "space_inv (sp\<lparr>is_label := l\<rparr>) t xs H = space_inv sp t xs H"
  "space_inv (sp\<lparr>is_bool_gen := bg\<rparr>) t xs H = space_inv sp t xs H"
  "space_inv (sp\<lparr>is_entropy := en\<rparr>) t xs H = space_inv sp t xs H"
  by (simp_all add: space_inv_def)

lemma table_inv_sized: "table_inv t xs \<Longrightarrow> table_sized t"
  by (simp add: table_inv_def)

lemma table_inv_less: "table_inv t xs \<Longrightarrow> length t < 2 ^ 24"
  by (simp add: table_inv_def)

lemma space_invD:
  assumes "space_inv sp t xs H"
  shows "is_active_table sp = Some t" "is_active sp" "table_inv t xs" "table_sized t" "hash_inv t H"
    "length t < 2 ^ 24" "\<not> is_growing sp" "hash_exact t"
  using assms by (simp_all add: space_inv_def is_active_table_def is_active_def table_inv_def is_growing_def)

lemma fl_entry:
  assumes "table_inv t xs" "i \<in> set xs"
  shows "0 < i" "i < length t" "entry_unused (t ! i)"
  using assms by (auto simp: table_inv_def)


section \<open>Names of entries\<close>

lemma MAKE_GEN [simp]: "MACH_PORT_MAKE i (IE_BITS_GEN g) = MACH_PORT_MAKE i g"
proof -
  have "drop_bit 24 (g AND 0xff000000) = drop_bit 24 (g :: 32 word)"
    by (rule bit_word_eqI)
      (auto simp: bit_simps bit_ff dest: bit_imp_le_length simp del: bit_numeral_word_iff)
  then show ?thesis by (simp add: MACH_PORT_MAKE_def IE_BITS_GEN_def mach_consts)
qed

lemma IE_BITS_GEN_idem [simp]: "IE_BITS_GEN (IE_BITS_GEN b) = IE_BITS_GEN b"
  by (simp add: IE_BITS_GEN_def and.assoc)

lemma unat_index_of_nat: "i < 2 ^ 24 \<Longrightarrow> unat (word_of_nat i :: 32 word) = i"
  by (simp add: unat_of_nat_len)

lemma name_of_index:
  assumes "i < 2 ^ 24"
  shows "unat (MACH_PORT_INDEX (MACH_PORT_MAKE (word_of_nat i) g)) = i"
    "MACH_PORT_GEN (MACH_PORT_MAKE (word_of_nat i) g) = IE_BITS_GEN g"
proof -
  have "(word_of_nat i :: 32 word) < 2 ^ 24"
    using assms by (simp add: word_less_nat_alt unat_index_of_nat)
  then show "unat (MACH_PORT_INDEX (MACH_PORT_MAKE (word_of_nat i) g)) = i"
    using assms by (simp only: INDEX_MAKE unat_index_of_nat)
  show "MACH_PORT_GEN (MACH_PORT_MAKE (word_of_nat i) g) = IE_BITS_GEN g"
    by (simp add: IE_BITS_GEN_def mach_consts)
qed

lemma name_valid:
  assumes "0 < i" "i < 2 ^ 24 - 1"
  shows "MACH_PORT_VALID (MACH_PORT_MAKE (word_of_nat i) g)"
proof -
  let ?n = "MACH_PORT_MAKE (word_of_nat i) g"
  have idx: "unat (MACH_PORT_INDEX ?n) = i" using name_of_index(1) [of i g] assms by simp
  have "unat (MACH_PORT_INDEX 0) = 0" "unat (MACH_PORT_INDEX 0xffffffff) = 2 ^ 24 - 1"
    by (simp_all add: unat_INDEX)
  then have "?n \<noteq> 0" "?n \<noteq> 0xffffffff" using assms idx by (metis less_irrefl)+
  then show ?thesis by (simp add: MACH_PORT_VALID_def mach_consts)
qed

lemma unat_name: "unat (MACH_PORT_MAKE (word_of_nat i) g) mod 256 = gen_num g"
  using gen_num_GEN(1) [of "MACH_PORT_MAKE (word_of_nat i) g"] IE_BITS_GEN_eq_iff [of "IE_BITS_GEN g" g]
  by (simp add: IE_BITS_GEN_def mach_consts)

lemma name_mask_gen_ok:
  assumes "gen_ok g"
  shows "ipc_entry_name_mask (MACH_PORT_MAKE (word_of_nat i) g) = MACH_PORT_MAKE (word_of_nat i) g"
proof -
  let ?n = "MACH_PORT_MAKE (word_of_nat i) g"
  have "unat ?n mod 4 = unat ?n mod 256 mod 4" by (simp add: mod_mod_cancel)
  also have "\<dots> = 3" using assms by (simp add: unat_name gen_ok_def)
  finally show ?thesis using name_mask_iff [of ?n] by simp
qed

lemma entry_name_facts:
  assumes "table_inv t xs" "0 < i" "i < length t"
  shows "unat (MACH_PORT_INDEX (entry_name t i)) = i"
    "MACH_PORT_GEN (entry_name t i) = IE_BITS_GEN (ie_bits (t ! i))"
    "MACH_PORT_VALID (entry_name t i)"
    "ipc_entry_name_mask (entry_name t i) = entry_name t i"
proof -
  have i: "i < 2 ^ 24 - 1" using assms by (simp add: table_inv_def)
  then have "i < 2 ^ 24" by simp
  then show "unat (MACH_PORT_INDEX (entry_name t i)) = i"
    "MACH_PORT_GEN (entry_name t i) = IE_BITS_GEN (ie_bits (t ! i))"
    unfolding entry_name_def MAKE_GEN by (simp_all only: name_of_index)
  show "MACH_PORT_VALID (entry_name t i)" unfolding entry_name_def by (rule name_valid [OF assms(2) i])
  show "ipc_entry_name_mask (entry_name t i) = entry_name t i"
    using assms unfolding entry_name_def MAKE_GEN by (intro name_mask_gen_ok) (simp add: table_inv_def)
qed

lemma name_eq_entry_name:
  assumes "unat (MACH_PORT_INDEX name) = i" "MACH_PORT_GEN name = IE_BITS_GEN (ie_bits (t ! i))"
  shows "name = entry_name t i"
proof -
  have "word_of_nat i = MACH_PORT_INDEX name" using assms(1) by auto
  then show ?thesis
    unfolding entry_name_def by (metis MAKE_INDEX_GEN assms(2))
qed


section \<open>Lookup\<close>

lemma ipc_entry_lookup_eq:
  assumes "space_inv sp t xs H"
  shows "ipc_entry_lookup sp name =
    Some (let i = unat (MACH_PORT_INDEX name)
          in if 0 < i \<and> i < length t \<and> IE_BITS_GEN (ie_bits (t ! i)) = MACH_PORT_GEN name \<and>
                IE_BITS_TYPE (ie_bits (t ! i)) \<noteq> MACH_PORT_TYPE_NONE
             then Some i else None)"
  using space_invD [OF assms] table_sized_head [of t]
  by (simp add: ipc_entry_lookup_def Let_def nth_opt_in kassert_bind mach_consts)

text \<open>A lookup finds an entry exactly by the name of that entry, and only if it is in use.\<close>

lemma ipc_entry_lookup_Some_iff:
  assumes inv: "space_inv sp t xs H"
  shows "ipc_entry_lookup sp name = Some (Some i) \<longleftrightarrow>
    0 < i \<and> i < length t \<and> name = entry_name t i \<and> IE_BITS_TYPE (ie_bits (t ! i)) \<noteq> MACH_PORT_TYPE_NONE"
proof (cases "0 < i \<and> i < length t")
  case True
  then show ?thesis
    using name_eq_entry_name [of name i t] entry_name_facts(1,2) [OF space_invD(3) [OF inv], of i]
    unfolding ipc_entry_lookup_eq [OF inv] Let_def by auto
next
  case False
  then show ?thesis unfolding ipc_entry_lookup_eq [OF inv] Let_def by auto
qed

lemma ipc_entry_lookup_None_iff:
  assumes inv: "space_inv sp t xs H"
  shows "ipc_entry_lookup sp name = Some None \<longleftrightarrow>
    (\<forall>i. 0 < i \<longrightarrow> i < length t \<longrightarrow> IE_BITS_TYPE (ie_bits (t ! i)) \<noteq> MACH_PORT_TYPE_NONE \<longrightarrow> name \<noteq> entry_name t i)"
proof -
  obtain r where r: "ipc_entry_lookup sp name = Some r" unfolding ipc_entry_lookup_eq [OF inv] by simp
  have "ipc_entry_lookup sp name = Some None \<longleftrightarrow> (\<forall>i. ipc_entry_lookup sp name \<noteq> Some (Some i))"
    unfolding r by (cases r) simp_all
  then show ?thesis unfolding ipc_entry_lookup_Some_iff [OF inv] by blast
qed


section \<open>Holding and claiming entries\<close>

lemma ipc_entries_hold_loop_eq:
  assumes "fl_path t i xs" "set xs \<subseteq> {1..<length t}" "\<forall>j\<in>set xs. ie_object (t ! j) = IO_NULL" "i < length t"
  shows "ipc_entries_hold_loop n t (length t) i = Some (n \<le> length xs)"
  using assms
proof (induction n arbitrary: i xs)
  case (Suc n)
  then show ?case by (cases xs) (auto simp: nth_opt_in kassert_bind Let_def)
qed simp

lemma ipc_space_check_limit_exceeded_spec:
  assumes "space_inv sp t xs H"
  shows "\<exists>b a. ipc_space_check_limit_exceeded sp = Some (sp\<lparr>is_bits := b, is_ast := a\<rparr>)"
proof -
  have "\<exists>b a. sp = sp\<lparr>is_bits := b, is_ast := a\<rparr>"
    by (intro exI [of _ "is_bits sp"] exI [of _ "is_ast sp"]) simp
  then show ?thesis
    using space_invD(1,4) [OF assms] table_sized_head(1)
    by (fastforce simp: ipc_space_check_limit_exceeded_def Let_def is_bits_set_def)
qed

lemma unat_free_count:
  assumes "space_inv sp t xs H"
  shows "unat (is_table_free sp) = length xs" "length xs < length t" "unat (is_table_hashed sp) = card H"
    "card H < length t" "unat (ie_size (t ! 0)) = length t"
proof -
  have len: "length t < 2 ^ 32" using space_invD(6) [OF assms] by simp
  have xs: "distinct xs" "set xs \<subseteq> {1..<length t}" "0 < length t"
    using space_invD(3,4) [OF assms] table_sized_head(3) by (auto simp: table_inv_def)
  then have "length xs \<le> card {1..<length t}"
    by (metis card_mono distinct_card finite_atLeastLessThan)
  then show less: "length xs < length t" using xs(3) by (simp only: card_atLeastLessThan)
  then show "unat (is_table_free sp) = length xs"
    using assms len by (simp add: space_inv_def unat_of_nat_len)
  have "H \<subseteq> {1..<length t}" using space_invD(5) [OF assms] by (simp add: hash_inv_def)
  then have "card H \<le> card {1..<length t}" by (intro card_mono) auto
  then show less: "card H < length t" using xs(3) by (simp only: card_atLeastLessThan)
  then show "unat (is_table_hashed sp) = card H"
    using assms len by (simp add: space_inv_def unat_of_nat_len)
  show "unat (ie_size (t ! 0)) = length t" using space_invD(4) [OF assms] by (simp add: table_sized_def)
qed

lemma ipc_entries_hold_spec:
  assumes inv: "space_inv sp t xs H" and n: "unat n < 2 ^ 24"
  shows "\<exists>sp' kr. ipc_entries_hold sp n = Some (sp', kr) \<and> space_inv sp' t xs H \<and>
    (kr = KERN_SUCCESS \<longleftrightarrow> card H + unat n \<le> length t * 7 div 8 \<and> unat n \<le> length xs) \<and>
    (kr \<noteq> KERN_SUCCESS \<longrightarrow> kr = KERN_NO_SPACE \<and> sp' = sp)"
proof -
  note cnt = unat_free_count [OF inv] and D = space_invD [OF inv]
  have "unat (is_table_hashed sp + n) = card H + unat n"
    using cnt D(6) n by (simp add: unat_word_ariths)
  moreover have "unat (ie_size (t ! 0) * 7 div 8) = length t * 7 div 8"
    using cnt D(6) by (simp add: unat_div unat_word_ariths)
  ultimately have full: "is_table_hashed sp + n > ie_size (t ! 0) * 7 div 8 \<longleftrightarrow>
      \<not> card H + unat n \<le> length t * 7 div 8"
    by (simp add: word_less_nat_alt not_le)
  have "ipc_entries_hold_loop (unat n) t (length t) 0 = Some (unat n \<le> length xs)"
    using D(3) table_sized_head(3) [OF D(4)]
    by (intro ipc_entries_hold_loop_eq) (auto simp: table_inv_def entry_unused_def)
  moreover obtain b a where "ipc_space_check_limit_exceeded sp = Some (sp\<lparr>is_bits := b, is_ast := a\<rparr>)"
    using ipc_space_check_limit_exceeded_spec [OF inv] by blast
  ultimately show ?thesis
    using D(1) table_sized_head(1,2) [OF D(4)] full inv
    by (simp add: ipc_entries_hold_def)
qed

text \<open>Entries that are free are not hashed.\<close>

lemma free_not_hashed: "space_inv sp t xs H \<Longrightarrow> i \<in> set xs \<Longrightarrow> i \<notin> H"
  by (auto simp: space_inv_def table_inv_def hash_inv_def entry_unused_def)

text \<open>Changing the capability fields of entries outside the hash keeps the hash.\<close>

lemma hash_inv_set_entry:
  assumes "hash_inv t H" "i < length t" "i \<notin> H \<or> ie_object e = ie_object (t ! i)"
    "ie_index e = ie_index (t ! i)" "ie_dist e = ie_dist (t ! i)"
  shows "hash_inv (t[i := e]) H" and "hash_exact t \<Longrightarrow> hash_exact (t[i := e])"
  using hash_inv_cong [OF assms(1), of "t[i := e]"] assms(2-) by (auto simp: nth_list_update)

definition claim_table :: "ipc_entry list \<Rightarrow> nat \<Rightarrow> ipc_object_t \<Rightarrow> ipc_entry_bits_t \<Rightarrow> ipc_entry list" where
  "claim_table t x object gen =
     t[0 := (t ! 0)\<lparr>ie_request := ie_next (t ! x)\<rparr>,
       x := (t ! x)\<lparr>ie_bits := gen, ie_request := IE_REQ_NONE, ie_object := object\<rparr>]"

lemma table_sized_upd:
  assumes "table_sized t" "0 < i \<or> ie_bits e = ie_bits (t ! i)" "i < length t"
  shows "table_sized (t[i := e])"
  using assms by (cases "i = 0") (auto simp: table_sized_def)

lemma table_inv_claim:
  assumes inv: "table_inv t (x # xs)" and g: "gen_ok g"
  shows "table_inv (claim_table t x object g) xs"
proof -
  let ?t = "claim_table t x object g"
  have x: "0 < x" "x < length t" "x \<notin> set xs" "0 \<notin> set xs" and len: "0 < length t"
    using inv table_sized_head(3) [OF table_inv_sized [OF inv]] by (auto simp: table_inv_def)
  have t0: "?t ! 0 = (t ! 0)\<lparr>ie_request := ie_next (t ! x)\<rparr>"
    and other: "\<And>i. i \<noteq> 0 \<Longrightarrow> i \<noteq> x \<Longrightarrow> ?t ! i = t ! i"
    using x len by (simp_all add: claim_table_def)
  have "fl_path t x xs" using inv by (simp add: table_inv_def)
  then have "fl_path ?t 0 xs"
  proof (cases xs)
    case (Cons y ys)
    have "fl_path ?t y ys = fl_path t y ys"
    proof (rule fl_path_cong)
      fix j assume "j = y \<or> j \<in> set ys"
      then have "j \<in> set xs" using Cons by auto
      then have "j \<noteq> 0" "j \<noteq> x" using x by metis+
      then show "ie_next (?t ! j) = ie_next (t ! j)" using other by simp
    qed
    then show ?thesis using \<open>fl_path t x xs\<close> Cons t0 by simp
  qed (simp add: t0)
  moreover have "\<forall>i\<in>set xs. entry_unused (?t ! i)"
    using inv x other by (metis insert_iff list.simps(15) table_inv_def)
  moreover have "\<forall>i. 0 < i \<longrightarrow> i < length ?t \<longrightarrow> gen_ok (ie_bits (?t ! i))"
    using inv g x by (auto simp: claim_table_def table_inv_def nth_list_update)
  moreover have "table_sized ?t"
    using inv x len by (auto simp: claim_table_def table_inv_def intro!: table_sized_upd)
  ultimately show ?thesis using inv by (auto simp: table_inv_def claim_table_def)
qed

lemma ipc_entry_claim_spec:
  assumes inv: "space_inv sp t (x # xs) H"
  obtains sp' roll where
    "ipc_entry_claim sp object =
       Some (sp', entry_name (claim_table t x object (ipc_entry_next_gen (ie_bits (t ! x)) roll)) x, x)"
    "space_inv sp' (claim_table t x object (ipc_entry_next_gen (ie_bits (t ! x)) roll)) xs H"
proof -
  note D = space_invD [OF inv]
  note head = table_sized_head [OF D(4)]
  have x: "0 < x" "x < length t" "x \<noteq> 0" "entry_unused (t ! x)"
    using fl_entry [OF D(3), of x] by auto
  have nx: "unat (ie_next (t ! 0)) = x" "fl_path t x xs"
    using D(3) by (auto simp: table_inv_def)
  have xH: "x \<notin> H" by (rule free_not_hashed [OF inv]) simp
  define draw where "draw = (if ipc_entry_gen_rolled (ie_bits (t ! x)) (ipc_entry_new_gen (ie_bits (t ! x)))
        then ipc_space_get_rollpoint (sp\<lparr>is_table_free := is_table_free sp - 1\<rparr>)
        else (sp\<lparr>is_table_free := is_table_free sp - 1\<rparr>, 0))"
  obtain sp1 roll where r: "draw = (sp1, roll)" by fastforce
  let ?g = "ipc_entry_next_gen (ie_bits (t ! x)) roll"
  let ?t = "claim_table t x object ?g"
  have rng: "rng_only (sp\<lparr>is_table_free := is_table_free sp - 1\<rparr>) sp1"
    using r rng_only_random [of "sp\<lparr>is_table_free := is_table_free sp - 1\<rparr>" 2] rng_only_refl
    by (auto simp: draw_def ipc_space_get_rollpoint_def split: if_splits)
  have g: "gen_ok ?g" using D(3) x by (intro gen_ok_next_gen) (simp add: table_inv_def)
  have less: "ie_next (t ! x) < ie_size (t ! 0)"
  proof (cases xs)
    case Nil
    then show ?thesis using nx head by (simp add: word_less_nat_alt)
  next
    case (Cons y ys)
    then show ?thesis using nx head fl_entry [OF D(3), of y] by (simp add: word_less_nat_alt)
  qed
  have name: "MACH_PORT_MAKE (word_of_nat x) ?g = entry_name ?t x"
    using x by (simp add: entry_name_def claim_table_def)
  have inv_t: "table_inv ?t xs" by (rule table_inv_claim [OF D(3) g])
  have valid: "MACH_PORT_VALID (MACH_PORT_MAKE (word_of_nat x) ?g)"
    unfolding name using entry_name_facts(3) [OF inv_t x(1)] x(2) by (simp add: claim_table_def)
  have eq: "ipc_entry_claim sp object = Some (sp1\<lparr>is_table := Some ?t\<rparr>, entry_name ?t x, x)"
    unfolding name [symmetric] using D(1) head nx x less valid r
    by (simp add: ipc_entry_claim_def nth_opt_in kassert_bind entry_unused_def claim_table_def Let_def
        draw_def [symmetric])
  have "0 \<notin> H" using D(5) by (auto simp: hash_inv_def)
  then have "hash_inv ?t H" "hash_exact ?t"
    by (intro hash_inv_cong(1) [OF D(5)] hash_inv_cong(2) [OF D(5) _ _ _ D(8)];
        use x xH head(3) in \<open>auto simp: claim_table_def nth_list_update\<close>)+
  then have "space_inv (sp1\<lparr>is_table := Some ?t\<rparr>) ?t xs H"
    using inv inv_t rng_only_fields [OF rng] unfolding space_inv_def by (simp add: claim_table_def)
  with eq show thesis by (rule that)
qed

text \<open>The name an entry gets differs from the one it had before.\<close>

lemma claim_name_fresh:
  assumes inv: "table_inv t (x # xs)"
  shows "entry_name (claim_table t x object (ipc_entry_next_gen (ie_bits (t ! x)) roll)) x \<noteq> entry_name t x"
proof
  let ?g = "ipc_entry_next_gen (ie_bits (t ! x)) roll"
  assume eq: "entry_name (claim_table t x object ?g) x = entry_name t x"
  have x: "0 < x" "x < length t" using fl_entry [OF inv, of x] by auto
  have "IE_BITS_GEN ?g = IE_BITS_GEN (ie_bits (t ! x))"
    using arg_cong [OF eq, of MACH_PORT_GEN] x
    by (simp add: entry_name_def claim_table_def IE_BITS_GEN_def mach_consts)
  then have "gen_num (ipc_entry_gens (ie_bits (t ! x)) [roll]) = gen_num (ie_bits (t ! x))"
    by (simp add: IE_BITS_GEN_eq_iff)
  moreover have "gen_ok (ie_bits (t ! x))" using inv x by (simp add: table_inv_def)
  ultimately show False using ipc_entry_gens_fresh [of "ie_bits (t ! x)" "[roll]"] by simp
qed


section \<open>Deallocation\<close>

lemma ipc_entry_modified_spec:
  assumes "is_table sp = Some t" "table_sized t" "unat (is_low_mod sp) \<le> length t" "unat (is_high_mod sp) < length t"
    and "i < length t" "unat (MACH_PORT_INDEX name) = i"
  obtains l h where "ipc_entry_modified sp name i = Some (sp\<lparr>is_low_mod := l, is_high_mod := h\<rparr>)"
    "unat l \<le> i" "i \<le> unat h" "unat l \<le> unat (is_low_mod sp)" "unat (is_high_mod sp) \<le> unat h" "unat h < length t"
proof -
  let ?l = "if i < unat (is_low_mod sp) then word_of_nat i else is_low_mod sp"
  let ?h = "if i > unat (is_high_mod sp) then word_of_nat i else is_high_mod sp"
  have i: "unat (word_of_nat i :: 32 word) = i"
    using assms(5) table_sized_bounds [OF assms(2)] by (intro unat_of_nat_len) simp
  have "ipc_entry_modified sp name i = Some (sp\<lparr>is_low_mod := ?l, is_high_mod := ?h\<rparr>)"
    using assms table_sized_head [OF assms(2)]
    by (simp add: ipc_entry_modified_def is_active_table_def kassert_bind Let_def)
  then show thesis by (rule that) (use assms i in auto)
qed

definition dealloc_table :: "ipc_entry list \<Rightarrow> nat \<Rightarrow> ipc_entry list" where
  "dealloc_table t i =
     t[i := (t ! i)\<lparr>ie_bits := ie_bits (t ! i) AND (IE_BITS_GEN_MASK OR IE_BITS_ROLL_MASK),
                     ie_request := ie_next (t ! 0), ie_object := IO_NULL\<rparr>,
       0 := (t ! 0)\<lparr>ie_request := word_of_nat i\<rparr>]"

lemma table_inv_dealloc:
  assumes inv: "table_inv t xs" and i: "0 < i" "i < length t" "i \<notin> set xs"
  shows "table_inv (dealloc_table t i) (i # xs)"
proof -
  let ?t = "dealloc_table t i"
  have len: "0 < length t" "0 \<notin> set xs" "length t < 2 ^ 32"
    using i inv table_sized_bounds by (auto simp: table_inv_def)
  have t0: "?t ! 0 = (t ! 0)\<lparr>ie_request := word_of_nat i\<rparr>"
    and ti: "?t ! i = (t ! i)\<lparr>ie_bits := ie_bits (t ! i) AND (IE_BITS_GEN_MASK OR IE_BITS_ROLL_MASK),
                     ie_request := ie_next (t ! 0), ie_object := IO_NULL\<rparr>"
    and other: "\<And>j. j \<noteq> 0 \<Longrightarrow> j \<noteq> i \<Longrightarrow> ?t ! j = t ! j"
    using i len by (simp_all add: dealloc_table_def)
  have "fl_path t 0 xs" using inv by (simp add: table_inv_def)
  then have "fl_path ?t i xs"
  proof (cases xs)
    case (Cons y ys)
    have "fl_path ?t y ys = fl_path t y ys"
    proof (rule fl_path_cong)
      fix j assume "j = y \<or> j \<in> set ys"
      then have "j \<in> set xs" using Cons by auto
      then have "j \<noteq> 0" "j \<noteq> i" using i len by metis+
      then show "ie_next (?t ! j) = ie_next (t ! j)" using other by simp
    qed
    then show ?thesis using \<open>fl_path t 0 xs\<close> Cons ti by simp
  qed (simp add: ti)
  moreover have "unat (ie_next (?t ! 0)) = i" using i len by (simp add: t0 unat_of_nat_len)
  moreover have "\<forall>j\<in>set (i # xs). entry_unused (?t ! j)"
  proof
    fix j assume j: "j \<in> set (i # xs)"
    show "entry_unused (?t ! j)"
    proof (cases "j = i")
      case True
      then show ?thesis by (simp add: ti entry_unused_def and.assoc)
    next
      case False
      then have "j \<in> set xs" using j by simp
      then have "j \<in> set xs" "j \<noteq> 0" using len by metis+
      then show ?thesis using inv False other by (simp add: table_inv_def)
    qed
  qed
  moreover have "gen_ok (ie_bits (?t ! j))" if "0 < j" "j < length t" for j
  proof (cases "j = i")
    case True
    have "(ie_bits (t ! i) AND 0xffc00000) AND 0xffc00000 = ie_bits (t ! i) AND 0xffc00000"
      by (simp add: and.assoc)
    then show ?thesis
      using inv i True gen_ok_cong(1) [of "ie_bits (t ! i) AND 0xffc00000" "ie_bits (t ! i)"]
      by (simp add: ti mach_consts table_inv_def)
  next
    case False
    then show ?thesis using inv that other by (simp add: table_inv_def)
  qed
  moreover have "table_sized ?t"
    unfolding dealloc_table_def using inv i len by (auto simp: table_inv_def intro!: table_sized_upd)
  ultimately show ?thesis using inv i by (auto simp: table_inv_def dealloc_table_def)
qed

lemma ipc_entry_dealloc_spec:
  assumes inv: "space_inv sp t xs H" and i: "0 < i" "i < length t" "i \<notin> set xs" "i \<notin> H"
    and req: "ie_request (t ! i) = IE_REQ_NONE"
  obtains sp' where "ipc_entry_dealloc sp (ie_object (t ! i)) (entry_name t i) i = Some sp'"
    "space_inv sp' (dealloc_table t i) (i # xs) H"
proof -
  note D = space_invD [OF inv]
  note head = table_sized_head [OF D(4)] and name = entry_name_facts [OF D(3) i(1,2)]
  let ?t = "dealloc_table t i"
  let ?sp = "sp\<lparr>is_table := Some ?t, is_table_free := is_table_free sp + 1\<rparr>"
  have inv_t: "table_inv ?t (i # xs)" by (rule table_inv_dealloc [OF D(3) i(1-3)])
  have len: "length ?t = length t" by (simp add: dealloc_table_def)
  obtain l h where lh: "ipc_entry_modified ?sp (entry_name t i) i = Some (?sp\<lparr>is_low_mod := l, is_high_mod := h\<rparr>)"
      "unat l \<le> i" "unat h < length t"
  proof (rule ipc_entry_modified_spec [of ?sp ?t i "entry_name t i"])
    show "table_sized ?t" by (rule table_inv_sized [OF inv_t])
  qed (use inv i name len in \<open>auto simp: space_inv_def\<close>)
  have eq: "ipc_entry_dealloc sp (ie_object (t ! i)) (entry_name t i) i = Some (?sp\<lparr>is_low_mod := l, is_high_mod := h\<rparr>)"
    unfolding lh(1) [symmetric]
    using D(1) head name i req
    by (simp add: ipc_entry_dealloc_def nth_opt_in kassert_bind Let_def dealloc_table_def)
  have "0 \<notin> H" using D(5) by (auto simp: hash_inv_def)
  then have "hash_inv ?t H" "hash_exact ?t"
    by (intro hash_inv_cong(1) [OF D(5)] hash_inv_cong(2) [OF D(5) _ _ _ D(8)];
        use i head(3) in \<open>auto simp: dealloc_table_def nth_list_update\<close>)+
  then have "space_inv (?sp\<lparr>is_low_mod := l, is_high_mod := h\<rparr>) ?t (i # xs) H"
    using inv inv_t lh i len unfolding space_inv_def by (simp add: add.commute)
  with eq show thesis by (rule that)
qed


section \<open>Taking a given entry off the free list\<close>

lemma ipc_entry_find_prev_spec:
  assumes "fl_path t i (as @ x # bs)" "x \<notin> set as" "i < length t" "set as \<subseteq> {..<length t}" "length as < fuel"
  shows "ipc_entry_find_prev fuel t x i = Some (last (i # as))"
  using assms
proof (induction as arbitrary: i fuel)
  case Nil
  then show ?case by (cases fuel) (auto simp: nth_opt_in)
next
  case (Cons a as)
  then obtain f where f: "fuel = Suc f" by (cases fuel) auto
  have "ipc_entry_find_prev f t x a = Some (last (a # as))"
    by (rule Cons.IH) (use Cons.prems f in auto)
  then show ?case using Cons.prems f by (auto simp: nth_opt_in)
qed

lemma fl_path_remove:
  assumes "fl_path t i (as @ x # bs)" "distinct (i # as @ x # bs)" "last (i # as) < length t"
  shows "fl_path (t[last (i # as) := (t ! last (i # as))\<lparr>ie_request := ie_next (t ! x)\<rparr>]) i (as @ bs)"
  using assms
proof (induction as arbitrary: i)
  case Nil
  then show ?case by (cases bs) (auto simp: fl_path_upd)
next
  case (Cons a as)
  let ?l = "last (a # as)"
  have "i \<noteq> ?l" using Cons.prems(2) last_in_set [of "a # as"] by auto
  moreover have "fl_path (t[?l := (t ! ?l)\<lparr>ie_request := ie_next (t ! x)\<rparr>]) a (as @ bs)"
    by (rule Cons.IH) (use Cons.prems in auto)
  ultimately show ?case using Cons.prems by simp
qed

definition alloc_name_table :: "ipc_entry list \<Rightarrow> nat \<Rightarrow> nat \<Rightarrow> mach_port_gen_t \<Rightarrow> ipc_entry list" where
  "alloc_name_table t p x gen =
     t[p := (t ! p)\<lparr>ie_request := ie_next (t ! x)\<rparr>, x := (t ! x)\<lparr>ie_bits := gen, ie_request := IE_REQ_NONE\<rparr>]"

lemma ipc_entry_alloc_name_free_spec:
  assumes inv: "space_inv sp t (as @ x # bs) H" and g: "gen_ok g"
  obtains sp' where "ipc_entry_alloc_name_free sp t x g = Some sp'"
    "space_inv sp' (alloc_name_table t (last (0 # as)) x g) (as @ bs) H"
proof -
  note D = space_invD [OF inv]
  note head = table_sized_head [OF D(4)]
  let ?xs = "as @ x # bs" and ?p = "last (0 # as)"
  let ?t1 = "t[?p := (t ! ?p)\<lparr>ie_request := ie_next (t ! x)\<rparr>]" and ?t = "alloc_name_table t ?p x g"
  have fl: "fl_path t 0 ?xs" "distinct ?xs" "set ?xs \<subseteq> {1..<length t}" "\<forall>i\<in>set ?xs. entry_unused (t ! i)"
    using D(3) by (simp_all add: table_inv_def)
  have x: "0 < x" "x < length t" "x \<notin> set as" "x \<notin> set bs" "x \<notin> H" "entry_unused (t ! x)"
    using fl free_not_hashed [OF inv, of x] by auto
  have "?p = 0 \<or> ?p \<in> set as" by (cases as rule: rev_cases) auto
  then have p: "?p < length t" "?p \<noteq> x" using fl x head(3) by auto
  have "card (set as) \<le> card {1..<length t}" using fl(3) by (intro card_mono) auto
  then have fuel: "length as < length t"
    using fl(2) head(3) by (simp only: card_atLeastLessThan distinct_append distinct_card)
  have "ipc_entry_find_prev (length t) t x 0 = Some ?p"
    using fl x fuel by (intro ipc_entry_find_prev_spec [of t 0 as x bs]) auto
  moreover obtain l h where lh: "ipc_entry_modified (sp\<lparr>is_table_free := is_table_free sp - 1, is_table := Some ?t1\<rparr>)
        (MACH_PORT_MAKE (word_of_nat ?p) (IE_BITS_GEN (ie_bits (t ! ?p)))) ?p =
      Some (sp\<lparr>is_table_free := is_table_free sp - 1, is_table := Some ?t1, is_low_mod := l, is_high_mod := h\<rparr>)"
    "unat l \<le> length t" "unat h < length t"
  proof (rule ipc_entry_modified_spec [of "sp\<lparr>is_table_free := is_table_free sp - 1, is_table := Some ?t1\<rparr>" ?t1
        ?p "MACH_PORT_MAKE (word_of_nat ?p) (IE_BITS_GEN (ie_bits (t ! ?p)))"])
    show "unat (MACH_PORT_INDEX (MACH_PORT_MAKE (word_of_nat ?p) (IE_BITS_GEN (ie_bits (t ! ?p))))) = ?p"
      using p(1) D(6) by (intro name_of_index(1)) simp
    show "table_sized ?t1" using D(4) p by (intro table_sized_upd) auto
  qed (use inv p in \<open>auto simp: space_inv_def\<close>)
  ultimately have eq: "ipc_entry_alloc_name_free sp t x g =
      Some (sp\<lparr>is_table_free := is_table_free sp - 1, is_table := Some ?t, is_low_mod := l, is_high_mod := h\<rparr>)"
    using x p by (simp add: ipc_entry_alloc_name_free_def nth_opt_in kassert_bind Let_def
        alloc_name_table_def entry_unused_def)
  have other: "?t ! j = t ! j" if "j \<noteq> x" "j \<noteq> ?p" for j
    using that by (simp add: alloc_name_table_def)
  have "fl_path ?t1 0 (as @ bs)" using fl p by (intro fl_path_remove) auto
  moreover have "fl_path ?t 0 (as @ bs) = fl_path ?t1 0 (as @ bs)"
    unfolding alloc_name_table_def by (rule fl_path_upd) (use x in auto)
  moreover have unused: "entry_unused (?t ! j)" if "j \<in> set (as @ bs)" for j
  proof -
    have "entry_unused (t ! j)" "j \<noteq> x" using that fl x by auto
    then show ?thesis using p by (cases "j = ?p") (auto simp: alloc_name_table_def entry_unused_def)
  qed
  moreover have "gen_ok (ie_bits (?t ! j))" if "0 < j" "j < length t" for j
    using that D(3) g p x by (auto simp: table_inv_def alloc_name_table_def nth_list_update)
  moreover have "table_sized ?t"
    unfolding alloc_name_table_def using D(4) p x by (intro table_sized_upd) auto
  ultimately have inv_t: "table_inv ?t (as @ bs)"
    using D(3) fl by (auto simp: table_inv_def alloc_name_table_def)
  have "hash_inv ?t H" "hash_exact ?t"
    by (intro hash_inv_cong(1) [OF D(5)] hash_inv_cong(2) [OF D(5) _ _ _ D(8)];
        use x p in \<open>auto simp: alloc_name_table_def nth_list_update\<close>)+
  then have "space_inv (sp\<lparr>is_table_free := is_table_free sp - 1, is_table := Some ?t, is_low_mod := l, is_high_mod := h\<rparr>)
      ?t (as @ bs) H"
    using inv inv_t lh unfolding space_inv_def by (simp add: alloc_name_table_def)
  with eq show thesis by (rule that)
qed

end
