(* ===== verification/Ipc_Grow.thy ===== *)
theory Ipc_Grow
imports Ipc_Entry
begin

text \<open>
  Growing a capability table and allocating from it: the lemmas about \<open>ipc_entry_grow_table\<close>,
  \<open>ipc_entry_alloc\<close> and \<open>ipc_entry_alloc_name\<close>.  The copy is followed entry by entry; the result
  has every capability under its old name, the send rights rehashed, and the fresh entries linked
  behind the old free list.
\<close>

section \<open>Growing keeps every capability\<close>

text \<open>\<open>sends t\<close> are the entries of pure send rights; in a quiescent space exactly these are hashed.\<close>

definition sends :: "ipc_entry list \<Rightarrow> nat set" where
  "sends t = {i. 0 < i \<and> i < length t \<and> ie_object (t ! i) \<noteq> IO_NULL \<and>
     IE_BITS_TYPE (ie_bits (t ! i)) = MACH_PORT_TYPE_SEND}"

definition same_cap :: "ipc_entry \<Rightarrow> ipc_entry \<Rightarrow> bool" where
  "same_cap e e' \<longleftrightarrow> ie_object e' = ie_object e \<and> ie_bits e' = ie_bits e \<and> ie_request e' = ie_request e"

text \<open>
  The state of the copy before entry \<open>k\<close> is looked at: the entries below \<open>k\<close> are copied and their
  send rights hashed, those from \<open>k\<close> to the old size are still clear, the rest is as in the fresh
  table \<open>base\<close>.
\<close>

definition scan_inv :: "ipc_entry list \<Rightarrow> ipc_entry list \<Rightarrow> nat \<Rightarrow> ipc_entry list \<Rightarrow> bool" where
  "scan_inv ot base k t \<longleftrightarrow>
     length t = length base \<and> hash_inv t {i \<in> sends ot. i < k} \<and> same_cap (base ! 0) (t ! 0) \<and>
     (\<forall>i. 0 < i \<longrightarrow> i < k \<longrightarrow> same_cap (ot ! i) (t ! i)) \<and>
     (\<forall>i. k \<le> i \<longrightarrow> i < length ot \<longrightarrow> ie_object (t ! i) = 0 \<and> ie_bits (t ! i) = 0) \<and>
     (\<forall>i. length ot \<le> i \<longrightarrow> i < length base \<longrightarrow> same_cap (base ! i) (t ! i))"

lemma same_cap_refl [simp]: "same_cap e e"
  by (simp add: same_cap_def)

lemma same_cap_trans: "same_cap a b \<Longrightarrow> same_cap b c \<Longrightarrow> same_cap a c"
  by (simp add: same_cap_def)

lemma same_caps_same_cap: "same_caps t t' \<Longrightarrow> i < length t \<Longrightarrow> same_cap (t ! i) (t' ! i)"
  by (simp add: same_caps_def same_cap_def)

lemma scan_inv_sized:
  "scan_inv ot base k t \<Longrightarrow> table_sized base \<Longrightarrow> table_sized t"
  by (simp add: scan_inv_def table_sized_def same_cap_def)

text \<open>One round of the copy.\<close>

lemma grow_scan_step:
  assumes inv: "scan_inv ot base k t" and sz: "table_sized base" "length ot \<le> length base"
    and k: "0 < k" "k < length ot" and inj: "inj_on (\<lambda>i. ie_object (ot ! i)) (sends ot)"
  obtains t' where "ipc_entry_grow_scan (Suc n) k ot t = ipc_entry_grow_scan n (Suc k) ot t'"
    "scan_inv ot base (Suc k) t'"
proof -
  have len: "length t = length base" and kt: "k < length t" using inv sz(2) k by (auto simp: scan_inv_def)
  have tk: "ie_object (t ! k) = 0" "ie_bits (t ! k) = 0" using inv k by (auto simp: scan_inv_def)
  note tsz = scan_inv_sized [OF inv sz(1)]
  let ?o = "ot ! k"
  let ?e = "(t ! k)\<lparr>ie_object := ie_object ?o, ie_bits := ie_bits ?o, ie_request := ie_request ?o\<rparr>"
  define t1 where "t1 = t[k := ?e]"
  have h: "hash_inv t {i \<in> sends ot. i < k}" using inv by (simp add: scan_inv_def)
  have h1: "hash_inv t1 {i \<in> sends ot. i < k}"
    unfolding t1_def using h kt by (intro hash_inv_set_entry(1)) auto
  have sz1: "table_sized t1" unfolding t1_def using tsz k kt by (intro table_sized_upd) auto
  have len1: "length t1 = length base" using len by (simp add: t1_def)
  have caps1: "same_cap (base ! 0) (t1 ! 0)" "\<And>i. 0 < i \<Longrightarrow> i < Suc k \<Longrightarrow> same_cap (ot ! i) (t1 ! i)"
    "\<And>i. Suc k \<le> i \<Longrightarrow> i < length ot \<Longrightarrow> ie_object (t1 ! i) = 0 \<and> ie_bits (t1 ! i) = 0"
    "\<And>i. length ot \<le> i \<Longrightarrow> i < length base \<Longrightarrow> same_cap (base ! i) (t1 ! i)"
    using inv k kt by (auto simp: t1_def scan_inv_def less_Suc_eq same_cap_def)
  have t1k: "ie_object (t1 ! k) = ie_object ?o" using kt by (simp add: t1_def)
  show thesis
  proof (cases "k \<in> sends ot")
    case True
    have set: "{i \<in> sends ot. i < Suc k} = insert k {i \<in> sends ot. i < k}" using True by (auto simp: less_Suc_eq)
    have obj: "ie_object ?o \<noteq> 0" "IE_BITS_TYPE (ie_bits ?o) = MACH_PORT_TYPE_SEND"
      using True by (auto simp: sends_def mach_consts)
    have ne: "ie_object (t1 ! j) \<noteq> ie_object ?o" if "j \<in> {i \<in> sends ot. i < k}" for j
    proof -
      have "0 < j" "j < Suc k" using that by (auto simp: sends_def)
      then have "ie_object (t1 ! j) = ie_object (ot ! j)" using caps1(2) by (simp add: same_cap_def)
      then show ?thesis using inj that True unfolding inj_on_def by auto
    qed
    obtain t' where t': "ipc_hash_table_insert t1 (ie_object (t1 ! k)) k k = Some t'"
        "same_caps t1 t'" "hash_inv t' (insert k {i \<in> sends ot. i < k})"
      by (rule ipc_hash_table_insert_spec [OF sz1 h1 k(1)])
        (use kt len len1 obj ne t1k in \<open>auto simp: mach_consts\<close>)
    have "ipc_entry_grow_scan (Suc n) k ot t = ipc_entry_grow_scan n (Suc k) ot t'"
      using tk obj t'(1) kt k unfolding t1k by (simp add: nth_opt_in mach_consts Let_def t1_def)
    moreover have "scan_inv ot base (Suc k) t'"
    proof -
      have eq: "same_cap (t1 ! i) (t' ! i)" if "i < length base" for i
        using same_caps_same_cap [OF t'(2)] that len1 by simp
      have "same_cap (base ! 0) (t' ! 0)"
        by (rule same_cap_trans [OF caps1(1) eq]) (use k sz(2) in linarith)
      moreover have "\<And>i. 0 < i \<Longrightarrow> i < Suc k \<Longrightarrow> same_cap (ot ! i) (t' ! i)"
        by (rule same_cap_trans [OF caps1(2) eq]) (use k sz(2) in linarith)+
      moreover have "\<And>i. length ot \<le> i \<Longrightarrow> i < length base \<Longrightarrow> same_cap (base ! i) (t' ! i)"
        using same_cap_trans [OF caps1(4) eq] by blast
      moreover have "\<And>i. Suc k \<le> i \<Longrightarrow> i < length ot \<Longrightarrow> ie_object (t' ! i) = 0 \<and> ie_bits (t' ! i) = 0"
        using caps1(3) eq sz(2) by (simp add: same_cap_def)
      moreover have "length t' = length base" using same_caps_length [OF t'(2)] len1 by simp
      ultimately show ?thesis using t'(3) unfolding scan_inv_def set by blast
    qed
    ultimately show thesis by (rule that)
  next
    case False
    then have set: "{i \<in> sends ot. i < Suc k} = {i \<in> sends ot. i < k}" by (auto simp: less_Suc_eq)
    have nosend: "\<not> (ie_object ?o \<noteq> 0 \<and> IE_BITS_TYPE (ie_bits ?o) = MACH_PORT_TYPE_SEND)"
      using False k by (auto simp: sends_def mach_consts)
    have "ipc_entry_grow_scan (Suc n) k ot t = ipc_entry_grow_scan n (Suc k) ot t1"
    proof (cases "ie_object ?o = 0 \<and> IE_BITS_TYPE (ie_bits ?o) = 0")
      case True
      then have "t1 = t[k := (t ! k)\<lparr>ie_bits := ie_bits ?o, ie_request := ie_request ?o\<rparr>]"
        unfolding t1_def using tk by (intro arg_cong [of _ _ "\<lambda>e. t[k := e]"] ipc_entry.equality) auto
      then show ?thesis using True tk kt k by (simp add: nth_opt_in IE_BITS_TYPE_def)
    next
      case False
      then show ?thesis using nosend tk kt k
        by (auto simp: nth_opt_in mach_consts IE_BITS_TYPE_def Let_def t1_def)
    qed
    moreover have "scan_inv ot base (Suc k) t1"
      using h1 caps1 len1 unfolding scan_inv_def set by blast
    ultimately show thesis by (rule that)
  qed
qed

lemma grow_scan_spec:
  assumes "scan_inv ot base k t" "table_sized base" "length ot \<le> length base" "0 < k" "k + n \<le> length ot"
    "inj_on (\<lambda>i. ie_object (ot ! i)) (sends ot)"
  shows "\<exists>t'. ipc_entry_grow_scan n k ot t = Some t' \<and> scan_inv ot base (k + n) t'"
  using assms
proof (induction n arbitrary: k t)
  case (Suc n)
  then obtain t' where "ipc_entry_grow_scan (Suc n) k ot t = ipc_entry_grow_scan n (Suc k) ot t'"
    "scan_inv ot base (Suc k) t'"
    using grow_scan_step [OF Suc.prems(1-4) _ Suc.prems(6), of n] by auto
  then show ?case using Suc.IH [of "Suc k" t'] Suc.prems by auto
qed simp

lemma grow_tail_spec:
  assumes "fl_path t i xs" "set xs \<subseteq> {..<osize}" "osize \<le> length t" "i < length t" "length xs \<le> n"
    "ie_object (t ! i) = IO_NULL" "\<forall>j\<in>set xs. ie_object (t ! j) = IO_NULL"
  shows "ipc_entry_grow_tail n t osize i = Some (last (i # xs))"
  using assms
proof (induction xs arbitrary: i n)
  case Nil
  then show ?case by (cases n) (auto simp: nth_opt_in)
next
  case (Cons x xs)
  then obtain m where m: "n = Suc m" by (cases n) auto
  have "ipc_entry_grow_tail m t osize x = Some (last (x # xs))"
    by (rule Cons.IH) (use Cons.prems m in auto)
  then show ?case using Cons.prems m by (auto simp: nth_opt_in Let_def)
qed

lemma fl_path_join:
  assumes "fl_path t i xs" "fl_path t y ys" "0 < y" "y < 2 ^ 32" "distinct (i # xs @ y # ys)"
    "last (i # xs) < length t"
  shows "fl_path (t[last (i # xs) := (t ! last (i # xs))\<lparr>ie_request := word_of_nat y\<rparr>]) i (xs @ y # ys)"
  using assms
proof (induction xs arbitrary: i)
  case Nil
  then show ?case by (auto simp: fl_path_upd unat_of_nat_len)
next
  case (Cons x xs)
  let ?l = "last (x # xs)"
  have "i \<noteq> ?l" using Cons.prems(5) last_in_set [of "x # xs"] by auto
  moreover have "fl_path (t[?l := (t ! ?l)\<lparr>ie_request := word_of_nat y\<rparr>]) x (xs @ y # ys)"
    by (rule Cons.IH) (use Cons.prems in auto)
  ultimately show ?case using Cons.prems by simp
qed

lemma grow_find_spec:
  assumes "1 \<le> its" "its \<le> 255" "256 - its < fuel"
  shows "\<exists>its'. ipc_entry_grow_find fuel target (ipc_table_entries ! (its - 1)) its (ipc_table_entries ! its) =
      Some (ipc_table_entries ! (its' - 1), its', ipc_table_entries ! its') \<and> its \<le> its' \<and> its' \<le> 255 \<and>
      (ipc_table_entries ! (its' - 1) = ipc_table_entries ! its' \<or> target \<le> ipc_table_entries ! its')"
  using assms
proof (induction fuel arbitrary: its)
  case (Suc fuel)
  show ?case
  proof (cases "ipc_table_entries ! (its - 1) \<noteq> ipc_table_entries ! its \<and> target > ipc_table_entries ! its")
    case True
    then have "its \<noteq> 255" by auto
    then have its: "1 \<le> its + 1" "its + 1 \<le> 255" "256 - (its + 1) < fuel" using Suc.prems by auto
    from Suc.IH [OF its] True its show ?thesis
      by (auto simp: nth_opt_in intro: Suc_leD)
  next
    case False
    then show ?thesis using Suc.prems by (intro exI [of _ its]) auto
  qed
qed simp

lemma hash_inv_empty:
  assumes "0 < length t" "\<And>s. s < length t \<Longrightarrow> ie_index (t ! s) = 0"
  shows "hash_inv t {}"
proof -
  have zero: "hslot t s = 0" if "s < length t" for s using assms(2) [OF that] by (simp add: hslot_def)
  then have set: "{h. h < length t \<and> hslot t h \<noteq> 0} = {}" by auto
  have "bij_betw (hslot t) {h. h < length t \<and> hslot t h \<noteq> 0} {}"
    unfolding set by (simp add: bij_betw_def)
  then show ?thesis
    using assms(1) zero unfolding hash_inv_def rh_wf_def by (simp add: hhome_def IH_TABLE_HASH_def)
qed

lemma fl_path_last: "fl_path t i xs \<Longrightarrow> ie_next (t ! last (i # xs)) = 0"
  by (induction xs arbitrary: i) auto

lemma gen_ok_fresh: "gen_ok IE_BITS_GEN_MASK"
  by (simp add: gen_ok_def gen_num_def roll_num_def mach_consts)

definition grown :: "ipc_entry list \<Rightarrow> nat list \<Rightarrow> ipc_entry list \<Rightarrow> nat list \<Rightarrow> bool" where
  "grown ot xs t' ys \<longleftrightarrow> length ot < length t' \<and> set ys = {length ot..<length t'} \<and>
     (\<forall>i. 0 < i \<longrightarrow> i < length ot \<longrightarrow> ie_object (t' ! i) = ie_object (ot ! i) \<and>
        ie_bits (t' ! i) = ie_bits (ot ! i) \<and> (i \<notin> set xs \<longrightarrow> ie_request (t' ! i) = ie_request (ot ! i)))"

text \<open>The new table, copied, with the fresh entries linked behind the old free list.\<close>

lemma grow_link:
  assumes ot: "table_inv ot xs" and base: "table_sized base" "length base \<le> 299349" "length ot < length base"
    "fl_path base (length ot) ys" "distinct ys" "set ys = {length ot<..<length base}"
    "\<And>s. length ot \<le> s \<Longrightarrow> s < length base \<Longrightarrow>
       \<exists>nx. base ! s = ipc_entry_zero\<lparr>ie_bits := IE_BITS_GEN_MASK, ie_request := nx\<rparr>"
    "ie_object (base ! 0) = 0"
    and scan: "scan_inv ot base (length ot) t"
  defines "t0 \<equiv> t[0 := (t ! 0)\<lparr>ie_request := ie_next (ot ! 0)\<rparr>]"
  defines "p \<equiv> last (0 # xs)"
  defines "t' \<equiv> t0[p := (t0 ! p)\<lparr>ie_request := word_of_nat (length ot)\<rparr>]"
  shows "ipc_entry_grow_tail (length ot) t0 (length ot) 0 = Some p" "p < length t0"
    "ie_next (t0 ! p) = 0 \<and> ie_object (t0 ! p) = IO_NULL"
    "table_inv t' (xs @ length ot # ys)" "grown ot xs t' (length ot # ys)" "hash_inv t' (sends ot)"
proof -
  let ?n = "length ot"
  have xs: "fl_path ot 0 xs" "distinct xs" "set xs \<subseteq> {1..<?n}" "\<forall>i\<in>set xs. entry_unused (ot ! i)" "1 < ?n"
    using ot table_sized_head(4) by (auto simp: table_inv_def)
  have len: "length t = length base" "length t0 = length base" "length t' = length base"
    using scan by (simp_all add: scan_inv_def t0_def t'_def)
  have old: "same_cap (ot ! i) (t0 ! i)" if "0 < i" "i < ?n" for i
    using scan that by (simp add: scan_inv_def t0_def)
  have new: "same_cap (base ! i) (t0 ! i)" if "?n \<le> i" "i < length base" for i
    using scan that xs(5) by (auto simp: scan_inv_def t0_def)
  have "0 < length t" using len base(3) by linarith
  then have "t0 ! 0 = (t ! 0)\<lparr>ie_request := ie_next (ot ! 0)\<rparr>" by (simp add: t0_def)
  moreover have "same_cap (base ! 0) (t ! 0)" using scan by (simp add: scan_inv_def)
  ultimately have t00: "t0 ! 0 = (t ! 0)\<lparr>ie_request := ie_next (ot ! 0)\<rparr>" "same_cap (base ! 0) (t ! 0)" .
  have "fl_path t0 0 xs = fl_path ot 0 xs"
  proof (rule fl_path_cong)
    fix j assume "j = 0 \<or> j \<in> set xs"
    then have "j = 0 \<or> 0 < j \<and> j < ?n" using xs(3) by auto
    then show "ie_next (t0 ! j) = ie_next (ot ! j)" using t00(1) old [of j] by (auto simp: same_cap_def)
  qed
  then have path: "fl_path t0 0 xs" using xs(1) by simp
  have unused: "entry_unused (t0 ! j)" if "j \<in> set xs" for j
    using that xs(3,4) old [of j] by (auto simp: entry_unused_def same_cap_def)
  have obj0: "ie_object (t0 ! 0) = IO_NULL" using t00 base(8) by (simp add: same_cap_def mach_consts)
  have "card (set xs) \<le> card {1..<?n}" using xs(3) by (intro card_mono) auto
  then have "length xs \<le> ?n" using xs(2) by (simp add: distinct_card)
  then show "ipc_entry_grow_tail ?n t0 ?n 0 = Some p"
    unfolding p_def using path xs(3) base(3) len obj0 unused
    by (intro grow_tail_spec) (auto simp: entry_unused_def)
  have p: "p = 0 \<or> p \<in> set xs" unfolding p_def by (cases xs rule: rev_cases) auto
  then show pl: "p < length t0" using xs(3) base(3) len by auto
  show "ie_next (t0 ! p) = 0 \<and> ie_object (t0 ! p) = IO_NULL"
    using fl_path_last [OF path] p obj0 unused by (auto simp: p_def entry_unused_def)
  have other: "t' ! j = t0 ! j" if "j \<noteq> p" for j using that by (simp add: t'_def)
  have tp: "t' ! p = (t0 ! p)\<lparr>ie_request := word_of_nat ?n\<rparr>" using pl by (simp add: t'_def)
  have bits: "ie_bits (t' ! j) = ie_bits (t0 ! j)" "ie_object (t' ! j) = ie_object (t0 ! j)"
    "ie_index (t' ! j) = ie_index (t0 ! j)" "ie_dist (t' ! j) = ie_dist (t0 ! j)" for j
    using other [of j] tp by (cases "j = p"; simp)+
  have "fl_path t0 ?n ys = fl_path base ?n ys"
  proof (rule fl_path_cong)
    fix j assume "j = ?n \<or> j \<in> set ys"
    then have "?n \<le> j" "j < length base" using base(3,6) by auto
    then show "ie_next (t0 ! j) = ie_next (base ! j)" using new by (simp add: same_cap_def)
  qed
  then have "fl_path t0 ?n ys" using base(4) by simp
  then have path': "fl_path t' 0 (xs @ ?n # ys)"
    unfolding t'_def p_def using path base(2,3,5,6) xs pl
    by (intro fl_path_join) (auto simp: p_def)
  have fresh: "entry_unused (t' ! j)" "gen_ok (ie_bits (t' ! j))" if j: "?n \<le> j" "j < length base" for j
    using new [OF j] base(7) [OF j] bits gen_ok_fresh
    by (auto simp: entry_unused_def same_cap_def ipc_entry_zero_def mach_consts)
  have kept: "gen_ok (ie_bits (t' ! j))" if "0 < j" "j < ?n" for j
    using ot old [OF that] that bits by (simp add: table_inv_def same_cap_def)
  have sized: "table_sized t'"
    using base(1) t00 bits len unfolding table_sized_def same_cap_def by simp
  have old_free: "entry_unused (t' ! j)" if "j \<in> set xs" for j
    using unused [OF that] bits by (simp add: entry_unused_def)
  have range: "set ys \<subseteq> {?n..<length base}" "distinct (xs @ ?n # ys)"
    "set (xs @ ?n # ys) \<subseteq> {1..<length base}" using base(3,5,6) xs by auto
  show "table_inv t' (xs @ ?n # ys)"
    unfolding table_inv_def len(3)
  proof (intro conjI allI impI ballI)
    fix j assume "j \<in> set (xs @ ?n # ys)"
    then consider "j \<in> set xs" | "?n \<le> j" "j < length base" using range(1) base(3) by auto
    then show "entry_unused (t' ! j)" using old_free fresh by cases blast+
  next
    fix j assume "0 < j" "j < length base"
    then show "gen_ok (ie_bits (t' ! j))" using kept fresh by (cases "j < ?n") auto
  qed (fact sized base(2) path' range)+
  show "grown ot xs t' (?n # ys)"
    unfolding grown_def
  proof (intro conjI allI impI)
    show "set (?n # ys) = {?n..<length t'}" using base(3,6) len by auto
    fix i assume i: "0 < i" "i < ?n"
    show "ie_object (t' ! i) = ie_object (ot ! i)" "ie_bits (t' ! i) = ie_bits (ot ! i)"
      using old [OF i] bits by (simp_all add: same_cap_def)
    assume "i \<notin> set xs"
    then have "i \<noteq> p" using p i by auto
    then show "ie_request (t' ! i) = ie_request (ot ! i)" using old [OF i] other by (simp add: same_cap_def)
  qed (use base(3) len in simp)
  have "{i \<in> sends ot. i < ?n} = sends ot" by (auto simp: sends_def)
  then have h: "hash_inv t (sends ot)" using scan by (simp add: scan_inv_def)
  have "ie_index (t0 ! j) = ie_index (t ! j)" "ie_dist (t0 ! j) = ie_dist (t ! j)"
    "ie_object (t0 ! j) = ie_object (t ! j)" for j
    using \<open>0 < length t\<close> by (cases "j = 0"; simp add: t0_def)+
  then show "hash_inv t' (sends ot)"
    by (intro hash_inv_cong(1) [OF h]) (simp_all add: bits len)
qed

lemma grow_rescan_spec:
  assumes inv: "space_inv sp ot xs H" and H: "H = sends ot" "card H \<le> IPC_ENTRY_DIST_MAX + 1"
    and its: "is_table_next sp \<le> its" "its \<le> 254" "is_table_next sp = its \<or> target \<noteq> ITS_SIZE_NONE"
    and fresh: "ipc_space_rand_freelist
        (sp\<lparr>is_grower := True, is_low_mod := word_of_nat (length ot), is_high_mod := 0\<rparr>)
        (replicate (ipc_table_entries ! its) ipc_entry_zero) (length ot) (ipc_table_entries ! its) = (sp1, base)"
  obtains sp' t' ys where
    "ipc_entry_grow_rescan (Suc fuel) sp1 ot base 1 (length ot - 1) target its (length ot) (ipc_table_entries ! its) =
       Some (sp', KERN_SUCCESS)"
    "space_inv sp' t' (xs @ ys) H" "grown ot xs t' ys" "length t' = ipc_table_entries ! its"
proof -
  let ?n = "length ot" and ?sz = "ipc_table_entries ! its"
  note D = space_invD [OF inv]
  have nx: "1 \<le> is_table_next sp" "?n = ipc_table_entries ! (is_table_next sp - 1)"
    using inv by (simp_all add: space_inv_def)
  have less: "?n < ?sz" unfolding nx(2) by (rule ipc_table_entries_less) (use its nx in auto)
  have sz: "?sz \<le> 299349" by (rule ipc_table_entries_bounds) (use its in simp)
  have n1: "1 < ?n" using table_sized_head(4) [OF D(4)] .
  let ?spg = "sp\<lparr>is_grower := True, is_low_mod := word_of_nat ?n, is_high_mod := 0\<rparr>"
  have sz1: "1 < ?sz" "?sz < 2 ^ 32" using less n1 sz by auto
  note F = ipc_space_rand_freelist_spec [OF less sz1 fresh]
  obtain ys where ys: "fl_path base ?n ys" "distinct ys" "set ys = {?n<..<?sz}" using F(4) by blast
  have base_index: "ie_index (base ! s) = 0" if "s < ?sz" for s
  proof -
    consider "s = 0" | "0 < s" "s < ?n" | "0 < s" "?n \<le> s" by linarith
    then show ?thesis
      using F(5) [of s] F(6) [of s] F(7) that by cases (auto simp: ipc_entry_zero_def)
  qed
  have base_sized: "table_sized base" using F(2,3) sz1 by (simp add: table_sized_def unat_of_nat_len)
  have fields: "is_table sp1 = Some ot" "is_grower sp1" "is_low_mod sp1 = word_of_nat ?n" "is_high_mod sp1 = 0"
    "is_table_next sp1 = is_table_next sp" "is_table_free sp1 = word_of_nat (length xs)"
    "is_table_hashed sp1 = word_of_nat (card H)"
    using rng_only_fields [OF F(1)] inv by (auto simp: space_inv_def)
  have none: "{i \<in> sends ot. i < 1} = {}" by (auto simp: sends_def)
  have "hash_inv base {}" using base_index F(2) sz1 by (intro hash_inv_empty) auto
  then have "scan_inv ot base 1 base"
    unfolding scan_inv_def none using F(6) by (auto simp: ipc_entry_zero_def)
  moreover have "inj_on (\<lambda>i. ie_object (ot ! i)) (sends ot)" using D(5) H by (simp add: hash_inv_def)
  ultimately obtain t where t: "ipc_entry_grow_scan (?n - 1) 1 ot base = Some t" "scan_inv ot base ?n t"
    using grow_scan_spec [OF _ base_sized, of ot 1 base "?n - 1"] less F(2)
      le_add_diff_inverse [OF less_imp_le [OF n1]] by auto
  define t0 where "t0 = t[0 := (t ! 0)\<lparr>ie_request := ie_next (ot ! 0)\<rparr>]"
  define p where "p = last (0 # xs)"
  define t' where "t' = t0[p := (t0 ! p)\<lparr>ie_request := word_of_nat ?n\<rparr>]"
  have link: "ipc_entry_grow_tail ?n t0 ?n 0 = Some p" "p < length t0"
    "ie_next (t0 ! p) = 0 \<and> ie_object (t0 ! p) = IO_NULL"
    "table_inv t' (xs @ ?n # ys)" "grown ot xs t' (?n # ys)" "hash_inv t' (sends ot)"
    unfolding t'_def p_def t0_def
    by (rule grow_link [OF D(3) base_sized _ _ _ ys(2) _ _ _ t(2)]; use F(2,5,7) sz less n1 ys in auto)+
  have len: "length t = ?sz" "length t' = ?sz" using t(2) F(2) by (simp_all add: scan_inv_def t'_def t0_def)
  define sp' where "sp' = sp1\<lparr>is_table_next := its + 1,
      is_table_free := is_table_free sp1 + word_of_nat (?sz - ?n), is_table := Some t', is_grower := False\<rparr>"
  have low: "unat (word_of_nat ?n :: 32 word) = ?n" using less sz by (intro unat_of_nat_len) simp
  have ex: "hash_exact t'" using hash_exact_small [OF link(6)] H by simp
  have "ipc_entry_grow_rescan (Suc fuel) sp1 ot base 1 (?n - 1) target its ?n ?sz = Some (sp', KERN_SUCCESS)"
    using t(1) link(1-3) fields table_sized_head [OF D(4)] its len sz1 low n1
    by (simp add: nth_opt_in kassert_bind is_active_def Let_def t0_def [symmetric] t'_def [symmetric]
        ipc_space_done_growing_def sp'_def)
  moreover have "length ys = ?sz - 1 - ?n" using ys distinct_card [of ys] by simp
  then have "is_table_free sp' = word_of_nat (length (xs @ ?n # ys))"
    using less fields by (simp add: sp'_def flip: of_nat_add)
  then have "space_inv sp' t' (xs @ ?n # ys) H"
    using link ex fields its H len less low sz1 unfolding space_inv_def by (simp add: sp'_def)
  ultimately show thesis using link(5) len(2) by (rule that)
qed

text \<open>
  Growing a table: it succeeds or fails with one of its two documented errors; success keeps every
  capability and adds fresh free entries, failure keeps the space.
\<close>

lemma ipc_entry_grow_table_spec:
  assumes inv: "space_inv sp ot xs H" and H: "H = sends ot" "card H \<le> IPC_ENTRY_DIST_MAX + 1"
  obtains (grown) sp' t' ys where "ipc_entry_grow_table mem sp target = Some (sp', KERN_SUCCESS)"
      "space_inv sp' t' (xs @ ys) H" "grown ot xs t' ys" "is_table_next sp < is_table_next sp'"
      "target = ITS_SIZE_NONE \<or> unat target \<le> length t'"
    | (large) "ipc_entry_grow_table mem sp target = Some (sp, KERN_SUCCESS)"
      "target \<noteq> ITS_SIZE_NONE" "unat target \<le> length ot"
    | (failed) sp' kr where "ipc_entry_grow_table mem sp target = Some (sp', kr)"
      "kr = KERN_NO_SPACE \<or> kr = KERN_RESOURCE_SHORTAGE" "space_inv sp' ot xs H"
proof -
  let ?n = "length ot" and ?its = "is_table_next sp"
  note D = space_invD [OF inv]
  have nx: "1 \<le> ?its" "?its \<le> 255" "ipc_table_entries ! (?its - 1) = ?n"
    using inv by (simp_all add: space_inv_def)
  have max: "space_inv (ipc_space_set_at_max_limit sp) ot xs H"
    using inv by (simp add: ipc_space_set_at_max_limit_def is_bits_set_def)
  show thesis
  proof (cases "target \<noteq> ITS_SIZE_NONE \<and> unat target \<le> ?n")
    case True
    then have "ipc_entry_grow_table mem sp target = Some (sp, KERN_SUCCESS)"
      using D nx by (simp add: ipc_entry_grow_table_def nth_opt_in Let_def)
    with True show thesis by (blast intro: large)
  next
    case small: False
    define r where "r = (if target \<noteq> ITS_SIZE_NONE
             then ipc_entry_grow_find (IPC_TABLE_ENTRIES_SIZE + 1) (unat target) ?n ?its (ipc_table_entries ! ?its)
             else Some (?n, ?its, ipc_table_entries ! ?its))"
    have "\<exists>its. r = Some (ipc_table_entries ! (its - 1), its, ipc_table_entries ! its) \<and> ?its \<le> its \<and> its \<le> 255 \<and>
        (target = ITS_SIZE_NONE \<longrightarrow> its = ?its) \<and>
        (target \<noteq> ITS_SIZE_NONE \<longrightarrow>
           ipc_table_entries ! (its - 1) = ipc_table_entries ! its \<or> unat target \<le> ipc_table_entries ! its)"
      using grow_find_spec [OF nx(1,2), of "IPC_TABLE_ENTRIES_SIZE + 1" "unat target"] nx
      by (auto simp: r_def IPC_TABLE_ENTRIES_SIZE_def)
    then obtain its where its: "r = Some (ipc_table_entries ! (its - 1), its, ipc_table_entries ! its)"
      "?its \<le> its" "its \<le> 255" "target = ITS_SIZE_NONE \<longrightarrow> its = ?its"
      "target \<noteq> ITS_SIZE_NONE \<longrightarrow>
         ipc_table_entries ! (its - 1) = ipc_table_entries ! its \<or> unat target \<le> ipc_table_entries ! its"
      by blast
    note unfold = ipc_entry_grow_table_def Let_def r_def [symmetric]
    show thesis
    proof (cases "its = 255")
      case True
      then have "ipc_entry_grow_table mem sp target = Some (ipc_space_set_at_max_limit sp, KERN_NO_SPACE)"
        using D nx small its by (auto simp: unfold nth_opt_in)
      then show thesis using max by (blast intro: failed)
    next
      case False
      then have i254: "its \<le> 254" using its by simp
      have less: "?n < ipc_table_entries ! its"
        unfolding nx(3) [symmetric] by (rule ipc_table_entries_less) (use its nx i254 in auto)
      have prev: "ipc_table_entries ! (its - 1) < ipc_table_entries ! its"
        by (rule ipc_table_entries_less) (use its nx i254 in auto)
      have nsz: "ipc_table_entries ! its \<le> ipc_table_entries ! (its + 1)"
        using ipc_table_entries_less [of its "its + 1"] i254 by (cases "its = 254") auto
      let ?spg = "sp\<lparr>is_grower := True, is_low_mod := word_of_nat ?n, is_high_mod := 0\<rparr>"
      have eq: "ipc_entry_grow_table mem sp target =
        (case it_entries_alloc mem its of
           None \<Rightarrow> do { space \<leftarrow> ipc_space_done_growing ?spg; Some (space, KERN_RESOURCE_SHORTAGE) }
         | Some table \<Rightarrow>
             let (space, table) = ipc_space_rand_freelist ?spg table ?n (ipc_table_entries ! its)
             in ipc_entry_grow_rescan 2 space ot table 1 (?n - 1) target its ?n (ipc_table_entries ! its))"
        using D nx small its(1-3) i254 less prev nsz by (auto simp: unfold nth_opt_in kassert_bind)
      show thesis
      proof (cases "mem (ipc_table_entries ! its)")
        case False
        then have "ipc_entry_grow_table mem sp target = Some (?spg\<lparr>is_grower := False\<rparr>, KERN_RESOURCE_SHORTAGE)"
          by (simp add: eq it_entries_alloc_def ipc_space_done_growing_def)
        moreover have "space_inv (?spg\<lparr>is_grower := False\<rparr>) ot xs H"
          using inv D(6) table_sized_head(4) [OF D(4)] by (auto simp: space_inv_def unat_of_nat_len)
        ultimately show thesis by (blast intro: failed)
      next
        case True
        obtain sp1 base where fresh: "ipc_space_rand_freelist ?spg (replicate (ipc_table_entries ! its) ipc_entry_zero)
            ?n (ipc_table_entries ! its) = (sp1, base)" by fastforce
        obtain sp' t' ys where new:
          "ipc_entry_grow_rescan (Suc 1) sp1 ot base 1 (?n - 1) target its ?n (ipc_table_entries ! its) = Some (sp', KERN_SUCCESS)"
          "space_inv sp' t' (xs @ ys) H" "grown ot xs t' ys" "length t' = ipc_table_entries ! its"
          using grow_rescan_spec [OF inv H its(2) i254 _ fresh] its(4) by metis
        have "ipc_entry_grow_table mem sp target = Some (sp', KERN_SUCCESS)"
          using True fresh new(1) by (simp add: eq it_entries_alloc_def numeral_2_eq_2)
        moreover have "?its < is_table_next sp'"
        proof (rule ccontr)
          assume "\<not> ?its < is_table_next sp'"
          then have "is_table_next sp' - 1 < ?its" using nx(1) by linarith
          then have "is_table_next sp' - 1 \<le> ?its - 1" by linarith
          moreover have "?its - 1 < 255" using nx(1,2) by linarith
          ultimately have "length t' \<le> ?n"
            using new(2) nx(3) ipc_table_entries_less [of "is_table_next sp' - 1" "?its - 1"]
            by (cases "is_table_next sp' - 1 = ?its - 1") (auto simp: space_inv_def)
          then show False using new(4) less by simp
        qed
        moreover have "target = ITS_SIZE_NONE \<or> unat target \<le> length t'"
          using its(5) prev new(4) by auto
        ultimately show thesis using grown [OF _ new(2,3)] by blast
      qed
    qed
  qed
qed


section \<open>Allocation\<close>

text \<open>\<open>caps_kept t t'\<close>: the capabilities of \<open>t\<close> are those of \<open>t'\<close>, under the same names.\<close>

definition caps_kept :: "ipc_entry list \<Rightarrow> ipc_entry list \<Rightarrow> bool" where
  "caps_kept t t' \<longleftrightarrow> length t \<le> length t' \<and>
     (\<forall>i. 0 < i \<longrightarrow> i < length t \<longrightarrow> IE_BITS_TYPE (ie_bits (t ! i)) \<noteq> 0 \<longrightarrow> same_cap (t ! i) (t' ! i)) \<and>
     (\<forall>i. 0 < i \<longrightarrow> i < length t' \<longrightarrow> IE_BITS_TYPE (ie_bits (t' ! i)) \<noteq> 0 \<longrightarrow>
        i < length t \<and> IE_BITS_TYPE (ie_bits (t ! i)) \<noteq> 0)"

lemma caps_kept_refl [simp]: "caps_kept t t"
  by (simp add: caps_kept_def)

lemma caps_kept_trans:
  assumes "caps_kept t t'" "caps_kept t' t''"
  shows "caps_kept t t''"
  unfolding caps_kept_def
proof (intro conjI allI impI)
  show "length t \<le> length t''" using assms by (simp add: caps_kept_def)
  fix i :: nat assume i: "0 < i"
  show "same_cap (t ! i) (t'' ! i)" if "i < length t" "IE_BITS_TYPE (ie_bits (t ! i)) \<noteq> 0"
  proof -
    have "same_cap (t ! i) (t' ! i)" "i < length t'" using assms(1) i that by (auto simp: caps_kept_def)
    then show ?thesis using assms(2) i that by (auto simp: caps_kept_def same_cap_def)
  qed
  assume "i < length t''" "IE_BITS_TYPE (ie_bits (t'' ! i)) \<noteq> 0"
  then have "i < length t'" "IE_BITS_TYPE (ie_bits (t' ! i)) \<noteq> 0" using assms(2) i by (auto simp: caps_kept_def)
  then show "i < length t" "IE_BITS_TYPE (ie_bits (t ! i)) \<noteq> 0" using assms(1) i by (auto simp: caps_kept_def)
qed

lemma entry_unused_type: "entry_unused e \<Longrightarrow> IE_BITS_TYPE (ie_bits e) = 0"
proof -
  assume "entry_unused e"
  then have "ie_bits e = ie_bits e AND 0xffc00000" by (simp add: entry_unused_def mach_consts)
  then have "ie_bits e AND 0x1f0000 = (ie_bits e AND 0xffc00000) AND 0x1f0000" by simp
  then show ?thesis by (simp add: IE_BITS_TYPE_def mach_consts and.assoc)
qed

lemma caps_kept_grown:
  assumes "table_inv t xs" "grown t xs t' ys" "table_inv t' (xs @ ys)"
  shows "caps_kept t t'"
proof -
  have "entry_unused (t' ! i)" if "length t \<le> i" "i < length t'" for i
    using assms that by (auto simp: grown_def table_inv_def)
  then have new: "IE_BITS_TYPE (ie_bits (t' ! i)) = 0" if "length t \<le> i" "i < length t'" for i
    using that entry_unused_type by simp
  have free: "IE_BITS_TYPE (ie_bits (t ! i)) = 0" if "i \<in> set xs" for i
    using fl_entry(3) [OF assms(1) that] by (rule entry_unused_type)
  show ?thesis
    unfolding caps_kept_def
  proof (intro conjI allI impI)
    show "length t \<le> length t'" using assms(2) by (simp add: grown_def)
    fix i :: nat assume i: "0 < i"
    show "same_cap (t ! i) (t' ! i)" if "i < length t" "IE_BITS_TYPE (ie_bits (t ! i)) \<noteq> 0"
      using that i free assms(2) unfolding grown_def same_cap_def by blast
    assume j: "i < length t'" "IE_BITS_TYPE (ie_bits (t' ! i)) \<noteq> 0"
    then show l: "i < length t" using new [of i] by linarith
    show "IE_BITS_TYPE (ie_bits (t ! i)) \<noteq> 0" using j l i assms(2) unfolding grown_def by metis
  qed
qed

lemma sends_grown:
  assumes "table_inv t xs" "grown t xs t' ys" "table_inv t' (xs @ ys)"
  shows "sends t' = sends t"
proof -
  have "entry_unused (t' ! i)" if "length t \<le> i" "i < length t'" for i
    using assms that by (auto simp: grown_def table_inv_def)
  then have "IE_BITS_TYPE (ie_bits (t' ! i)) \<noteq> MACH_PORT_TYPE_SEND" if "length t \<le> i" "i < length t'" for i
    using that entry_unused_type by (simp add: mach_consts)
  then show ?thesis
    using assms(2) unfolding sends_def grown_def by (auto simp: not_less) (metis not_less)+
qed

text \<open>In a quiescent space the free list holds every entry without a type, and the hash every send right.\<close>

definition frees :: "ipc_entry list \<Rightarrow> nat set" where
  "frees t = {i. 0 < i \<and> i < length t \<and> IE_BITS_TYPE (ie_bits (t ! i)) = 0}"

definition wf_space :: "ipc_space \<Rightarrow> ipc_entry list \<Rightarrow> nat list \<Rightarrow> bool" where
  "wf_space sp t xs \<longleftrightarrow> space_inv sp t xs (sends t) \<and> set xs = frees t"

lemma sends_frees_set:
  assumes "length t' = length t"
    and "\<And>j. j \<noteq> x \<Longrightarrow> ie_bits (t' ! j) = ie_bits (t ! j) \<and> ie_object (t' ! j) = ie_object (t ! j)"
  shows "sends t' - {x} = sends t - {x}" "frees t' - {x} = frees t - {x}"
  using assms by (auto simp: sends_def frees_def)

lemma wf_space_grown:
  assumes "wf_space sp t xs" "space_inv sp' t' (xs @ ys) (sends t)" "grown t xs t' ys"
  shows "wf_space sp' t' (xs @ ys)"
proof -
  have inv: "table_inv t xs" "table_inv t' (xs @ ys)"
    using assms by (auto simp: wf_space_def dest: space_invD)
  have "sends t' = sends t" by (rule sends_grown [OF inv(1) assms(3) inv(2)])
  moreover have "set (xs @ ys) = frees t'"
  proof
    show "set (xs @ ys) \<subseteq> frees t'"
      using fl_entry [OF inv(2)] entry_unused_type by (auto simp: frees_def)
    show "frees t' \<subseteq> set (xs @ ys)"
    proof
      fix i assume i: "i \<in> frees t'"
      show "i \<in> set (xs @ ys)"
      proof (cases "i < length t")
        case True
        then have "i \<in> frees t" using i assms(3) by (auto simp: frees_def grown_def)
        then show ?thesis using assms(1) by (simp add: wf_space_def)
      next
        case False
        then show ?thesis using i assms(3) by (simp add: frees_def grown_def)
      qed
    qed
  qed
  ultimately show ?thesis using assms(2) by (simp add: wf_space_def)
qed

text \<open>
  The outcome of an allocation: the entry \<open>x\<close> with its name, off the free list and empty, or an
  error that leaves the capabilities as they were.
\<close>

definition alloc_outcome ::
    "ipc_entry list \<Rightarrow> ipc_object_t \<Rightarrow>
     (ipc_space \<times> kern_return_t \<times> (mach_port_name_t \<times> nat) option) option \<Rightarrow> bool" where
  "alloc_outcome t object r \<longleftrightarrow>
     (\<exists>sp t' x xs. r = Some (sp, KERN_SUCCESS, Some (entry_name t' x, x)) \<and>
        space_inv sp t' xs (sends t') \<and> sends t' = sends t \<and> caps_kept t t' \<and> 0 < x \<and> x < length t' \<and>
        x \<notin> set xs \<and> set xs = frees t' - {x} \<and>
        ie_object (t' ! x) = object \<and> ie_request (t' ! x) = 0 \<and> ie_bits (t' ! x) AND 0x003fffff = 0) \<or>
     (\<exists>sp kr t' xs. r = Some (sp, kr, None) \<and> (kr = KERN_NO_SPACE \<or> kr = KERN_RESOURCE_SHORTAGE) \<and>
        wf_space sp t' xs \<and> sends t' = sends t \<and> caps_kept t t')"

lemma alloc_outcome_trans:
  "alloc_outcome t' object r \<Longrightarrow> caps_kept t t' \<Longrightarrow> sends t' = sends t \<Longrightarrow> alloc_outcome t object r"
  unfolding alloc_outcome_def
  apply (elim disjE)
   apply (rule disjI1, simp only:, blast intro: caps_kept_trans)
  apply (rule disjI2, simp only:, blast intro: caps_kept_trans)
  done

lemma type_of_low: "b AND 0x003fffff = 0 \<Longrightarrow> IE_BITS_TYPE b = 0"
proof -
  assume "b AND 0x003fffff = 0"
  then have "(b AND 0x003fffff) AND 0x1f0000 = 0" by simp
  then show ?thesis by (simp add: IE_BITS_TYPE_def mach_consts and.assoc)
qed

lemma claim_caps_kept:
  assumes inv: "table_inv t (x # xs)" and g: "IE_BITS_TYPE g = 0"
  shows "caps_kept t (claim_table t x object g)" "length (claim_table t x object g) = length t"
proof -
  have x: "0 < x" "x < length t" "IE_BITS_TYPE (ie_bits (t ! x)) = 0"
    using fl_entry [OF inv, of x] entry_unused_type by auto
  then show "caps_kept t (claim_table t x object g)" "length (claim_table t x object g) = length t"
    using g by (auto simp: caps_kept_def claim_table_def nth_list_update split: if_splits)
qed

lemma claim_sends_frees:
  assumes inv: "space_inv sp t (x # xs) H" and g: "IE_BITS_TYPE g = 0" and wf: "set (x # xs) = frees t"
  shows "sends (claim_table t x object g) = sends t" "set xs = frees (claim_table t x object g) - {x}"
proof -
  note D = space_invD [OF inv]
  have x: "0 < x" "x < length t" "IE_BITS_TYPE (ie_bits (t ! x)) = 0" "x \<notin> set xs"
    using fl_entry [OF D(3), of x] entry_unused_type D(3) by (auto simp: table_inv_def)
  have len: "length (claim_table t x object g) = length t" by (rule claim_caps_kept(2) [OF D(3) g])
  have len0: "t \<noteq> []" using x(2) by auto
  have tx: "ie_bits (claim_table t x object g ! x) = g" using x by (simp add: claim_table_def)
  have other: "ie_bits (claim_table t x object g ! j) = ie_bits (t ! j) \<and> ie_object (claim_table t x object g ! j) = ie_object (t ! j)"
    if "j \<noteq> x" for j
    using that x(1) len0 by (cases "j = 0") (simp_all add: claim_table_def)
  have "x \<notin> sends t" "x \<notin> sends (claim_table t x object g)" using x(3) g tx by (auto simp: sends_def mach_consts)
  then show "sends (claim_table t x object g) = sends t" using sends_frees_set(1) [OF len other] by auto
  have "set xs = frees t - {x}" using wf x(4) by auto
  then show "set xs = frees (claim_table t x object g) - {x}" using sends_frees_set(2) [OF len other] by simp
qed

lemma alloc_outcome_claim:
  assumes inv: "space_inv sp t (x # xs) (sends t)" and wf: "set (x # xs) = frees t"
  shows "alloc_outcome t object
    (do { (space, name, entry) \<leftarrow> ipc_entry_claim sp object; Some (space, KERN_SUCCESS, Some (name, entry)) })"
proof -
  note D = space_invD [OF inv]
  obtain sp' roll where claim:
    "ipc_entry_claim sp object =
       Some (sp', entry_name (claim_table t x object (ipc_entry_next_gen (ie_bits (t ! x)) roll)) x, x)"
    "space_inv sp' (claim_table t x object (ipc_entry_next_gen (ie_bits (t ! x)) roll)) xs (sends t)"
    using ipc_entry_claim_spec [OF inv] by blast
  define g where "g = ipc_entry_next_gen (ie_bits (t ! x)) roll"
  note claim = claim [folded g_def]
  have low: "g AND 0x003fffff = 0" by (simp add: g_def ipc_entry_next_gen_low)
  have x: "0 < x" "x < length t" "x \<notin> set xs"
    using fl_entry [OF D(3), of x] D(3) by (auto simp: table_inv_def)
  have tx: "ie_object (claim_table t x object g ! x) = object" "ie_request (claim_table t x object g ! x) = 0"
    "ie_bits (claim_table t x object g ! x) AND 0x003fffff = 0"
    using x low by (simp_all add: claim_table_def mach_consts)
  note kept = claim_caps_kept [OF D(3) type_of_low [OF low], of object]
  note sf = claim_sends_frees [OF inv type_of_low [OF low] wf, of object]
  have "x < length (claim_table t x object g)" using x(2) kept(2) by simp
  then show ?thesis
    unfolding alloc_outcome_def
    apply (intro disjI1 exI [of _ sp'] exI [of _ "claim_table t x object g"] exI [of _ x] exI [of _ xs])
    using claim x kept(1) tx sf by simp
qed

lemma ipc_entry_alloc_loop_spec:
  assumes "wf_space sp t xs" "card (sends t) \<le> IPC_ENTRY_DIST_MAX + 1" "256 - is_table_next sp < fuel"
  shows "alloc_outcome t object (ipc_entry_alloc_loop fuel mem sp object)"
  using assms
proof (induction fuel arbitrary: sp t xs)
  case (Suc fuel)
  note wf = Suc.prems(1) and H = Suc.prems(2)
  have inv: "space_inv sp t xs (sends t)" and fr: "set xs = frees t" using wf by (auto simp: wf_space_def)
  note D = space_invD [OF inv]
  obtain sp1 kr where hold: "ipc_entries_hold sp 1 = Some (sp1, kr)" "space_inv sp1 t xs (sends t)"
      "kr = KERN_SUCCESS \<longleftrightarrow> card (sends t) + 1 \<le> length t * 7 div 8 \<and> 1 \<le> length xs"
      "kr \<noteq> KERN_SUCCESS \<longrightarrow> kr = KERN_NO_SPACE \<and> sp1 = sp"
    using ipc_entries_hold_spec [OF inv, of 1] by auto
  show ?case
  proof (cases "kr = KERN_SUCCESS")
    case True
    then obtain x ys where xs: "xs = x # ys" using hold(3) by (cases xs) auto
    show ?thesis using alloc_outcome_claim [OF hold(2) [unfolded xs] fr [unfolded xs]] hold(1) True D(2) by simp
  next
    case False
    then have kr: "kr = KERN_NO_SPACE" "sp1 = sp" using hold(4) by auto
    show ?thesis
    proof (rule ipc_entry_grow_table_spec [OF inv refl H, of mem ITS_SIZE_NONE])
      fix sp2 t' ys
      assume g: "ipc_entry_grow_table mem sp ITS_SIZE_NONE = Some (sp2, KERN_SUCCESS)"
        "space_inv sp2 t' (xs @ ys) (sends t)" "grown t xs t' ys" "is_table_next sp < is_table_next sp2"
      have sends: "sends t' = sends t" using sends_grown [OF D(3) g(3) space_invD(3) [OF g(2)]] by simp
      have fuel: "256 - is_table_next sp2 < fuel" using Suc.prems(3) g(4) g(2) by (auto simp: space_inv_def)
      have "alloc_outcome t' object (ipc_entry_alloc_loop fuel mem sp2 object)"
        by (rule Suc.IH [OF wf_space_grown [OF wf g(2,3)] _ fuel]) (use H sends in simp)
      then show ?thesis
        using alloc_outcome_trans [OF _ caps_kept_grown [OF D(3) g(3) space_invD(3) [OF g(2)]] sends] hold(1) kr D(2) g(1) by simp
    next
      assume "ITS_SIZE_NONE \<noteq> ITS_SIZE_NONE" then show ?thesis by simp
    next
      fix sp2 kr2
      assume "ipc_entry_grow_table mem sp ITS_SIZE_NONE = Some (sp2, kr2)"
        "kr2 = KERN_NO_SPACE \<or> kr2 = KERN_RESOURCE_SHORTAGE" "space_inv sp2 t xs (sends t)"
      then show ?thesis using hold(1) kr D(2) fr unfolding alloc_outcome_def wf_space_def
        by (auto intro!: exI [of _ t] exI [of _ xs])
    qed
  qed
qed simp

lemma ipc_entry_alloc_outcome:
  assumes "wf_space sp t xs" "card (sends t) \<le> IPC_ENTRY_DIST_MAX + 1"
  shows "alloc_outcome t object (ipc_entry_alloc mem sp object)"
  unfolding ipc_entry_alloc_def
  by (rule ipc_entry_alloc_loop_spec [OF assms]) (use assms(1) in \<open>simp add: IPC_TABLE_ENTRIES_SIZE_def\<close>)


section \<open>Allocation by name\<close>

lemma type_of_GEN: "IE_BITS_TYPE (MACH_PORT_GEN name) = 0"
proof -
  have "MACH_PORT_GEN name AND 0x1f0000 = MACH_PORT_GEN name AND (0xff000000 AND 0x1f0000)"
    by (subst and.assoc [symmetric]) (simp only: GEN_and_mask)
  then show ?thesis by (simp add: IE_BITS_TYPE_def mach_consts)
qed

definition alloc_name_outcome ::
    "ipc_entry list \<Rightarrow> mach_port_name_t \<Rightarrow> (ipc_space \<times> kern_return_t \<times> nat option) option \<Rightarrow> bool" where
  "alloc_name_outcome t name r \<longleftrightarrow>
     (\<exists>sp t' x xs. r = Some (sp, KERN_SUCCESS, Some x) \<and> wf_space sp t' xs \<and> caps_kept t t' \<and>
        0 < x \<and> x < length t' \<and> name = entry_name t' x \<and> IE_BITS_TYPE (ie_bits (t' ! x)) \<noteq> 0) \<or>
     (\<exists>sp t' x xs. r = Some (sp, KERN_SUCCESS, Some x) \<and> space_inv sp t' xs (sends t') \<and> caps_kept t t' \<and>
        sends t' = sends t \<and> 0 < x \<and> x < length t' \<and> set xs = frees t' - {x} \<and> name = entry_name t' x \<and>
        ie_object (t' ! x) = IO_NULL \<and> ie_request (t' ! x) = 0 \<and> ie_bits (t' ! x) = MACH_PORT_GEN name) \<or>
     (\<exists>sp kr t' xs. r = Some (sp, kr, None) \<and>
        kr \<in> {KERN_NO_SPACE, KERN_INVALID_VALUE, KERN_FAILURE, KERN_RESOURCE_SHORTAGE} \<and>
        wf_space sp t' xs \<and> caps_kept t t')"

lemma alloc_name_outcome_trans:
  "alloc_name_outcome t' name r \<Longrightarrow> caps_kept t t' \<Longrightarrow> sends t' = sends t \<Longrightarrow> alloc_name_outcome t name r"
  unfolding alloc_name_outcome_def
  apply (elim disjE)
    apply (rule disjI1, blast intro: caps_kept_trans)
   apply (rule disjI2, rule disjI1, simp only:, blast intro: caps_kept_trans)
  apply (rule disjI2, rule disjI2, blast intro: caps_kept_trans)
  done

lemma alloc_name_outcome_free:
  assumes wf: "wf_space sp t xs" and x: "x \<in> frees t" "unat (MACH_PORT_INDEX name) = x"
    and g: "gen_ok (MACH_PORT_GEN name)"
  shows "alloc_name_outcome t name
    (do { space \<leftarrow> ipc_entry_alloc_name_free sp t x (MACH_PORT_GEN name); Some (space, KERN_SUCCESS, Some x) })"
proof -
  let ?g = "MACH_PORT_GEN name"
  have inv: "space_inv sp t xs (sends t)" and fx: "set xs = frees t" using wf by (auto simp: wf_space_def)
  then obtain as bs where xs: "xs = as @ x # bs" using x(1) by (metis split_list)
  note D = space_invD [OF inv]
  obtain sp' where sp': "ipc_entry_alloc_name_free sp t x ?g = Some sp'"
      "space_inv sp' (alloc_name_table t (last (0 # as)) x ?g) (as @ bs) (sends t)"
    using ipc_entry_alloc_name_free_spec [OF inv [unfolded xs] g] by blast
  define p where "p = last (0 # as)"
  define t' where "t' = alloc_name_table t p x ?g"
  note sp' = sp' [folded p_def, folded t'_def]
  have xl: "0 < x" "x < length t" "entry_unused (t ! x)" "x \<notin> set (as @ bs)"
    using fl_entry [OF D(3), of x] D(3) xs by (auto simp: table_inv_def)
  have p: "p = 0 \<or> p \<in> set as" using xs by (cases as rule: rev_cases) (auto simp: p_def)
  have tx: "t' ! x = (t ! x)\<lparr>ie_bits := ?g, ie_request := IE_REQ_NONE\<rparr>" and len: "length t' = length t"
    using xl by (simp_all add: t'_def alloc_name_table_def list_update_beyond)
  have t'_other: "t' ! j = (if j = p \<and> p < length t then (t ! p)\<lparr>ie_request := ie_next (t ! x)\<rparr> else t ! j)"
    if "j \<noteq> x" for j
    using that by (cases "j = p"; cases "p < length t") (simp_all add: t'_def alloc_name_table_def list_update_beyond)
  then have other: "ie_bits (t' ! j) = ie_bits (t ! j) \<and> ie_object (t' ! j) = ie_object (t ! j)" if "j \<noteq> x" for j
    using that by simp
  have nosend: "x \<notin> sends t" "x \<notin> sends t'"
    using xl(3) entry_unused_type [OF xl(3)] type_of_GEN [of name] by (auto simp: sends_def tx mach_consts)
  have sends: "sends t' = sends t" using sends_frees_set(1) [OF len other] nosend by auto
  have "set (as @ bs) = frees t - {x}" using fx xl(4) by (auto simp: xs)
  also have "\<dots> = frees t' - {x}" using sends_frees_set(2) [OF len other] by auto
  finally have frees: "set (as @ bs) = frees t' - {x}" .
  have kept: "caps_kept t t'"
    unfolding caps_kept_def
  proof (intro conjI allI impI)
    fix i assume i: "0 < i" "i < length t" "IE_BITS_TYPE (ie_bits (t ! i)) \<noteq> 0"
    then have "i \<notin> set xs" using fl_entry(3) [OF D(3)] entry_unused_type by blast
    then have "i \<noteq> x" "i \<noteq> p" using p i(1) by (auto simp: xs)
    then show "same_cap (t ! i) (t' ! i)" by (simp add: t'_other)
  next
    fix i assume i: "i < length t'" "IE_BITS_TYPE (ie_bits (t' ! i)) \<noteq> 0"
    then show "i < length t" by (simp add: len)
    have "i \<noteq> x" using i(2) type_of_GEN [of name] by (auto simp: tx)
    then show "IE_BITS_TYPE (ie_bits (t ! i)) \<noteq> 0" using i(2) other by simp
  qed (simp add: len)
  have name: "name = entry_name t' x"
    by (rule name_eq_entry_name [OF x(2)]) (simp add: tx IE_BITS_GEN_def mach_consts)
  show ?thesis
    unfolding alloc_name_outcome_def
    using sp' sends frees kept name xl len tx
    by (intro disjI2 disjI1 exI [of _ sp'] exI [of _ t'] exI [of _ x] exI [of _ "as @ bs"])
      (simp add: entry_unused_def mach_consts)
qed

lemma ipc_entry_alloc_name_loop_spec:
  assumes "wf_space sp t xs" "card (sends t) \<le> IPC_ENTRY_DIST_MAX + 1" "256 - is_table_next sp < fuel"
    and name: "gen_ok (MACH_PORT_GEN name)"
  shows "alloc_name_outcome t name
    (ipc_entry_alloc_name_loop fuel mem sp (unat (MACH_PORT_INDEX name)) (MACH_PORT_GEN name))"
  using assms(1-3)
proof (induction fuel arbitrary: sp t xs)
  case (Suc fuel)
  let ?i = "unat (MACH_PORT_INDEX name)" and ?g = "MACH_PORT_GEN name"
  note wf = Suc.prems(1)
  have inv: "space_inv sp t xs (sends t)" using wf by (simp add: wf_space_def)
  note D = space_invD [OF inv]
  have fail: "alloc_name_outcome t name (Some (sp', kr, None))"
    if "kr \<in> {KERN_NO_SPACE, KERN_INVALID_VALUE, KERN_FAILURE, KERN_RESOURCE_SHORTAGE}" "wf_space sp' t xs" for sp' kr
    using that caps_kept_refl unfolding alloc_name_outcome_def by blast
  show ?case
  proof (cases "?i < length t")
    case True
    show ?thesis
    proof (cases "?i = 0")
      case True
      then show ?thesis
        using D table_sized_head [OF D(4)] fail [OF _ wf] by (simp add: nth_opt_in)
    next
      case nz: False
      show ?thesis
      proof (cases "IE_BITS_TYPE (ie_bits (t ! ?i)) = 0")
        case free: True
        then have "?i \<in> frees t" using nz True by (simp add: frees_def)
        then show ?thesis
          using alloc_name_outcome_free [OF wf _ refl name] D table_sized_head [OF D(4)] nz True free
          by (simp add: nth_opt_in)
      next
        case used: False
        have "alloc_name_outcome t name (Some (sp, KERN_SUCCESS, Some ?i))" if "IE_BITS_GEN (ie_bits (t ! ?i)) = ?g"
          using name_eq_entry_name [of name ?i t] that wf True nz used caps_kept_refl
          unfolding alloc_name_outcome_def by auto
        then show ?thesis
          using D table_sized_head [OF D(4)] nz True used fail [OF _ wf] by (simp add: nth_opt_in)
      qed
    qed
  next
    case False
    have idx: "unat (word_of_nat (?i + 1) :: 32 word) = ?i + 1"
      by (rule unat_of_nat_len) (use INDEX_less [of name] in simp)
    show ?thesis
    proof (rule ipc_entry_grow_table_spec [OF inv refl Suc.prems(2), of mem "word_of_nat (?i + 1)"])
      fix sp2 t' ys
      assume g: "ipc_entry_grow_table mem sp (word_of_nat (?i + 1)) = Some (sp2, KERN_SUCCESS)"
        "space_inv sp2 t' (xs @ ys) (sends t)" "grown t xs t' ys" "is_table_next sp < is_table_next sp2"
      have sends: "sends t' = sends t" by (rule sends_grown [OF D(3) g(3) space_invD(3) [OF g(2)]])
      have fuel: "256 - is_table_next sp2 < fuel" using Suc.prems(3) g(4) g(2) by (auto simp: space_inv_def)
      have "alloc_name_outcome t' name (ipc_entry_alloc_name_loop fuel mem sp2 ?i ?g)"
        by (rule Suc.IH [OF wf_space_grown [OF wf g(2,3)] _ fuel]) (simp only: sends Suc.prems(2))
      then show ?thesis
        using alloc_name_outcome_trans [OF _ caps_kept_grown [OF D(3) g(3) space_invD(3) [OF g(2)]] sends] False D g(1)
          table_sized_head [OF D(4)] by simp
    next
      assume "unat (word_of_nat (?i + 1) :: 32 word) \<le> length t"
      then show ?thesis using False idx by simp
    next
      fix sp2 kr
      assume "ipc_entry_grow_table mem sp (word_of_nat (?i + 1)) = Some (sp2, kr)"
        "kr = KERN_NO_SPACE \<or> kr = KERN_RESOURCE_SHORTAGE" "space_inv sp2 t xs (sends t)"
      then show ?thesis
        using fail [of kr sp2] wf False D table_sized_head [OF D(4)] by (auto simp: wf_space_def)
    qed
  qed
qed simp

lemma ipc_entry_alloc_name_outcome:
  assumes "wf_space sp t xs" "card (sends t) \<le> IPC_ENTRY_DIST_MAX + 1"
  shows "alloc_name_outcome t name (ipc_entry_alloc_name mem sp name)"
proof -
  have fail: "alloc_name_outcome t name (Some (sp, kr, None))"
    if "kr \<in> {KERN_NO_SPACE, KERN_INVALID_VALUE, KERN_FAILURE, KERN_RESOURCE_SHORTAGE}" for kr
    using that assms(1) caps_kept_refl unfolding alloc_name_outcome_def by blast
  show ?thesis
  proof (cases "unat (MACH_PORT_INDEX name) > ipc_table_max_entries \<or> name \<noteq> ipc_entry_name_mask name")
    case True
    then show ?thesis using fail by (auto simp: ipc_entry_alloc_name_def Let_def)
  next
    case False
    then have mod4: "unat name mod 4 = 3" using name_mask_iff [of name] by simp
    have "unat name mod 256 mod 4 = unat name mod 4" by (simp add: mod_mod_cancel)
    then have g: "gen_ok (MACH_PORT_GEN name)"
      using mod4 by (auto simp: gen_ok_def gen_num_GEN roll_limit_def)
    have "MACH_PORT_VALID name"
      using mod4 False by (auto simp: MACH_PORT_VALID_def mach_consts MACH_PORT_INDEX_def ipc_table_max_entries_def ipc_table_entries_last IPC_TABLE_ENTRIES_SIZE_def)
    then show ?thesis
      using ipc_entry_alloc_name_loop_spec [OF assms _ g, of "IPC_TABLE_ENTRIES_SIZE + 1" mem] False
      by (simp add: ipc_entry_alloc_name_def Let_def kassert_bind IPC_TABLE_ENTRIES_SIZE_def)
  qed
qed

end
