(* ===== verification/Ipc_Reverse.thy ===== *)
theory Ipc_Reverse
imports Ipc_Grow
begin

text \<open>
  The reverse hash seen from a space (\<open>ipc_hash.c\<close>): \<open>ipc_hash_lookup\<close>, \<open>ipc_hash_insert\<close> and
  \<open>ipc_hash_delete\<close>, and the interface its clients rely on as the locale \<open>reverse_hash\<close>,
  interpreted on these operations.  A space that is created satisfies the invariant.
\<close>

section \<open>Operations\<close>

definition ipc_hash_lookup :: "ipc_space \<Rightarrow> ipc_object_t \<Rightarrow> (mach_port_name_t \<times> nat) option option" where
  "ipc_hash_lookup space obj = do { table \<leftarrow> is_active_table space; ipc_hash_table_lookup table obj }"

definition ipc_hash_insert :: "ipc_space \<Rightarrow> ipc_object_t \<Rightarrow> mach_port_name_t \<Rightarrow> nat \<Rightarrow> ipc_space option" where
  "ipc_hash_insert space obj name entry = do {
     let index = unat (MACH_PORT_INDEX name);
     let space = space\<lparr>is_table_hashed := is_table_hashed space + 1\<rparr>;
     table \<leftarrow> is_active_table space;
     table \<leftarrow> ipc_hash_table_insert table obj index entry;
     Some (space\<lparr>is_table := Some table\<rparr>)
   }"

definition ipc_hash_delete :: "ipc_space \<Rightarrow> ipc_object_t \<Rightarrow> mach_port_name_t \<Rightarrow> nat \<Rightarrow> ipc_space option" where
  "ipc_hash_delete space obj name entry = do {
     let index = unat (MACH_PORT_INDEX name);
     let space = space\<lparr>is_table_hashed := is_table_hashed space - 1\<rparr>;
     table \<leftarrow> is_active_table space;
     table \<leftarrow> ipc_hash_table_delete table obj index entry;
     Some (space\<lparr>is_table := Some table\<rparr>)
   }"


section \<open>The reverse hash keeps the space\<close>

lemma fl_path_same_caps:
  assumes "same_caps t t'" "i < length t" "set xs \<subseteq> {..<length t}"
  shows "fl_path t' i xs = fl_path t i xs"
  by (rule fl_path_cong) (use assms in \<open>auto simp: same_caps_def\<close>)

lemma table_inv_same_caps:
  assumes caps: "same_caps t t'" and inv: "table_inv t xs"
  shows "table_inv t' xs"
proof -
  have eq: "ie_object (t' ! i) = ie_object (t ! i)" "ie_bits (t' ! i) = ie_bits (t ! i)" if "i < length t" for i
    using caps that by (auto simp: same_caps_def)
  have xs: "set xs \<subseteq> {..<length t}" "0 < length t"
    using inv table_sized_head(3) by (auto simp: table_inv_def)
  have "entry_unused (t' ! i)" if "i \<in> set xs" for i
    using fl_entry [OF inv that] eq [of i] by (simp add: entry_unused_def)
  then show ?thesis
    using inv same_caps_sized [OF caps] same_caps_length [OF caps] eq fl_path_same_caps [OF caps xs(2,1)]
    by (auto simp: table_inv_def)
qed

lemma sends_same_caps: "same_caps t t' \<Longrightarrow> sends t' = sends t"
  by (auto simp: same_caps_def sends_def)

lemma hash_card:
  assumes "hash_inv t H"
  shows "finite H" "card H < length t"
  using hash_inv_wf [OF assms] by (simp_all add: rh_wf_def)

lemma ipc_hash_insert_spec:
  assumes inv: "space_inv sp t xs H" and i: "0 < i" "i < length t" "i \<notin> H"
    and obj: "ie_object (t ! i) \<noteq> IO_NULL" "\<forall>j\<in>H. ie_object (t ! j) \<noteq> ie_object (t ! i)"
    and card: "card H \<le> IPC_ENTRY_DIST_MAX" and index: "unat (MACH_PORT_INDEX name) = i"
  obtains sp' t' where "ipc_hash_insert sp (ie_object (t ! i)) name i = Some sp'"
    "same_caps t t'" "space_inv sp' t' xs (insert i H)"
    "sp' = sp\<lparr>is_table_hashed := is_table_hashed sp + 1, is_table := Some t'\<rparr>"
proof -
  note D = space_invD [OF inv]
  obtain t' where t': "ipc_hash_table_insert t (ie_object (t ! i)) i i = Some t'" "same_caps t t'"
      "hash_inv t' (insert i H)"
    using ipc_hash_table_insert_spec [OF D(4,5) i obj] by blast
  let ?sp = "sp\<lparr>is_table_hashed := is_table_hashed sp + 1, is_table := Some t'\<rparr>"
  have "card (insert i H) = card H + 1" using i(3) hash_card(1) [OF D(5)] by simp
  then have "hash_exact t'" "is_table_hashed sp + 1 = word_of_nat (card (insert i H))"
    using hash_exact_small [OF t'(3)] card inv by (auto simp: space_inv_def)
  then have "space_inv ?sp t' xs (insert i H)"
    using inv t' table_inv_same_caps [OF t'(2) D(3)] same_caps_length [OF t'(2)] by (simp add: space_inv_def)
  moreover have "ipc_hash_insert sp (ie_object (t ! i)) name i = Some ?sp"
    using t'(1) inv by (simp add: ipc_hash_insert_def index space_inv_def is_active_table_def)
  ultimately show thesis using that t'(2) by blast
qed

lemma ipc_hash_delete_spec:
  assumes inv: "space_inv sp t xs H" and i: "i \<in> H" and index: "unat (MACH_PORT_INDEX name) = i"
  obtains sp' t' where "ipc_hash_delete sp (ie_object (t ! i)) name i = Some sp'"
    "same_caps t t'" "space_inv sp' t' xs (H - {i})"
    "sp' = sp\<lparr>is_table_hashed := is_table_hashed sp - 1, is_table := Some t'\<rparr>"
proof -
  note D = space_invD [OF inv]
  obtain t' where t': "ipc_hash_table_delete t (ie_object (t ! i)) i i = Some t'" "same_caps t t'"
      "hash_inv t' (H - {i})" "hash_exact t'"
    using ipc_hash_table_delete_spec [OF D(4,5,8) i] by blast
  let ?sp = "sp\<lparr>is_table_hashed := is_table_hashed sp - 1, is_table := Some t'\<rparr>"
  have "card H = card (H - {i}) + 1" using i hash_card(1) [OF D(5)] by (metis Suc_eq_plus1 card.remove)
  then have "is_table_hashed sp - 1 = word_of_nat (card (H - {i}))" using inv by (simp add: space_inv_def)
  then have "space_inv ?sp t' xs (H - {i})"
    using inv t' table_inv_same_caps [OF t'(2) D(3)] same_caps_length [OF t'(2)] by (simp add: space_inv_def)
  moreover have "ipc_hash_delete sp (ie_object (t ! i)) name i = Some ?sp"
    using t'(1) inv by (simp add: ipc_hash_delete_def index space_inv_def is_active_table_def)
  ultimately show thesis using that t'(2) by blast
qed

lemma ipc_hash_lookup_found:
  assumes "space_inv sp t xs H" "i \<in> H"
  shows "ipc_hash_lookup sp (ie_object (t ! i)) = Some (Some (entry_name t i, i))"
  using ipc_hash_table_lookup_found [OF space_invD(4,5) [OF assms(1)] assms(2)] space_invD(1) [OF assms(1)]
  by (simp add: ipc_hash_lookup_def)

lemma ipc_hash_lookup_absent:
  assumes "space_inv sp t xs H" "\<forall>i\<in>H. ie_object (t ! i) \<noteq> obj"
  shows "ipc_hash_lookup sp obj = Some None"
  using ipc_hash_table_lookup_absent [OF space_invD(4,5) [OF assms(1)] assms(2)] space_invD(1) [OF assms(1)]
  by (simp add: ipc_hash_lookup_def)


section \<open>The interface\<close>

text \<open>
  A reverse hash of capacity \<open>cap\<close>: \<open>inv s H\<close> says that the state \<open>s\<close> hashes exactly the entries
  \<open>H\<close>, \<open>key s i\<close> is the object entry \<open>i\<close> names and \<open>slot s i\<close> that there is such an entry.
  The laws say what a lookup returns and that insertion and deletion change \<open>H\<close> and no entry.
\<close>

locale reverse_hash =
  fixes inv :: "'s \<Rightarrow> nat set \<Rightarrow> bool"
    and key :: "'s \<Rightarrow> nat \<Rightarrow> ipc_object_t"
    and slot :: "'s \<Rightarrow> nat \<Rightarrow> bool"
    and find :: "'s \<Rightarrow> ipc_object_t \<Rightarrow> (mach_port_name_t \<times> nat) option option"
    and ins :: "'s \<Rightarrow> ipc_object_t \<Rightarrow> mach_port_name_t \<Rightarrow> nat \<Rightarrow> 's option"
    and del :: "'s \<Rightarrow> ipc_object_t \<Rightarrow> mach_port_name_t \<Rightarrow> nat \<Rightarrow> 's option"
    and cap :: nat
  assumes slots: "inv s H \<Longrightarrow> i \<in> H \<Longrightarrow> slot s i \<and> key s i \<noteq> IO_NULL"
    and keys: "inv s H \<Longrightarrow> inj_on (key s) H"
    and find_in: "inv s H \<Longrightarrow> i \<in> H \<Longrightarrow> \<exists>name. find s (key s i) = Some (Some (name, i))"
    and find_out: "inv s H \<Longrightarrow> \<forall>i\<in>H. key s i \<noteq> obj \<Longrightarrow> find s obj = Some None"
    and ins_law: "inv s H \<Longrightarrow> slot s i \<Longrightarrow> i \<notin> H \<Longrightarrow> key s i \<noteq> IO_NULL \<Longrightarrow> key s i \<notin> key s ` H \<Longrightarrow>
      card H < cap \<Longrightarrow> unat (MACH_PORT_INDEX name) = i \<Longrightarrow>
      \<exists>s'. ins s (key s i) name i = Some s' \<and> inv s' (insert i H) \<and> slot s' = slot s \<and> (\<forall>j. slot s j \<longrightarrow> key s' j = key s j)"
    and del_law: "inv s H \<Longrightarrow> i \<in> H \<Longrightarrow> unat (MACH_PORT_INDEX name) = i \<Longrightarrow>
      \<exists>s'. del s (key s i) name i = Some s' \<and> inv s' (H - {i}) \<and> slot s' = slot s \<and> (\<forall>j. slot s j \<longrightarrow> key s' j = key s j)"
begin

lemma find_iff:
  assumes "inv s H"
  shows "(\<exists>name. find s obj = Some (Some (name, i))) \<longleftrightarrow> i \<in> H \<and> key s i = obj"
proof
  assume found: "\<exists>name. find s obj = Some (Some (name, i))"
  then obtain j where j: "j \<in> H" "key s j = obj" using find_out [OF assms, of obj] by fastforce
  then show "i \<in> H \<and> key s i = obj" using find_in [OF assms j(1)] found by auto
qed (use find_in [OF assms] in blast)

text \<open>An inserted entry is found by its object, every other lookup is as before.\<close>

lemma find_after_ins:
  assumes "inv s H" "slot s i" "i \<notin> H" "key s i \<noteq> IO_NULL" "key s i \<notin> key s ` H" "card H < cap"
    and "unat (MACH_PORT_INDEX name) = i"
  shows "\<exists>s'. ins s (key s i) name i = Some s' \<and> inv s' (insert i H) \<and>
    (\<forall>obj j. (\<exists>n. find s' obj = Some (Some (n, j))) \<longleftrightarrow>
       (if obj = key s i then j = i else (\<exists>n. find s obj = Some (Some (n, j)))))"
proof -
  obtain s' where s': "ins s (key s i) name i = Some s'" "inv s' (insert i H)" "slot s' = slot s"
      "\<forall>j. slot s j \<longrightarrow> key s' j = key s j"
    using ins_law [OF assms] by blast
  have key: "key s' j = key s j" if "j \<in> insert i H" for j
    using s'(4) that slots [OF assms(1)] assms(2) by blast
  have "(\<exists>n. find s' obj = Some (Some (n, j))) \<longleftrightarrow>
      (if obj = key s i then j = i else (\<exists>n. find s obj = Some (Some (n, j))))" for obj j
    using key assms(5) unfolding find_iff [OF s'(2)] find_iff [OF assms(1)] by (auto simp: image_iff)
  then show ?thesis using s'(1,2) by blast
qed

lemma find_after_del:
  assumes "inv s H" "i \<in> H" "unat (MACH_PORT_INDEX name) = i"
  shows "\<exists>s'. del s (key s i) name i = Some s' \<and> inv s' (H - {i}) \<and>
    (\<forall>obj j. (\<exists>n. find s' obj = Some (Some (n, j))) \<longleftrightarrow>
       obj \<noteq> key s i \<and> (\<exists>n. find s obj = Some (Some (n, j))))"
proof -
  obtain s' where s': "del s (key s i) name i = Some s'" "inv s' (H - {i})" "slot s' = slot s"
      "\<forall>j. slot s j \<longrightarrow> key s' j = key s j"
    using del_law [OF assms] by blast
  have key: "key s' j = key s j" if "j \<in> H" for j
    using s'(4) that slots [OF assms(1)] by blast
  have "(\<exists>n. find s' obj = Some (Some (n, j))) \<longleftrightarrow>
      obj \<noteq> key s i \<and> (\<exists>n. find s obj = Some (Some (n, j)))" for obj j
    using key assms(2) keys [OF assms(1)] unfolding find_iff [OF s'(2)] find_iff [OF assms(1)]
    by (auto simp: inj_on_def)
  then show ?thesis using s'(1,2) by blast
qed

end

definition space_hashes :: "ipc_space \<Rightarrow> nat set \<Rightarrow> bool" where
  "space_hashes sp H \<longleftrightarrow> (\<exists>t xs. space_inv sp t xs H)"

definition space_object :: "ipc_space \<Rightarrow> nat \<Rightarrow> ipc_object_t" where
  "space_object sp i = (case is_table sp of Some t \<Rightarrow> ie_object (t ! i) | None \<Rightarrow> IO_NULL)"

definition space_entry :: "ipc_space \<Rightarrow> nat \<Rightarrow> bool" where
  "space_entry sp i \<longleftrightarrow> (case is_table sp of Some t \<Rightarrow> 0 < i \<and> i < length t | None \<Rightarrow> False)"

lemma space_object_eq: "space_inv sp t xs H \<Longrightarrow> space_object sp i = ie_object (t ! i)"
  "space_inv sp t xs H \<Longrightarrow> space_entry sp i \<longleftrightarrow> 0 < i \<and> i < length t"
  by (simp_all add: space_inv_def space_object_def space_entry_def)

lemma space_hash_frame:
  assumes "space_inv sp t xs H" "space_inv sp' t' xs H'" "same_caps t t'"
  shows "space_entry sp' = space_entry sp" "\<forall>j. space_entry sp j \<longrightarrow> space_object sp' j = space_object sp j"
  using assms(3) same_caps_length [OF assms(3)]
  unfolding fun_eq_iff space_object_eq [OF assms(1)] space_object_eq [OF assms(2)] by (auto simp: same_caps_def)

interpretation space_hash: reverse_hash space_hashes space_object space_entry
  ipc_hash_lookup ipc_hash_insert ipc_hash_delete "IPC_ENTRY_DIST_MAX + 1"
proof
  fix s H i name obj
  assume "space_hashes s H"
  then obtain t xs where inv: "space_inv s t xs H" by (auto simp: space_hashes_def)
  note eq = space_object_eq [OF inv] and D = space_invD [OF inv]
  show "i \<in> H \<Longrightarrow> space_entry s i \<and> space_object s i \<noteq> IO_NULL"
    using hash_inv_bounds [OF D(5)] D(5) by (simp add: eq hash_inv_def)
  show "inj_on (space_object s) H" using D(5) by (simp add: eq hash_inv_def inj_on_def)
  show "i \<in> H \<Longrightarrow> \<exists>name. ipc_hash_lookup s (space_object s i) = Some (Some (name, i))"
    using ipc_hash_lookup_found [OF inv] by (simp add: eq)
  show "\<forall>i\<in>H. space_object s i \<noteq> obj \<Longrightarrow> ipc_hash_lookup s obj = Some None"
    using ipc_hash_lookup_absent [OF inv] by (simp add: eq)
  show "\<exists>s'. ipc_hash_delete s (space_object s i) name i = Some s' \<and> space_hashes s' (H - {i}) \<and>
      space_entry s' = space_entry s \<and> (\<forall>j. space_entry s j \<longrightarrow> space_object s' j = space_object s j)"
    if "i \<in> H" "unat (MACH_PORT_INDEX name) = i"
  proof (rule ipc_hash_delete_spec [OF inv that])
    fix s' t'
    assume r: "ipc_hash_delete s (ie_object (t ! i)) name i = Some s'" "same_caps t t'" "space_inv s' t' xs (H - {i})"
    then show ?thesis
      using space_hash_frame [OF inv r(3,2)] unfolding eq(1) space_hashes_def by blast
  qed
  show "\<exists>s'. ipc_hash_insert s (space_object s i) name i = Some s' \<and> space_hashes s' (insert i H) \<and>
      space_entry s' = space_entry s \<and> (\<forall>j. space_entry s j \<longrightarrow> space_object s' j = space_object s j)"
    if "space_entry s i" "i \<notin> H" "space_object s i \<noteq> IO_NULL" "space_object s i \<notin> space_object s ` H"
      "card H < IPC_ENTRY_DIST_MAX + 1" "unat (MACH_PORT_INDEX name) = i"
  proof -
    have i: "0 < i" "i < length t" "ie_object (t ! i) \<noteq> IO_NULL"
      "\<forall>j\<in>H. ie_object (t ! j) \<noteq> ie_object (t ! i)" "card H \<le> IPC_ENTRY_DIST_MAX"
      using that(1,3,4,5) by (auto simp: eq image_iff)
    show ?thesis
    proof (rule ipc_hash_insert_spec [OF inv i(1,2) that(2) i(3,4,5) that(6)])
      fix s' t'
      assume r: "ipc_hash_insert s (ie_object (t ! i)) name i = Some s'" "same_caps t t'" "space_inv s' t' xs (insert i H)"
      then show ?thesis
        using space_hash_frame [OF inv r(3,2)] unfolding eq(1) space_hashes_def by blast
    qed
  qed
qed

end
