(* ===== verification/Demo_Space.thy ===== *)
theory Demo_Space
imports Ipc_Reverse
begin

text \<open>
  A space that has just been created satisfies the invariant, and a small concrete space on which
  the theorems of the name layer are instantiated: 21 entries, a receive right under entry 1, a
  send right under entry 2, the other entries free in order.
\<close>

section \<open>Creation\<close>

lemma ipc_space_create_spec:
  assumes its: "initial \<le> 254" and mem: "mem (ipc_table_entries ! initial)"
  obtains sp t xs where "ipc_space_create mem seed initial label = Some (Some sp, KERN_SUCCESS)"
    "wf_space sp t xs" "length t = ipc_table_entries ! initial" "set xs = {1..<length t}" "is_label sp = label"
    "os_ref_get_count_mask (is_bits sp) IS_FLAGS_BITS = 2"
proof -
  let ?n = "ipc_table_entries ! initial"
  let ?sp0 = "ipc_space_alloc\<lparr>is_bool_gen := random_bool_init seed\<rparr>"
  have n: "21 \<le> ?n" "?n \<le> 299349" using ipc_table_entries_bounds [of initial] its by auto
  then have len: "0 < ?n" "1 < ?n" "?n < 2 ^ 32" by simp_all
  obtain sp1 t where fresh: "ipc_space_rand_freelist ?sp0 (replicate ?n ipc_entry_zero) 0 ?n = (sp1, t)" by fastforce
  note F = ipc_space_rand_freelist_spec [OF len fresh]
  obtain xs where xs: "fl_path t 0 xs" "distinct xs" "set xs = {0<..<?n}" using F(4) by blast
  have "{0<..<n} = {1..<n}" for n :: nat by auto
  then have free: "set xs = {1..<?n}" using xs(3) by simp
  then have lxs: "length xs = ?n - 1" using distinct_card [OF xs(2)] by simp
  obtain bg en where sp1: "sp1 = ipc_space_alloc\<lparr>is_bool_gen := bg, is_entropy := en\<rparr>"
    using F(1) by (auto simp: rng_only_def)
  let ?sp = "sp1\<lparr>is_bits := 128, is_table_free := word_of_nat (?n - 1), is_table_next := initial + 1,
     is_label := label, is_low_mod := word_of_nat ?n, is_table := Some t\<rparr>"
  have bits: "os_ref_init_count_mask IS_FLAGS_BITS 2 0 = Some 128"
    by (simp add: os_ref_init_count_mask_def os_ref_check_underflow_def IS_FLAGS_BITS_def)
  have res: "ipc_space_create mem seed initial label = Some (Some ?sp, KERN_SUCCESS)"
    unfolding ipc_space_create_def it_entries_alloc_def Let_def bits
    by (simp only: mem fresh if_True option.case prod.case bind.bind_lunit)
  have t0: "unat (ie_size (t ! 0)) = length t" using F(2,3) len(3) by (simp add: unat_of_nat_len)
  have entry: "\<exists>nx. t ! i = ipc_entry_zero\<lparr>ie_bits := IE_BITS_GEN_MASK, ie_request := nx\<rparr>" if "0 < i" "i < ?n" for i
    using F(5) [OF that(1) _ that(2)] by simp
  have used: "entry_unused (t ! i)" "gen_ok (ie_bits (t ! i))" "ie_index (t ! i) = 0" "ie_object (t ! i) = IO_NULL"
      if i: "0 < i" "i < ?n" for i
  proof -
    obtain nx where "t ! i = ipc_entry_zero\<lparr>ie_bits := IE_BITS_GEN_MASK, ie_request := nx\<rparr>" using entry [OF i] by blast
    then show "entry_unused (t ! i)" "gen_ok (ie_bits (t ! i))" "ie_index (t ! i) = 0" "ie_object (t ! i) = IO_NULL"
      using gen_ok_fresh by (simp_all add: entry_unused_def ipc_entry_zero_def mach_consts)
  qed
  have tinv: "table_inv t xs"
    using F(2) t0 len n xs free used by (auto simp: table_inv_def table_sized_def)
  have idx: "ie_index (t ! i) = 0" if "i < length t" for i
    using F(2,7) used(3) [of i] that by (cases "i = 0") auto
  have hash: "hash_inv t {}" by (rule hash_inv_empty) (use F(2) len idx in auto)
  have sends: "sends t = {}" using used(4) F(2) by (auto simp: sends_def)
  have frees: "frees t = set xs" using entry_unused_type [OF used(1)] F(2) free by (auto simp: frees_def)
  have "space_inv ?sp t xs {}"
    using tinv hash hash_exact_small [OF hash] lxs F(2) its len
    by (simp add: space_inv_def sp1 ipc_space_alloc_def unat_of_nat_len)
  then have wf: "wf_space ?sp t xs" by (simp add: wf_space_def sends frees)
  have "os_ref_get_count_mask 128 IS_FLAGS_BITS = 2" by (simp add: os_ref_get_count_mask_def IS_FLAGS_BITS_def)
  then show thesis using free by (intro that [OF res wf F(2)]) (simp_all add: F(2))
qed


section \<open>A concrete space\<close>

definition demo_port :: ipc_object_t where
  "demo_port = 0xffffff8000001000"

definition demo_peer :: ipc_object_t where
  "demo_peer = 0xffffff8000002000"

definition demo_base :: "ipc_entry list" where
  "demo_base = map (\<lambda>i.
     if i = 0 then ipc_entry_zero\<lparr>ie_bits := 21, ie_request := 3\<rparr>
     else if i = 1 then ipc_entry_zero\<lparr>ie_object := demo_port, ie_bits := 0xff020000\<rparr>
     else if i = 2 then ipc_entry_zero\<lparr>ie_object := demo_peer, ie_bits := 0xff010001\<rparr>
     else ipc_entry_zero\<lparr>ie_bits := 0xff000000, ie_request := if i = 20 then 0 else word_of_nat (i + 1)\<rparr>) [0..<21]"

definition demo_table :: "ipc_entry list" where
  "demo_table = demo_base[IH_TABLE_HASH demo_peer 21 :=
     (demo_base ! IH_TABLE_HASH demo_peer 21)\<lparr>ie_index := 2\<rparr>]"

definition demo_space :: ipc_space where
  "demo_space = ipc_space_alloc\<lparr>is_bits := 128, is_table_hashed := 1, is_table_free := 18,
     is_table := Some demo_table, is_table_next := 1, is_low_mod := 21\<rparr>"

lemma demo_hash: "IH_TABLE_HASH demo_peer 21 = 7"
  by (simp add: IH_TABLE_HASH_def os_hash_kernel_pointer_def demo_peer_def bswap32_def)

lemma demo_length [simp]: "length demo_base = 21" "length demo_table = 21"
  by (simp_all add: demo_base_def demo_table_def)

lemma demo_base_nth:
  "i < 21 \<Longrightarrow> demo_base ! i =
     (if i = 0 then ipc_entry_zero\<lparr>ie_bits := 21, ie_request := 3\<rparr>
      else if i = 1 then ipc_entry_zero\<lparr>ie_object := demo_port, ie_bits := 0xff020000\<rparr>
      else if i = 2 then ipc_entry_zero\<lparr>ie_object := demo_peer, ie_bits := 0xff010001\<rparr>
      else ipc_entry_zero\<lparr>ie_bits := 0xff000000, ie_request := if i = 20 then 0 else word_of_nat (i + 1)\<rparr>)"
  by (simp add: demo_base_def)

lemma demo_base_sized: "table_sized demo_base" "hash_inv demo_base {}"
proof -
  show "table_sized demo_base" by (simp add: table_sized_def demo_base_nth)
  show "hash_inv demo_base {}" by (rule hash_inv_empty) (auto simp: demo_base_nth ipc_entry_zero_def)
qed

lemma demo_insert: "ipc_hash_table_insert demo_base demo_peer 2 2 = Some demo_table"
proof -
  have "demo_peer \<noteq> IO_NULL" by (simp add: demo_peer_def mach_consts)
  moreover have "ipc_hash_table_insert_loop 21 demo_base 21 7 0 2 = Some demo_table"
    using ipc_hash_table_insert_loop.simps(2) [of 20 demo_base 21 7 0 2]
    by (simp add: demo_base_nth demo_table_def demo_hash nth_opt_in ipc_entry_zero_def)
  ultimately show ?thesis
    by (simp add: ipc_hash_table_insert_def demo_hash demo_base_nth nth_opt_in kassert_bind Let_def)
qed

lemma demo_table_hash: "same_caps demo_base demo_table" "hash_inv demo_table {2}" "hash_exact demo_table"
proof -
  have "same_caps demo_base demo_table \<and> hash_inv demo_table {2}"
    by (rule ipc_hash_table_insert_spec [OF demo_base_sized, of 2])
      (use demo_insert in \<open>auto simp: demo_base_nth demo_peer_def mach_consts\<close>)
  then show "same_caps demo_base demo_table" "hash_inv demo_table {2}" by simp_all
  then show "hash_exact demo_table" by (intro hash_exact_small [of _ "{2}"]) simp_all
qed

lemma demo_table_nth:
  assumes "i < 21"
  shows "ie_object (demo_table ! i) = ie_object (demo_base ! i)" "ie_bits (demo_table ! i) = ie_bits (demo_base ! i)"
    "ie_request (demo_table ! i) = ie_request (demo_base ! i)"
  using demo_table_hash(1) assms by (simp_all add: same_caps_def)

lemma demo_base_inv: "table_inv demo_base [3..<21]"
proof -
  have "fl_path demo_base 0 [3..<21]"
    by (simp add: upt_rec [of _ 21] demo_base_nth)
  moreover have "gen_ok (ie_bits (demo_base ! i))" if "0 < i" "i < 21" for i
    using that by (simp add: demo_base_nth gen_ok_def gen_num_def roll_num_def roll_limit_def)
  moreover have "entry_unused (demo_base ! i)" if "3 \<le> i" "i < 21" for i
    using that by (simp add: demo_base_nth entry_unused_def ipc_entry_zero_def mach_consts)
  ultimately show ?thesis using demo_base_sized by (simp add: table_inv_def)
qed

lemma demo_sends: "sends demo_table = {2}" and demo_frees: "frees demo_table = {3..<21}"
  by (auto simp: sends_def frees_def demo_table_nth demo_base_nth ipc_entry_zero_def IE_BITS_TYPE_def
      demo_port_def demo_peer_def mach_consts split: if_splits)

lemma demo_space_wf: "wf_space demo_space demo_table [3..<21]"
proof -
  have "table_inv demo_table [3..<21]" by (rule table_inv_same_caps [OF demo_table_hash(1) demo_base_inv])
  moreover have "set [3..<21] = {3..<21::nat}" by (rule set_upt)
  ultimately show ?thesis
    using demo_table_hash
    by (simp del: upt_rec_numeral set_upt add: wf_space_def demo_sends demo_frees space_inv_def demo_space_def ipc_space_alloc_def
        ipc_table_entries_first)
qed

end
