(* ===== verification/Cap_Table.thy ===== *)
theory Cap_Table
imports Ipc_Reverse
begin

text \<open>
  A capability table as a partial function from names to capabilities, the abstraction the name layer
  and the right layer are specified with.
\<close>

section \<open>The abstract view of a table\<close>

text \<open>The capability a name denotes: the object, the rights and the number of user references.\<close>

type_synonym capability = "ipc_object_t \<times> mach_port_type_t \<times> mach_port_urefs_t"

definition cap_of :: "ipc_entry \<Rightarrow> capability" where
  "cap_of e = (ie_object e, IE_BITS_TYPE (ie_bits e), IE_BITS_UREFS (ie_bits e))"

definition caps :: "ipc_entry list \<Rightarrow> mach_port_name_t \<Rightarrow> capability option" where
  "caps t name = (let i = unat (MACH_PORT_INDEX name)
     in if 0 < i \<and> i < length t \<and> name = entry_name t i \<and> IE_BITS_TYPE (ie_bits (t ! i)) \<noteq> 0
        then Some (cap_of (t ! i)) else None)"

lemma caps_entry_name:
  assumes "table_inv t xs" "0 < i" "i < length t"
  shows "caps t (entry_name t i) = (if IE_BITS_TYPE (ie_bits (t ! i)) = 0 then None else Some (cap_of (t ! i)))"
  using entry_name_facts(1) [OF assms] assms by (simp add: caps_def)

lemma caps_SomeE:
  assumes "caps t name = Some c"
  obtains i where "0 < i" "i < length t" "name = entry_name t i" "IE_BITS_TYPE (ie_bits (t ! i)) \<noteq> 0"
    "c = cap_of (t ! i)"
  using assms by (auto simp: caps_def Let_def split: if_splits)

text \<open>Two tables with the same capabilities at the same entries denote the same function.\<close>

lemma caps_eqI:
  assumes inv: "table_inv t xs" "table_inv t' xs'"
    and fwd: "\<And>i. 0 < i \<Longrightarrow> i < length t \<Longrightarrow> IE_BITS_TYPE (ie_bits (t ! i)) \<noteq> 0 \<Longrightarrow>
      i < length t' \<and> same_cap (t ! i) (t' ! i)"
    and bwd: "\<And>i. 0 < i \<Longrightarrow> i < length t' \<Longrightarrow> IE_BITS_TYPE (ie_bits (t' ! i)) \<noteq> 0 \<Longrightarrow>
      i < length t \<and> IE_BITS_TYPE (ie_bits (t ! i)) \<noteq> 0"
  shows "caps t' = caps t"
proof
  fix name
  have eq: "entry_name t' i = entry_name t i" "cap_of (t' ! i) = cap_of (t ! i)" if "same_cap (t ! i) (t' ! i)" for i
    using that by (simp_all add: entry_name_def cap_of_def same_cap_def)
  have "caps t' name = Some c \<longleftrightarrow> caps t name = Some c" for c
  proof
    assume "caps t' name = Some c"
    then obtain i where i: "0 < i" "i < length t'" "name = entry_name t' i" "IE_BITS_TYPE (ie_bits (t' ! i)) \<noteq> 0"
      "c = cap_of (t' ! i)" by (rule caps_SomeE)
    have j: "i < length t" "IE_BITS_TYPE (ie_bits (t ! i)) \<noteq> 0" using bwd [OF i(1,2,4)] by simp_all
    have "same_cap (t ! i) (t' ! i)" using fwd [OF i(1) j] by simp
    then show "caps t name = Some c"
      using caps_entry_name [OF inv(1) i(1) j(1)] j(2) by (simp only: i(3,5) eq if_False)
  next
    assume "caps t name = Some c"
    then obtain i where i: "0 < i" "i < length t" "name = entry_name t i" "IE_BITS_TYPE (ie_bits (t ! i)) \<noteq> 0"
      "c = cap_of (t ! i)" by (rule caps_SomeE)
    have j: "i < length t'" "same_cap (t ! i) (t' ! i)" using fwd [OF i(1,2,4)] by simp_all
    then have "IE_BITS_TYPE (ie_bits (t' ! i)) \<noteq> 0" using i(4) by (simp add: same_cap_def)
    then show "caps t' name = Some c"
      using caps_entry_name [OF inv(2) i(1) j(1)] by (simp only: i(3,5) eq [OF j(2), symmetric] if_False)
  qed
  then show "caps t' name = caps t name" by (cases "caps t name"; cases "caps t' name") auto
qed

text \<open>A table that keeps the capabilities of another denotes the same function.\<close>

lemma caps_kept_eq:
  assumes "table_inv t xs" "table_inv t' xs'" "caps_kept t t'"
  shows "caps t' = caps t"
  by (rule caps_eqI [OF assms(1,2)]) (use assms(3) in \<open>auto simp: caps_kept_def\<close>)

lemma caps_dealloc:
  assumes inv: "table_inv t xs" and i: "0 < i" "i < length t" "i \<notin> set xs"
  shows "caps (dealloc_table t i) = (caps t)(entry_name t i := None)"
proof
  fix name
  let ?t = "dealloc_table t i"
  have inv': "table_inv ?t (i # xs)" by (rule table_inv_dealloc [OF inv i])
  have len: "length ?t = length t" by (simp add: dealloc_table_def)
  have free: "IE_BITS_TYPE (ie_bits (?t ! i)) = 0" using fl_entry(3) [OF inv', of i] entry_unused_type by simp
  have other: "ie_object (?t ! j) = ie_object (t ! j)" "ie_bits (?t ! j) = ie_bits (t ! j)" if "j \<noteq> i" for j
    using that i less_trans [OF i(1,2)] by (auto simp: dealloc_table_def nth_list_update)
  show "caps ?t name = ((caps t)(entry_name t i := None)) name"
  proof (cases "unat (MACH_PORT_INDEX name) = i")
    case True
    then show ?thesis using free by (auto simp: caps_def)
  next
    case False
    then have "name \<noteq> entry_name t i" using entry_name_facts(1) [OF inv i(1,2)] by auto
    then show ?thesis using other [OF False] by (simp add: caps_def Let_def len entry_name_def cap_of_def)
  qed
qed

end
