(* ===== verification/Name_Space.thy ===== *)
theory Name_Space
imports Demo_Space Cap_Table
begin

text \<open>
  What the name layer promises: names as index and generation, the reuse of names, the sizes of
  capability tables, and that lookup, allocation, release and growth implement the view of a
  capability table as a partial function from names to capabilities.
\<close>

section \<open>Properties\<close>

text \<open>
  A name is its index and its generation: putting the two together again gives
  the name, and an index below 2^24 and a generation can be read off the name made from them.
\<close>

lemma name_round_trip:
  "MACH_PORT_MAKE (MACH_PORT_INDEX name) (MACH_PORT_GEN name) = name \<and>
   (index < 2 ^ 24 \<longrightarrow> gen AND IE_BITS_GEN_MASK = gen \<longrightarrow>
      MACH_PORT_INDEX (MACH_PORT_MAKE index gen) = index \<and> MACH_PORT_GEN (MACH_PORT_MAKE index gen) = gen)"
  by (simp add: mach_consts)

lemma name_round_trip_at:
  "MACH_PORT_INDEX (MACH_PORT_MAKE 5 0x07000000) = 5 \<and> MACH_PORT_GEN (MACH_PORT_MAKE 5 0x07000000) = 0x07000000"
  using name_round_trip [of 0 5 "0x07000000"] by (simp add: mach_consts)

text \<open>
  C9 (safety of reuse).  However the rollover points are drawn, an entry that is claimed and freed
  up to fourteen times in a row does not come back to a generation it had: a stale name stays
  invalid for that long.
\<close>

theorem generations_fresh:
  assumes "gen_ok bits" "length pre + length rolls \<le> 14" "rolls \<noteq> []"
  shows "IE_BITS_GEN (ipc_entry_gens bits (pre @ rolls)) \<noteq> IE_BITS_GEN (ipc_entry_gens bits pre)"
proof -
  have "ipc_entry_gens bits (pre @ rolls) = ipc_entry_gens (ipc_entry_gens bits pre) rolls"
    by (induction pre arbitrary: bits) simp_all
  then show ?thesis
    using ipc_entry_gens_fresh [OF gen_ok_gens [OF assms(1)] assms(3), of pre] assms(2) by (simp add: IE_BITS_GEN_eq_iff)
qed

theorem generations_fresh_witness:
  "IE_BITS_GEN (ipc_entry_gens 0x03000000 ([0, 1] @ [2])) \<noteq> IE_BITS_GEN (ipc_entry_gens 0x03000000 [0, 1])"
  by (rule generations_fresh)
    (simp_all add: gen_ok_def gen_num_def roll_num_def roll_limit_def)

text \<open>
  C10 (bounds).  The exact period of a generation counter: with the rollover setting \<open>r\<close> an entry
  goes through 63 - 16 r generations, in steps of one, before the counter restarts.
\<close>

theorem generation_period:
  assumes "gen_num bits = 3" "length rolls \<le> 63 - 16 * roll_num bits"
  shows "gen_num (ipc_entry_gens bits rolls) =
    (if length rolls < 63 - 16 * roll_num bits then 3 + 4 * length rolls else 3)"
proof -
  have r: "roll_num bits < 4" by (simp add: roll_num_def)
  have ok: "gen_ok bits" using assms(1) r by (simp add: gen_ok_def roll_limit_def)
  have "(length rolls < 63 - 16 * roll_num bits \<longrightarrow>
         gen_num (ipc_entry_gens bits rolls) = 3 + 4 * length rolls \<and>
         roll_num (ipc_entry_gens bits rolls) = roll_num bits) \<and>
      (length rolls = 63 - 16 * roll_num bits \<longrightarrow> gen_num (ipc_entry_gens bits rolls) = 3)"
    using assms(2)
  proof (induction rolls rule: rev_induct)
    case Nil
    then show ?case using assms(1) r by simp
  next
    case (snoc roll rolls)
    have l: "length rolls < 63 - 16 * roll_num bits" using snoc.prems by simp
    then have c: "gen_num (ipc_entry_gens bits rolls) = 3 + 4 * length rolls"
      "roll_num (ipc_entry_gens bits rolls) = roll_num bits" using snoc.IH by auto
    show ?case
      using ipc_entry_next_gen_num [OF gen_ok_gens [OF ok], of rolls roll] c l r
      unfolding ipc_entry_gens_snoc roll_limit_def by auto
  qed
  then show ?thesis using assms(2) by auto
qed

theorem generation_period_witness:
  "gen_num (ipc_entry_gens 0x03c00000 (replicate 15 0)) = 3"
  using generation_period [of "0x03c00000" "replicate 15 0"] by (simp add: gen_num_def roll_num_def)



text \<open>
  C3 (refinement).  A lookup finds exactly the capability that a name denotes, and never panics:
  names with another generation, of free entries or outside the table denote nothing.
\<close>

theorem entry_lookup_refines:
  assumes "space_inv sp t xs H"
  shows "\<exists>r. ipc_entry_lookup sp name = Some r \<and> map_option (\<lambda>i. cap_of (t ! i)) r = caps t name \<and>
    (\<forall>i. r = Some i \<longrightarrow> name = entry_name t i)"
proof -
  obtain r where r: "ipc_entry_lookup sp name = Some r" unfolding ipc_entry_lookup_eq [OF assms] by simp
  show ?thesis
  proof (cases r)
    case None
    then have "caps t name = None"
      using r ipc_entry_lookup_None_iff [OF assms, of name] by (auto simp: caps_def mach_consts Let_def)
    then show ?thesis using r None by simp
  next
    case (Some i)
    then have "0 < i" "i < length t" "name = entry_name t i" "IE_BITS_TYPE (ie_bits (t ! i)) \<noteq> 0"
      using r ipc_entry_lookup_Some_iff [OF assms, of name i] by (auto simp: mach_consts)
    then show ?thesis using r Some caps_entry_name [OF space_invD(3) [OF assms]] by simp
  qed
qed

lemma demo_space_inv: "space_inv demo_space demo_table [3..<21] {2}"
  using demo_space_wf unfolding wf_space_def demo_sends by simp

theorem entry_lookup_refines_witness:
  "\<exists>r. ipc_entry_lookup demo_space 0x2ff = Some r \<and>
     map_option (\<lambda>i. cap_of (demo_table ! i)) r = caps demo_table 0x2ff \<and>
     (\<forall>i. r = Some i \<longrightarrow> 0x2ff = entry_name demo_table i)"
  by (rule entry_lookup_refines [OF demo_space_inv])

text \<open>
  C8 (invariant, error).  Creating a space gives a well-formed space without capabilities that holds
  the label and two references, or reports the lack of memory.
\<close>

theorem space_create_ok:
  assumes "initial \<le> 254"
  shows "if mem (ipc_table_entries ! initial)
    then \<exists>sp t xs. ipc_space_create mem seed initial label = Some (Some sp, KERN_SUCCESS) \<and> wf_space sp t xs \<and>
           length t = ipc_table_entries ! initial \<and> caps t = Map.empty \<and> is_label sp = label \<and>
           os_ref_get_count_mask (is_bits sp) IS_FLAGS_BITS = 2
    else ipc_space_create mem seed initial label = Some (None, KERN_RESOURCE_SHORTAGE)"
proof (cases "mem (ipc_table_entries ! initial)")
  case True
  obtain sp t xs where sp: "ipc_space_create mem seed initial label = Some (Some sp, KERN_SUCCESS)"
      "wf_space sp t xs" "length t = ipc_table_entries ! initial" "set xs = {1..<length t}" "is_label sp = label"
      "os_ref_get_count_mask (is_bits sp) IS_FLAGS_BITS = 2"
    using ipc_space_create_spec [of initial mem, OF assms True] by blast
  have "IE_BITS_TYPE (ie_bits (t ! i)) = 0" if "0 < i" "i < length t" for i
  proof -
    have "i \<in> frees t" using that sp(2,4) by (auto simp: wf_space_def)
    then show ?thesis by (simp add: frees_def)
  qed
  then have "caps t name = None" for name by (auto simp: caps_def Let_def)
  then show ?thesis using sp True by auto
qed (simp add: ipc_space_create_def it_entries_alloc_def)

theorem space_create_ok_witness:
  "\<exists>sp t xs. ipc_space_create (\<lambda>_. True) (1, 2, 3, 4) 0 7 = Some (Some sp, KERN_SUCCESS) \<and> wf_space sp t xs \<and>
     length t = 21 \<and> caps t = Map.empty \<and> is_label sp = 7 \<and>
     os_ref_get_count_mask (is_bits sp) IS_FLAGS_BITS = 2"
  using space_create_ok [of 0 "\<lambda>_. True" "(1, 2, 3, 4)" 7] by (simp add: ipc_table_entries_first)

text \<open>
  C1 (functional, error).  Allocating an entry, growing the table as often as needed, ends without
  a panic and changes no capability.  On success the entry is off the free list, empty, holds the
  object and has a valid name that denoted nothing before; the errors are lack of space or memory.
\<close>

theorem entry_alloc_ok:
  assumes "wf_space sp t xs" "card (sends t) \<le> IPC_ENTRY_DIST_MAX + 1"
  shows "\<exists>sp' kr r t' xs'. ipc_entry_alloc mem sp object = Some (sp', kr, r) \<and>
    space_inv sp' t' xs' (sends t') \<and> caps t' = caps t \<and>
    (case r of
       None \<Rightarrow> (kr = KERN_NO_SPACE \<or> kr = KERN_RESOURCE_SHORTAGE) \<and> set xs' = frees t'
     | Some (name, i) \<Rightarrow> kr = KERN_SUCCESS \<and> 0 < i \<and> i < length t' \<and> set xs' = frees t' - {i} \<and>
         name = entry_name t' i \<and> MACH_PORT_VALID name \<and> caps t name = None \<and>
         ie_object (t' ! i) = object \<and> ie_request (t' ! i) = IE_REQ_NONE \<and>
         IE_BITS_TYPE (ie_bits (t' ! i)) = 0 \<and> IE_BITS_UREFS (ie_bits (t' ! i)) = 0)"
proof -
  have inv: "space_inv sp t xs (sends t)" using assms(1) by (simp add: wf_space_def)
  have low: "IE_BITS_UREFS b = 0" if "b AND 0x003fffff = 0" for b
  proof -
    have "(b AND 0x003fffff) AND 0xffff = 0" using that by simp
    then show ?thesis by (simp add: IE_BITS_UREFS_def mach_consts and.assoc)
  qed
  from ipc_entry_alloc_outcome [OF assms, of object mem] consider
      (got) sp' t' x xs' where "ipc_entry_alloc mem sp object = Some (sp', KERN_SUCCESS, Some (entry_name t' x, x))"
        "space_inv sp' t' xs' (sends t')" "caps_kept t t'" "0 < x" "x < length t'" "set xs' = frees t' - {x}"
        "ie_object (t' ! x) = object" "ie_request (t' ! x) = 0" "ie_bits (t' ! x) AND 0x003fffff = 0"
    | (failed) sp' kr t' xs' where "ipc_entry_alloc mem sp object = Some (sp', kr, None)"
        "kr = KERN_NO_SPACE \<or> kr = KERN_RESOURCE_SHORTAGE" "space_inv sp' t' xs' (sends t')" "caps_kept t t'" "set xs' = frees t'"
    unfolding alloc_outcome_def wf_space_def by blast
  then show ?thesis
  proof cases
    case got
    note inv' = space_invD(3) [OF got(2)]
    have "caps t' = caps t" by (rule caps_kept_eq [OF space_invD(3) [OF inv] inv' got(3)])
    moreover have type: "IE_BITS_TYPE (ie_bits (t' ! x)) = 0" using type_of_low [OF got(9)] .
    moreover have "caps t' (entry_name t' x) = None" using caps_entry_name [OF inv' got(4,5)] type by simp
    ultimately show ?thesis
      using got low [OF got(9)] entry_name_facts(3) [OF inv' got(4,5)]
      by (intro exI [of _ sp'] exI [of _ KERN_SUCCESS] exI [of _ "Some (entry_name t' x, x)"] exI [of _ t'] exI [of _ xs'])
        (simp add: mach_consts)
  next
    case failed
    then show ?thesis using caps_kept_eq [OF space_invD(3) [OF inv] space_invD(3) [OF failed(3)] failed(4)] by fastforce
  qed
qed

theorem entry_alloc_ok_witness:
  "\<exists>sp' kr r t' xs'. ipc_entry_alloc (\<lambda>_. True) demo_space demo_port = Some (sp', kr, r) \<and>
    space_inv sp' t' xs' (sends t') \<and> caps t' = caps demo_table \<and>
    (case r of
       None \<Rightarrow> (kr = KERN_NO_SPACE \<or> kr = KERN_RESOURCE_SHORTAGE) \<and> set xs' = frees t'
     | Some (name, i) \<Rightarrow> kr = KERN_SUCCESS \<and> 0 < i \<and> i < length t' \<and> set xs' = frees t' - {i} \<and>
         name = entry_name t' i \<and> MACH_PORT_VALID name \<and> caps demo_table name = None \<and>
         ie_object (t' ! i) = demo_port \<and> ie_request (t' ! i) = IE_REQ_NONE \<and>
         IE_BITS_TYPE (ie_bits (t' ! i)) = 0 \<and> IE_BITS_UREFS (ie_bits (t' ! i)) = 0)"
  by (rule entry_alloc_ok [OF demo_space_wf]) (simp add: demo_sends)

text \<open>
  C4 (functional, error).  Allocating an entry under a name the caller chooses ends without a panic
  and changes no capability.  On success the name is that of the entry, which either is in use
  already or is taken off the free list with the generation of the name.
\<close>

theorem entry_alloc_name_ok:
  assumes "wf_space sp t xs" "card (sends t) \<le> IPC_ENTRY_DIST_MAX + 1"
  shows "\<exists>sp' kr r t' xs'. ipc_entry_alloc_name mem sp name = Some (sp', kr, r) \<and>
    space_inv sp' t' xs' (sends t') \<and> caps t' = caps t \<and>
    (case r of
       None \<Rightarrow> kr \<in> {KERN_NO_SPACE, KERN_INVALID_VALUE, KERN_FAILURE, KERN_RESOURCE_SHORTAGE} \<and> set xs' = frees t'
     | Some i \<Rightarrow> kr = KERN_SUCCESS \<and> 0 < i \<and> i < length t' \<and> name = entry_name t' i \<and>
         (if caps t name = None
          then set xs' = frees t' - {i} \<and> ie_object (t' ! i) = IO_NULL \<and> ie_request (t' ! i) = IE_REQ_NONE \<and>
               ie_bits (t' ! i) = MACH_PORT_GEN name
          else set xs' = frees t'))"
proof -
  note inv = assms(1) [unfolded wf_space_def, THEN conjunct1, THEN space_invD(3)]
  from ipc_entry_alloc_name_outcome [OF assms, of name mem] consider
      (used) sp' t' x xs' where "ipc_entry_alloc_name mem sp name = Some (sp', KERN_SUCCESS, Some x)"
        "wf_space sp' t' xs'" "caps_kept t t'" "0 < x" "x < length t'" "name = entry_name t' x"
        "IE_BITS_TYPE (ie_bits (t' ! x)) \<noteq> 0"
    | (fresh) sp' t' x xs' where "ipc_entry_alloc_name mem sp name = Some (sp', KERN_SUCCESS, Some x)"
        "space_inv sp' t' xs' (sends t')" "caps_kept t t'" "0 < x" "x < length t'" "name = entry_name t' x"
        "set xs' = frees t' - {x}" "ie_object (t' ! x) = IO_NULL" "ie_request (t' ! x) = 0"
        "ie_bits (t' ! x) = MACH_PORT_GEN name"
    | (failed) sp' kr t' xs' where "ipc_entry_alloc_name mem sp name = Some (sp', kr, None)"
        "kr \<in> {KERN_NO_SPACE, KERN_INVALID_VALUE, KERN_FAILURE, KERN_RESOURCE_SHORTAGE}"
        "wf_space sp' t' xs'" "caps_kept t t'"
    unfolding alloc_name_outcome_def by blast
  then show ?thesis
  proof cases
    case used
    have inv': "space_inv sp' t' xs' (sends t')" "set xs' = frees t'" using used(2) by (simp_all add: wf_space_def)
    have "caps t' = caps t" by (rule caps_kept_eq [OF inv space_invD(3) [OF inv'(1)] used(3)])
    moreover have "caps t' name \<noteq> None"
      using caps_entry_name [OF space_invD(3) [OF inv'(1)] used(4,5)] used(7) by (simp add: used(6))
    ultimately show ?thesis
      using used inv'
      by (intro exI [of _ sp'] exI [of _ KERN_SUCCESS] exI [of _ "Some x"] exI [of _ t'] exI [of _ xs']) auto
  next
    case fresh
    have "caps t' = caps t" by (rule caps_kept_eq [OF inv space_invD(3) [OF fresh(2)] fresh(3)])
    moreover have "IE_BITS_TYPE (ie_bits (t' ! x)) = 0" by (simp add: fresh(10) type_of_GEN)
    then have "caps t' name = None"
      using caps_entry_name [OF space_invD(3) [OF fresh(2)] fresh(4,5)] by (simp add: fresh(6))
    ultimately show ?thesis
      using fresh
      by (intro exI [of _ sp'] exI [of _ KERN_SUCCESS] exI [of _ "Some x"] exI [of _ t'] exI [of _ xs'])
        (simp add: mach_consts)
  next
    case failed
    have "space_inv sp' t' xs' (sends t')" "set xs' = frees t'" using failed(3) by (simp_all add: wf_space_def)
    moreover have "caps t' = caps t" by (rule caps_kept_eq [OF inv space_invD(3) [OF calculation(1)] failed(4)])
    ultimately show ?thesis
      using failed
      by (intro exI [of _ sp'] exI [of _ kr] exI [of _ "None :: nat option"] exI [of _ t'] exI [of _ xs']) simp
  qed
qed

theorem entry_alloc_name_ok_witness:
  "\<exists>sp' kr r t' xs'. ipc_entry_alloc_name (\<lambda>_. True) demo_space 0x507 = Some (sp', kr, r) \<and>
    space_inv sp' t' xs' (sends t') \<and> caps t' = caps demo_table"
  using entry_alloc_name_ok [OF demo_space_wf, of "\<lambda>_. True" "0x507"] by (auto simp: demo_sends)

text \<open>
  C5 (functional, invariant).  Releasing an entry that is in use, not hashed and without a pending
  request removes exactly the capability of its name, and the entry becomes the first of the free
  list: the next claim takes it again, under another name.
\<close>

theorem entry_dealloc_ok:
  assumes "space_inv sp t xs H" "0 < i" "i < length t" "i \<notin> set xs" "i \<notin> H" "ie_request (t ! i) = IE_REQ_NONE"
  shows "\<exists>sp' t'. ipc_entry_dealloc sp (ie_object (t ! i)) (entry_name t i) i = Some sp' \<and>
    space_inv sp' t' (i # xs) H \<and> caps t' = (caps t)(entry_name t i := None) \<and>
    (\<forall>object. \<exists>sp'' name. ipc_entry_claim sp' object = Some (sp'', name, i) \<and> name \<noteq> entry_name t i)"
proof -
  let ?t = "dealloc_table t i"
  obtain sp' where sp': "ipc_entry_dealloc sp (ie_object (t ! i)) (entry_name t i) i = Some sp'"
      "space_inv sp' ?t (i # xs) H"
    using ipc_entry_dealloc_spec [OF assms] by blast
  have "IE_BITS_GEN (ie_bits (?t ! i)) = IE_BITS_GEN (ie_bits (t ! i))"
    using assms(2,3) by (simp add: dealloc_table_def IE_BITS_GEN_def mach_consts and.assoc)
  then have name: "entry_name ?t i = entry_name t i" by (simp add: entry_name_def)
  have "\<exists>sp'' name. ipc_entry_claim sp' object = Some (sp'', name, i) \<and> name \<noteq> entry_name t i" for object
    by (rule ipc_entry_claim_spec [OF sp'(2), of object])
      (use claim_name_fresh [OF space_invD(3) [OF sp'(2)], unfolded name] in blast)
  then show ?thesis
    using sp' caps_dealloc [OF space_invD(3) [OF assms(1)] assms(2,3,4)] by blast
qed

theorem entry_dealloc_ok_witness:
  "\<exists>sp' t'. ipc_entry_dealloc demo_space (ie_object (demo_table ! 1)) (entry_name demo_table 1) 1 = Some sp' \<and>
    space_inv sp' t' (1 # [3..<21]) {2} \<and> caps t' = (caps demo_table)(entry_name demo_table 1 := None) \<and>
    (\<forall>object. \<exists>sp'' name. ipc_entry_claim sp' object = Some (sp'', name, 1) \<and> name \<noteq> entry_name demo_table 1)"
  by (rule entry_dealloc_ok [OF demo_space_inv])
    (simp_all add: demo_table_nth demo_base_nth ipc_entry_zero_def mach_consts)



text \<open>
  C6 (functional).  Inserting an entry into the reverse hash of a space: afterwards its object leads
  to the entry, and every other object to what it led to before.
\<close>

theorem hash_insert_ok:
  assumes "space_hashes sp H" "space_entry sp i" "i \<notin> H" "space_object sp i \<noteq> IO_NULL"
    "space_object sp i \<notin> space_object sp ` H" "card H < IPC_ENTRY_DIST_MAX + 1" "unat (MACH_PORT_INDEX name) = i"
  shows "\<exists>sp'. ipc_hash_insert sp (space_object sp i) name i = Some sp' \<and> space_hashes sp' (insert i H) \<and>
    (\<forall>obj j. (\<exists>n. ipc_hash_lookup sp' obj = Some (Some (n, j))) \<longleftrightarrow>
       (if obj = space_object sp i then j = i else (\<exists>n. ipc_hash_lookup sp obj = Some (Some (n, j)))))"
  by (rule space_hash.find_after_ins [OF assms])

lemma demo_hashes: "space_hashes demo_space {2}"
  unfolding space_hashes_def using demo_space_inv by blast

lemma demo_objects:
  "space_object demo_space (Suc 0) = demo_port" "space_object demo_space 2 = demo_peer" "space_entry demo_space (Suc 0)"
  by (simp_all add: space_object_def space_entry_def demo_space_def demo_table_nth demo_base_nth)

theorem hash_insert_ok_witness:
  "\<exists>sp'. ipc_hash_insert demo_space (space_object demo_space 1) 0x1ff 1 = Some sp' \<and> space_hashes sp' (insert 1 {2}) \<and>
    (\<forall>obj j. (\<exists>n. ipc_hash_lookup sp' obj = Some (Some (n, j))) \<longleftrightarrow>
       (if obj = space_object demo_space 1 then j = 1 else (\<exists>n. ipc_hash_lookup demo_space obj = Some (Some (n, j)))))"
  by (rule hash_insert_ok [OF demo_hashes])
    (simp_all add: demo_objects demo_port_def demo_peer_def mach_consts MACH_PORT_INDEX_def IPC_ENTRY_DIST_MAX_def)

text \<open>
  C7 (functional).  Deleting an entry from the reverse hash of a space: afterwards its object leads
  nowhere, and every other object to what it led to before.
\<close>

theorem hash_delete_ok:
  assumes "space_hashes sp H" "i \<in> H" "unat (MACH_PORT_INDEX name) = i"
  shows "\<exists>sp'. ipc_hash_delete sp (space_object sp i) name i = Some sp' \<and> space_hashes sp' (H - {i}) \<and>
    (\<forall>obj j. (\<exists>n. ipc_hash_lookup sp' obj = Some (Some (n, j))) \<longleftrightarrow>
       obj \<noteq> space_object sp i \<and> (\<exists>n. ipc_hash_lookup sp obj = Some (Some (n, j))))"
  by (rule space_hash.find_after_del [OF assms])

theorem hash_delete_ok_witness:
  "\<exists>sp'. ipc_hash_delete demo_space (space_object demo_space 2) 0x2ff 2 = Some sp' \<and> space_hashes sp' ({2} - {2}) \<and>
    (\<forall>obj j. (\<exists>n. ipc_hash_lookup sp' obj = Some (Some (n, j))) \<longleftrightarrow>
       obj \<noteq> space_object demo_space 2 \<and> (\<exists>n. ipc_hash_lookup demo_space obj = Some (Some (n, j))))"
  by (rule hash_delete_ok [OF demo_hashes]) (simp_all add: MACH_PORT_INDEX_def)

end
