(* ===== verification/Ipc_State.thy ===== *)
theory Ipc_State
imports Ipc_Reverse
begin

text \<open>
  The state the port layer works on: ports, port sets and spaces in an explicit store, by address.

  \<^item> \<open>ipc_object\<close>, \<open>ipc_port\<close>, \<open>ipc_pset\<close> are the structures of \<^verbatim>\<open>ipc_object.h\<close>, \<^verbatim>\<open>ipc_port.h\<close>
    and \<^verbatim>\<open>ipc_pset.h\<close>; a port extends an object the way the C structure embeds it.  A union is one
    64-bit field, named after its first member, with the other members as abbreviations.  Waiting
    receivers are not represented; \<open>ip_waitq_valid\<close> says that the wait queue has not been
    invalidated, \<open>ip_psets\<close> lists the port sets it is linked to and \<open>send_waiters\<close> counts the threads
    blocked on a full queue.
  \<^item> The store maps an address to the object that lives there.  An object whose last reference is
    released is removed, and any access to a missing address is \<open>None\<close>: a routine that yields
    \<open>Some\<close> has not used an object after its release.
  \<^item> \<open>env\<close> is what these routines read of the rest of the kernel; it never changes.
  \<^item> \<open>events\<close> records, in order, the calls into code that is outside the model: the notification
    stubs generated from \<^verbatim>\<open>mach/notify.defs\<close>, kernel-object callbacks, wake-ups, turnstile updates,
    importance assertions, message clean-up and guard exceptions.
\<close>

type_synonym ipc_port_t = "64 word"
type_synonym ipc_pset_t = "64 word"
type_synonym ipc_space_t = "64 word"
type_synonym task_t = "64 word"
type_synonym ipc_kmsg_t = "64 word"
type_synonym ipc_importance_task_t = "64 word"
type_synonym mach_port_mscount_t = "32 word"
type_synonym mach_port_rights_t = "32 word"
type_synonym ipc_port_timestamp_t = "32 word"
type_synonym ipc_port_request_index_t = "32 word"


section \<open>Objects\<close>

record ipc_object =
  io_bits :: "32 word"
  io_references :: "32 word"

record ipc_port_request =
  ipr_soright :: ipc_port_t
  ipr_name :: mach_port_name_t

text \<open>
  A table of requests: the size index kept in the header (slot 0) and the slots.  The free-list
  link \<open>ipr_next\<close> shares the low half of \<open>ipr_soright\<close>.
\<close>

record ipc_request_table =
  ipr_size :: nat
  ipr_slots :: "ipc_port_request list"

record ipc_port = ipc_object +
  ip_waitq_valid :: bool
  ip_psets :: "ipc_pset_t list"
  ip_fullwaiters :: bool
  ip_sprequests :: bool
  ip_spimportant :: bool
  ip_impdonation :: bool
  ip_tempowner :: bool
  ip_guarded :: bool
  ip_strict_guard :: bool
  ip_specialreply :: bool
  ip_sync_bootstrap_checkin :: bool
  ip_immovable_receive :: bool
  ip_no_grant :: bool
  ip_immovable_send :: bool
  ip_tg_block_tracking :: bool
  ip_pinned :: bool
  ip_service_port :: bool
  ip_has_watchport :: bool
  imq_messages :: "ipc_kmsg_t list"
  imq_seqno :: "32 word"
  ip_receiver_name :: mach_port_name_t
  imq_msgcount :: "16 word"
  imq_qlimit :: "16 word"
  ip_reply_context :: "32 word"
  ip_receiver :: ipc_space_t
  ip_kobject :: "64 word"
  ip_pdrequest :: ipc_port_t
  ip_nsrequest :: ipc_port_t
  ip_requests :: "ipc_request_table option"
  ip_premsg :: ipc_kmsg_t
  ip_context :: "64 word"
  ip_impcount :: "32 word"
  ip_mscount :: mach_port_mscount_t
  ip_srights :: mach_port_rights_t
  ip_sorights :: mach_port_rights_t
  ip_splabel :: "64 word"

abbreviation ip_destination :: "ipc_port \<Rightarrow> ipc_port_t" where
  "ip_destination port \<equiv> ip_receiver port"

abbreviation ip_timestamp :: "ipc_port \<Rightarrow> ipc_port_timestamp_t" where
  "ip_timestamp port \<equiv> ucast (ip_receiver port)"

abbreviation ip_imp_task :: "ipc_port \<Rightarrow> ipc_importance_task_t" where
  "ip_imp_task port \<equiv> ip_kobject port"

abbreviation ip_twe :: "ipc_port \<Rightarrow> 64 word" where
  "ip_twe port \<equiv> ip_pdrequest port"

abbreviation ip_kolabel :: "ipc_port \<Rightarrow> 64 word" where
  "ip_kolabel port \<equiv> ip_splabel port"

record ipc_pset = ipc_object +
  ips_waitq_valid :: bool
  ips_wqset_index :: mach_port_index_t


section \<open>The state\<close>

datatype ipc_event =
    Mach_notify_port_deleted ipc_port_t mach_port_name_t
  | Mach_notify_send_possible ipc_port_t mach_port_name_t
  | Mach_notify_port_destroyed ipc_port_t ipc_port_t
  | Mach_notify_no_senders ipc_port_t mach_port_mscount_t
  | Mach_notify_send_once ipc_port_t
  | Mach_notify_dead_name ipc_port_t mach_port_name_t
  | Kobject_no_senders ipc_port_t mach_port_mscount_t
  | Kobject_destroy ipc_port_t
  | Task_suspension_send_once ipc_port_t
  | Label_free "64 word"
  | Service_label_dealloc "64 word" bool
  | Mqueue_changed ipc_space_t ipc_object_t
  | Senders_wakeup ipc_port_t
  | Turnstile_recompute_push ipc_port_t
  | Turnstile_prepare ipc_port_t
  | Turnstile_complete ipc_port_t
  | Turnstile_link ipc_port_t ipc_port_t
  | Special_reply_adjust ipc_port_t
  | Sync_link_adjust ipc_port_t bool
  | Rcv_thread_boost_clear ipc_port_t
  | Knote_turnstile_prepare ipc_port_t
  | Watchport_deallocate "64 word"
  | Kmsg_clean ipc_kmsg_t
  | Kmsg_free ipc_kmsg_t
  | Importance_hold ipc_importance_task_t "32 word"
  | Importance_drop ipc_importance_task_t "32 word"
  | Importance_reference ipc_importance_task_t
  | Importance_release ipc_importance_task_t
  | Guard_exception mach_port_name_t "64 word" "64 word" "32 word"

record ipc_env =
  ipc_space_kernel :: ipc_space_t
  is_task :: "ipc_space_t \<Rightarrow> task_t"
  task_imp_base :: "task_t \<Rightarrow> ipc_importance_task_t"
  get_threadtask :: "64 word \<Rightarrow> task_t"
  current_imp_base :: ipc_importance_task_t
  is_any_receiver_type :: "ipc_importance_task_t \<Rightarrow> bool"
  is_importance_donor :: bool
  iko_op_no_senders :: "32 word \<Rightarrow> bool"
  iko_op_permanent :: "32 word \<Rightarrow> bool"
  iko_op_destroy :: "32 word \<Rightarrow> bool"
  iko_op_stable :: "32 word \<Rightarrow> bool"
  iko_op_allow_upgrade :: "32 word \<Rightarrow> bool"
  ikm_prealloc_busy :: "ipc_kmsg_t \<Rightarrow> bool"
  current_is_initproc :: bool
  current_space :: ipc_space_t
  task_is_immovable :: "ipc_space_t \<Rightarrow> bool"
  task_is_pinned :: "ipc_space_t \<Rightarrow> bool"
  task_immovable_hard :: bool
  task_pinned_hard :: bool
  ith_knote :: "64 word"
  is_remote_node :: "ipc_space_t \<Rightarrow> bool"
  ith_msg_addr :: "64 word"

record ipc_state =
  ports :: "ipc_port_t \<rightharpoonup> ipc_port"
  psets :: "ipc_pset_t \<rightharpoonup> ipc_pset"
  spaces :: "ipc_space_t \<rightharpoonup> ipc_space"
  twe_pdrequest :: "64 word \<rightharpoonup> ipc_port_t"
  ispl_flags :: "64 word \<Rightarrow> 32 word"
  ispl_attr :: "64 word \<Rightarrow> mach_port_name_t \<times> 64 word"
  ikol_label :: "64 word \<Rightarrow> ipc_label_t"
  ikol_alt_port :: "64 word \<Rightarrow> ipc_port_t"
  ipc_port_timestamp_data :: ipc_port_timestamp_t
  send_waiters :: "ipc_port_t \<Rightarrow> nat"
  ith_messages :: "ipc_kmsg_t list"
  ith_assertions :: "32 word"
  env :: ipc_env
  events :: "ipc_event list"

definition event :: "ipc_state \<Rightarrow> ipc_event \<Rightarrow> ipc_state" where
  "event s ev = s\<lparr>events := events s @ [ev]\<rparr>"

definition set_port :: "ipc_state \<Rightarrow> ipc_port_t \<Rightarrow> ipc_port \<Rightarrow> ipc_state" where
  "set_port s p port = s\<lparr>ports := (ports s)(p \<mapsto> port)\<rparr>"

definition mod_port :: "ipc_state \<Rightarrow> ipc_port_t \<Rightarrow> (ipc_port \<Rightarrow> ipc_port) \<Rightarrow> ipc_state option" where
  "mod_port s p f = do { port \<leftarrow> ports s p; Some (s\<lparr>ports := (ports s)(p \<mapsto> f port)\<rparr>) }"

definition mod_pset :: "ipc_state \<Rightarrow> ipc_pset_t \<Rightarrow> (ipc_pset \<Rightarrow> ipc_pset) \<Rightarrow> ipc_state option" where
  "mod_pset s p f = do { pset \<leftarrow> psets s p; Some (s\<lparr>psets := (psets s)(p \<mapsto> f pset)\<rparr>) }"

text \<open>Running an operation of the space layer on the space at an address.\<close>

definition on_space ::
    "ipc_state \<Rightarrow> ipc_space_t \<Rightarrow> (ipc_space \<Rightarrow> ipc_space option) \<Rightarrow> ipc_state option" where
  "on_space s a f = do { sp \<leftarrow> spaces s a; sp \<leftarrow> f sp; Some (s\<lparr>spaces := (spaces s)(a \<mapsto> sp)\<rparr>) }"

definition get_entry :: "ipc_state \<Rightarrow> ipc_space_t \<Rightarrow> nat \<Rightarrow> ipc_entry option" where
  "get_entry s a i = do { sp \<leftarrow> spaces s a; t \<leftarrow> is_active_table sp; nth_opt t i }"

definition mod_entry ::
    "ipc_state \<Rightarrow> ipc_space_t \<Rightarrow> nat \<Rightarrow> (ipc_entry \<Rightarrow> ipc_entry) \<Rightarrow> ipc_state option" where
  "mod_entry s a i f = on_space s a (\<lambda>sp. do {
     t \<leftarrow> is_active_table sp;
     e \<leftarrow> nth_opt t i;
     Some (sp\<lparr>is_table := Some (t[i := f e])\<rparr>)
   })"


section \<open>Bits of an object\<close>

definition IO_BITS_KOTYPE :: "32 word" where
  "IO_BITS_KOTYPE = 0x000003ff"

definition IO_BITS_KOBJECT :: "32 word" where
  "IO_BITS_KOBJECT = 0x00000800"

definition IO_BITS_KOLABEL :: "32 word" where
  "IO_BITS_KOLABEL = 0x00000400"

definition IO_BITS_OTYPE :: "32 word" where
  "IO_BITS_OTYPE = 0x7fff0000"

definition IO_BITS_ACTIVE :: "32 word" where
  "IO_BITS_ACTIVE = 0x80000000"

definition IP_BIT_PREALLOC :: "32 word" where
  "IP_BIT_PREALLOC = 0x00008000"

definition IP_BIT_FILTER_MSG :: "32 word" where
  "IP_BIT_FILTER_MSG = 0x00001000"

definition IOT_PORT :: "32 word" where
  "IOT_PORT = 0"

definition IOT_PORT_SET :: "32 word" where
  "IOT_PORT_SET = 1"

definition IOT_NUMBER :: "32 word" where
  "IOT_NUMBER = 2"

definition ITH_KNOTE_NULL :: "64 word" where
  "ITH_KNOTE_NULL = 0"

definition ITH_KNOTE_PSEUDO :: "64 word" where
  "ITH_KNOTE_PSEUDO = 0xdeadbeef"

definition io_bits_or :: "'a ipc_object_scheme \<Rightarrow> 32 word \<Rightarrow> 'a ipc_object_scheme" where
  "io_bits_or io b = io\<lparr>io_bits := io_bits io OR b\<rparr>"

definition io_bits_andnot :: "'a ipc_object_scheme \<Rightarrow> 32 word \<Rightarrow> 'a ipc_object_scheme" where
  "io_bits_andnot io b = io\<lparr>io_bits := io_bits io AND NOT b\<rparr>"

definition io_active :: "'a ipc_object_scheme \<Rightarrow> bool" where
  "io_active io \<longleftrightarrow> io_bits io AND IO_BITS_ACTIVE \<noteq> 0"

definition io_otype :: "'a ipc_object_scheme \<Rightarrow> 32 word" where
  "io_otype io = drop_bit 16 (io_bits io AND IO_BITS_OTYPE)"

definition io_kotype :: "'a ipc_object_scheme \<Rightarrow> 32 word" where
  "io_kotype io = io_bits io AND IO_BITS_KOTYPE"

definition io_is_kobject :: "'a ipc_object_scheme \<Rightarrow> bool" where
  "io_is_kobject io \<longleftrightarrow> io_bits io AND IO_BITS_KOBJECT \<noteq> 0"

definition io_is_kolabeled :: "'a ipc_object_scheme \<Rightarrow> bool" where
  "io_is_kolabeled io \<longleftrightarrow> io_bits io AND IO_BITS_KOLABEL \<noteq> 0"

definition io_makebits :: "bool \<Rightarrow> 32 word \<Rightarrow> 32 word \<Rightarrow> 32 word" where
  "io_makebits active otype kotype = (if active then IO_BITS_ACTIVE else 0) OR push_bit 16 otype OR kotype"

abbreviation ip_active :: "ipc_port \<Rightarrow> bool" where
  "ip_active port \<equiv> io_active port"

abbreviation ips_active :: "ipc_pset \<Rightarrow> bool" where
  "ips_active pset \<equiv> io_active pset"

abbreviation ip_kotype :: "ipc_port \<Rightarrow> 32 word" where
  "ip_kotype port \<equiv> io_kotype port"

abbreviation ip_is_kobject :: "ipc_port \<Rightarrow> bool" where
  "ip_is_kobject port \<equiv> io_is_kobject port"

abbreviation ip_is_kolabeled :: "ipc_port \<Rightarrow> bool" where
  "ip_is_kolabeled port \<equiv> io_is_kolabeled port"

abbreviation IP_NULL :: ipc_port_t where
  "IP_NULL \<equiv> IO_NULL"

abbreviation IP_DEAD :: ipc_port_t where
  "IP_DEAD \<equiv> IO_DEAD"

abbreviation IP_VALID :: "ipc_port_t \<Rightarrow> bool" where
  "IP_VALID p \<equiv> IO_VALID p"

definition IP_PREALLOC :: "ipc_port \<Rightarrow> bool" where
  "IP_PREALLOC port \<longleftrightarrow> io_bits port AND IP_BIT_PREALLOC \<noteq> 0"

definition ip_enforce_msg_filtering :: "ipc_port \<Rightarrow> bool" where
  "ip_enforce_msg_filtering port \<longleftrightarrow> io_bits port AND IP_BIT_FILTER_MSG \<noteq> 0"


section \<open>The state of a receive right\<close>

definition ip_in_pset :: "ipc_port \<Rightarrow> bool" where
  "ip_in_pset port \<longleftrightarrow> ip_psets port \<noteq> []"

definition ip_in_a_space :: "ipc_port \<Rightarrow> bool" where
  "ip_in_a_space port \<longleftrightarrow> ip_active port \<and> ip_receiver_name port \<noteq> MACH_PORT_NULL"

definition ip_in_space :: "ipc_port \<Rightarrow> ipc_space_t \<Rightarrow> bool" where
  "ip_in_space port space \<longleftrightarrow> ip_in_a_space port \<and> ip_receiver port = space"

definition ip_in_transit :: "ipc_port \<Rightarrow> bool" where
  "ip_in_transit port \<longleftrightarrow> ip_active port \<and> \<not> ip_in_a_space port \<and> ip_destination port \<noteq> IP_NULL"

definition ip_in_limbo :: "ipc_port \<Rightarrow> bool" where
  "ip_in_limbo port \<longleftrightarrow> ip_active port \<and> \<not> ip_in_a_space port \<and> ip_destination port = IP_NULL"

definition ip_get_receiver :: "ipc_port \<Rightarrow> ipc_space_t" where
  "ip_get_receiver port = (if ip_in_a_space port then ip_receiver port else 0)"

definition ip_get_receiver_name :: "ipc_port \<Rightarrow> mach_port_name_t" where
  "ip_get_receiver_name port = (if ip_in_a_space port then ip_receiver_name port else MACH_PORT_NULL)"

definition ip_get_destination :: "ipc_port \<Rightarrow> ipc_port_t" where
  "ip_get_destination port =
     (if ip_active port \<and> \<not> ip_in_a_space port then ip_destination port else IP_NULL)"

definition ip_get_death_time :: "ipc_port \<Rightarrow> ipc_port_timestamp_t option" where
  "ip_get_death_time port = do { kassert (\<not> ip_active port); Some (ip_timestamp port) }"

definition ip_get_imp_task :: "ipc_port \<Rightarrow> ipc_importance_task_t" where
  "ip_get_imp_task port =
     (if \<not> ip_is_kobject port \<and> \<not> ip_specialreply port \<and> ip_tempowner port
      then ip_imp_task port else 0)"

definition MACH_PORT_QLIMIT_KERNEL :: "16 word" where
  "MACH_PORT_QLIMIT_KERNEL = 65534"

definition MACH_PORT_QLIMIT_DEFAULT :: "16 word" where
  "MACH_PORT_QLIMIT_DEFAULT = 5"

definition imq_full :: "ipc_port \<Rightarrow> bool" where
  "imq_full mq \<longleftrightarrow> imq_msgcount mq \<ge> imq_qlimit mq"

definition imq_full_kernel :: "ipc_port \<Rightarrow> bool" where
  "imq_full_kernel mq \<longleftrightarrow> imq_msgcount mq \<ge> MACH_PORT_QLIMIT_KERNEL"


section \<open>References\<close>

definition require_ip_active :: "ipc_port \<Rightarrow> unit option" where
  "require_ip_active port = kassert (ip_active port)"

text \<open>
  \<open>ipc_port_finalize\<close>: the port, the requests and the preallocated message go; what the turnstiles
  must look like is not represented.
\<close>

definition ipc_port_finalize :: "ipc_state \<Rightarrow> ipc_port_t \<Rightarrow> ipc_state option" where
  "ipc_port_finalize s p = do {
     port \<leftarrow> ports s p;
     kassert (\<not> ip_active port);
     s \<leftarrow> mod_port s p (\<lambda>port. port\<lparr>ip_requests := None\<rparr>);
     if IP_PREALLOC port
     then do {
       let kmsg = ip_premsg port;
       kassert (\<not> (kmsg = 0 \<or> ikm_prealloc_busy (env s) kmsg));
       s \<leftarrow> mod_port s p (\<lambda>port. port\<lparr>ip_premsg := 0\<rparr>);
       Some (event s (Kmsg_free kmsg))
     }
     else Some s
   }"

text \<open>The object at \<open>io\<close> is a port or a port set; \<open>ipc_pset_finalize\<close> only tears down its queue.\<close>

definition ipc_object_free :: "ipc_state \<Rightarrow> ipc_object_t \<Rightarrow> ipc_state option" where
  "ipc_object_free s io =
     (case ports s io of
        Some port \<Rightarrow> do {
          s \<leftarrow> ipc_port_finalize s io;
          Some (s\<lparr>ports := (ports s)(io := None)\<rparr>)
        }
      | None \<Rightarrow> do { pset \<leftarrow> psets s io; Some (s\<lparr>psets := (psets s)(io := None)\<rparr>) })"

definition ipc_object_reference :: "ipc_state \<Rightarrow> ipc_object_t \<Rightarrow> ipc_state option" where
  "ipc_object_reference s io =
     (case ports s io of
        Some port \<Rightarrow> do {
          r \<leftarrow> os_ref_retain (io_references port);
          mod_port s io (\<lambda>port. port\<lparr>io_references := r\<rparr>)
        }
      | None \<Rightarrow> do {
          pset \<leftarrow> psets s io;
          r \<leftarrow> os_ref_retain (io_references pset);
          mod_pset s io (\<lambda>pset. pset\<lparr>io_references := r\<rparr>)
        })"

definition ipc_object_release :: "ipc_state \<Rightarrow> ipc_object_t \<Rightarrow> ipc_state option" where
  "ipc_object_release s io =
     (case ports s io of
        Some port \<Rightarrow> do {
          r \<leftarrow> os_ref_release (io_references port);
          s \<leftarrow> mod_port s io (\<lambda>port. port\<lparr>io_references := r\<rparr>);
          if r = 0 then ipc_object_free s io else Some s
        }
      | None \<Rightarrow> do {
          pset \<leftarrow> psets s io;
          r \<leftarrow> os_ref_release (io_references pset);
          s \<leftarrow> mod_pset s io (\<lambda>pset. pset\<lparr>io_references := r\<rparr>);
          if r = 0 then ipc_object_free s io else Some s
        })"

definition ipc_object_release_live :: "ipc_state \<Rightarrow> ipc_object_t \<Rightarrow> ipc_state option" where
  "ipc_object_release_live s io = do {
     port \<leftarrow> ports s io;
     r \<leftarrow> os_ref_release (io_references port);
     kassert (r \<noteq> 0);
     mod_port s io (\<lambda>port. port\<lparr>io_references := r\<rparr>)
   }"

abbreviation ip_reference :: "ipc_state \<Rightarrow> ipc_port_t \<Rightarrow> ipc_state option" where
  "ip_reference s p \<equiv> ipc_object_reference s p"

abbreviation ip_release :: "ipc_state \<Rightarrow> ipc_port_t \<Rightarrow> ipc_state option" where
  "ip_release s p \<equiv> ipc_object_release s p"

abbreviation ip_release_live :: "ipc_state \<Rightarrow> ipc_port_t \<Rightarrow> ipc_state option" where
  "ip_release_live s p \<equiv> ipc_object_release_live s p"

end
