(* ===== verification/Ipc_Logic.thy ===== *)
theory Ipc_Logic
imports Ipc_State
begin

text \<open>
  A small program logic for the panic monad.  \<open>post m Q\<close> says that every result of \<open>m\<close> satisfies \<open>Q\<close>;
  the rules in \<open>post_rules\<close> follow the structure of a routine, so that an invariant of a whole routine
  is assembled from the facts about the routines it calls.  That a routine does return is stated
  separately, as an equation with \<open>Some\<close>.
\<close>

named_theorems post_rules \<open>structural rules for postconditions\<close>

definition post :: "'a option \<Rightarrow> ('a \<Rightarrow> bool) \<Rightarrow> bool" where
  "post m Q \<longleftrightarrow> (\<forall>x. m = Some x \<longrightarrow> Q x)"

lemma postI: "(\<And>x. m = Some x \<Longrightarrow> Q x) \<Longrightarrow> post m Q"
  by (simp add: post_def)

lemma postD: "post m Q \<Longrightarrow> m = Some x \<Longrightarrow> Q x"
  by (simp add: post_def)

lemma post_weaken: "post m P \<Longrightarrow> (\<And>x. P x \<Longrightarrow> Q x) \<Longrightarrow> post m Q"
  by (simp add: post_def)

lemma post_conj: "post m P \<Longrightarrow> post m Q \<Longrightarrow> post m (\<lambda>x. P x \<and> Q x)"
  by (simp add: post_def)

lemma post_Some [post_rules]: "Q x \<Longrightarrow> post (Some x) Q"
  by (simp add: post_def)

lemma post_None [post_rules]: "post None Q"
  by (simp add: post_def)

lemma post_bind: "post m (\<lambda>x. post (f x) Q) \<Longrightarrow> post (Option.bind m f) Q"
  by (auto simp: post_def bind_Some_iff)

lemma post_seq: "post m P \<Longrightarrow> (\<And>x. P x \<Longrightarrow> post (f x) Q) \<Longrightarrow> post (Option.bind m f) Q"
  by (auto simp: post_def bind_Some_iff)

lemma post_kassert [post_rules]: "(P \<Longrightarrow> post (f ()) Q) \<Longrightarrow> post (Option.bind (kassert P) f) Q"
  by (auto simp: post_def kassert_def)

lemma post_if [post_rules]: "(c \<Longrightarrow> post a Q) \<Longrightarrow> (\<not> c \<Longrightarrow> post b Q) \<Longrightarrow> post (if c then a else b) Q"
  by simp

lemma post_Let [post_rules]: "post (f e) Q \<Longrightarrow> post (Let e f) Q"
  by (simp add: Let_def)

text \<open>The same rule, naming the value instead of copying it.\<close>

lemma post_let: "(\<And>v. v = e \<Longrightarrow> post (f v) Q) \<Longrightarrow> post (Let e f) Q"
  by (simp add: Let_def)

lemma post_prod [post_rules]: "(\<And>a b. x = (a, b) \<Longrightarrow> post (f a b) Q) \<Longrightarrow> post (case x of (a, b) \<Rightarrow> f a b) Q"
  by (cases x) simp

lemma post_option [post_rules]:
  "(x = None \<Longrightarrow> post a Q) \<Longrightarrow> (\<And>y. x = Some y \<Longrightarrow> post (f y) Q) \<Longrightarrow>
   post (case x of None \<Rightarrow> a | Some y \<Rightarrow> f y) Q"
  by (cases x) simp_all

text \<open>Reading the store.\<close>

lemma post_read: "(\<And>x. m = Some x \<Longrightarrow> post (f x) Q) \<Longrightarrow> post (Option.bind m f) Q"
  by (auto simp: post_def bind_Some_iff)

lemmas post_ports [post_rules] = post_read [of "ports s p" for s p]
lemmas post_psets [post_rules] = post_read [of "psets s p" for s p]
lemmas post_spaces [post_rules] = post_read [of "spaces s p" for s p]
lemmas post_get_entry [post_rules] = post_read [of "get_entry s a i" for s a i]
lemmas post_require_active [post_rules] = post_read [of "require_ip_active port" for port]
lemmas post_retain [post_rules] = post_read [of "os_ref_retain r" for r]
lemmas post_release [post_rules] = post_read [of "os_ref_release r" for r]

lemma require_ip_active_Some: "require_ip_active port = Some u \<longleftrightarrow> ip_active port"
  by (simp add: require_ip_active_def)

lemma mod_port_Some:
  "mod_port s p f = Some s' \<longleftrightarrow> (\<exists>port. ports s p = Some port \<and> s' = s\<lparr>ports := (ports s)(p \<mapsto> f port)\<rparr>)"
  by (auto simp: mod_port_def bind_Some_iff)

lemma event_simps [simp]:
  "ports (event s ev) = ports s" "psets (event s ev) = psets s" "spaces (event s ev) = spaces s"
  "env (event s ev) = env s" "events (event s ev) = events s @ [ev]"
  "twe_pdrequest (event s ev) = twe_pdrequest s" "ispl_flags (event s ev) = ispl_flags s"
  "ispl_attr (event s ev) = ispl_attr s" "ikol_label (event s ev) = ikol_label s"
  "ikol_alt_port (event s ev) = ikol_alt_port s" "send_waiters (event s ev) = send_waiters s"
  "ith_messages (event s ev) = ith_messages s" "ith_assertions (event s ev) = ith_assertions s"
  by (simp_all add: event_def)

lemma event_if_simps [simp]:
  "ports (if c then event s ev else s) = ports s" "psets (if c then event s ev else s) = psets s"
  "spaces (if c then event s ev else s) = spaces s" "env (if c then event s ev else s) = env s"
  by simp_all

lemma set_port_simps [simp]:
  "ports (set_port s p port) = (ports s)(p \<mapsto> port)" "psets (set_port s p port) = psets s"
  "spaces (set_port s p port) = spaces s" "env (set_port s p port) = env s"
  "events (set_port s p port) = events s"
  by (simp_all add: set_port_def)


section \<open>References\<close>

lemma os_ref_retain_Some: "os_ref_retain r = Some r' \<Longrightarrow> r' = r + 1 \<and> r \<noteq> 0"
  by (auto simp: os_ref_retain_def os_ref_check_retain_def bind_Some_iff)

lemma os_ref_release_Some: "os_ref_release r = Some r' \<Longrightarrow> r' = r - 1 \<and> r \<noteq> 0"
  by (auto simp: os_ref_release_def os_ref_release_n_def os_ref_check_underflow_def bind_Some_iff kassert_def
      split: if_splits)

text \<open>
  Taking and dropping a reference: the reference count of the object changes, nothing else; at zero
  the object leaves the store.
\<close>

lemma ip_reference_Some:
  assumes "ipc_object_reference s p = Some s'" "ports s p = Some port"
  shows "s' = s\<lparr>ports := (ports s)(p \<mapsto> port\<lparr>io_references := io_references port + 1\<rparr>)\<rparr>"
    and "io_references port \<noteq> 0"
  using assms by (auto simp: ipc_object_reference_def bind_Some_iff mod_port_Some dest!: os_ref_retain_Some)

text \<open>The same as equations, for a count between its bounds.\<close>

lemma reference_live:
  assumes "ports s p = Some port" "0 < unat (io_references port)" "unat (io_references port) < unat OS_REFCNT_MAX_COUNT"
  shows "ip_reference s p = Some (s\<lparr>ports := (ports s)(p \<mapsto> port\<lparr>io_references := io_references port + 1\<rparr>)\<rparr>)"
    and "unat (io_references port + 1) = unat (io_references port) + 1"
proof -
  have "0 < unat (io_references port)" "unat (io_references port) < 0x0FFFFFFF"
    using assms(2,3) by (simp_all add: OS_REFCNT_MAX_COUNT_def)
  from os_ref_retain_unat [OF this] obtain r where r: "os_ref_retain (io_references port) = Some r"
    "unat r = unat (io_references port) + 1" by blast
  then have "r = io_references port + 1" using os_ref_retain_Some by blast
  then show "ip_reference s p = Some (s\<lparr>ports := (ports s)(p \<mapsto> port\<lparr>io_references := io_references port + 1\<rparr>)\<rparr>)"
    "unat (io_references port + 1) = unat (io_references port) + 1"
    using r assms(1) by (simp_all add: ipc_object_reference_def mod_port_def)
qed

lemma reference_max:
  assumes "ports s p = Some port" "unat (io_references port) = unat OS_REFCNT_MAX_COUNT"
  shows "ip_reference s p = None"
proof -
  have "io_references port = OS_REFCNT_MAX_COUNT" using assms(2) by (simp add: word_unat_eq_iff)
  then show ?thesis
    using assms(1) by (simp add: ipc_object_reference_def os_ref_retain_def os_ref_check_retain_def
        os_ref_check_overflow_def kassert_def)
qed

lemma release_live:
  assumes "ports s p = Some port" "1 < unat (io_references port)"
  shows "ip_release s p = Some (s\<lparr>ports := (ports s)(p \<mapsto> port\<lparr>io_references := io_references port - 1\<rparr>)\<rparr>)"
    and "unat (io_references port - 1) = unat (io_references port) - 1"
proof -
  have "0 < unat (io_references port)" using assms(2) by simp
  from os_ref_release_unat [OF this] obtain r where r: "os_ref_release (io_references port) = Some r"
    "unat r = unat (io_references port) - 1" by blast
  then have eq: "r = io_references port - 1" using os_ref_release_Some by blast
  moreover have "r \<noteq> 0" using r(2) assms(2) by auto
  ultimately show "ip_release s p = Some (s\<lparr>ports := (ports s)(p \<mapsto> port\<lparr>io_references := io_references port - 1\<rparr>)\<rparr>)"
    "unat (io_references port - 1) = unat (io_references port) - 1"
    using r assms(1) by (simp_all add: ipc_object_release_def mod_port_def)
qed

end
