(* ===== verification/Ipc_Request.thy ===== *)
theory Ipc_Request
imports Ipc_State
begin

text \<open>
  The request table of a port: dead-name and send-possible requests (\<open>ipc_port_request_alloc\<close>,
  \<open>_grow\<close>, \<open>_sparm\<close>, \<open>_type\<close> and \<open>_cancel\<close> of \<^verbatim>\<open>osfmk/ipc/ipc_port.c\<close>).  The unused slots of a table
  form a free list headed by slot 0 whose links share the low half of \<open>ipr_soright\<close>; the low two
  bits of the send-once right of a used slot say what was asked for.
\<close>

section \<open>Operations\<close>

definition IPR_SOR_SPARM_MASK :: "64 word" where
  "IPR_SOR_SPARM_MASK = 1"

definition IPR_SOR_SPREQ_MASK :: "64 word" where
  "IPR_SOR_SPREQ_MASK = 2"

definition IPR_SOR_SPBIT_MASK :: "64 word" where
  "IPR_SOR_SPBIT_MASK = 3"

definition IPR_SOR_SPARMED :: "ipc_port_t \<Rightarrow> bool" where
  "IPR_SOR_SPARMED sor \<longleftrightarrow> sor AND IPR_SOR_SPARM_MASK \<noteq> 0"

definition IPR_SOR_SPREQ :: "ipc_port_t \<Rightarrow> bool" where
  "IPR_SOR_SPREQ sor \<longleftrightarrow> sor AND IPR_SOR_SPREQ_MASK \<noteq> 0"

definition IPR_SOR_PORT :: "ipc_port_t \<Rightarrow> ipc_port_t" where
  "IPR_SOR_PORT sor = sor AND NOT IPR_SOR_SPBIT_MASK"

definition IPR_SOR_MAKE :: "ipc_port_t \<Rightarrow> 64 word \<Rightarrow> ipc_port_t" where
  "IPR_SOR_MAKE p m = p OR m"

definition ipr_next :: "ipc_port_request \<Rightarrow> ipc_port_request_index_t" where
  "ipr_next ipr = ucast (ipr_soright ipr)"

definition set_ipr_next :: "ipc_port_request_index_t \<Rightarrow> ipc_port_request \<Rightarrow> ipc_port_request" where
  "set_ipr_next i ipr =
     ipr\<lparr>ipr_soright := (ipr_soright ipr AND NOT (mask 32)) OR ucast i\<rparr>"

definition MACH_SEND_IMPORTANCE :: "32 word" where
  "MACH_SEND_IMPORTANCE = 0x00080000"

definition MACH_SEND_NOIMPORTANCE :: "32 word" where
  "MACH_SEND_NOIMPORTANCE = 0x00040000"

text \<open>The result is the port, the return code, the index and whether the request is important.\<close>

definition ipc_port_request_alloc ::
    "bool \<Rightarrow> ipc_port \<Rightarrow> mach_port_name_t \<Rightarrow> ipc_port_t \<Rightarrow> bool \<Rightarrow> bool \<Rightarrow>
     (ipc_port \<times> kern_return_t \<times> ipc_port_request_index_t \<times> bool) option" where
  "ipc_port_request_alloc donor port name soright send_possible immediate = do {
     require_ip_active port;
     kassert (name \<noteq> MACH_PORT_NULL);
     kassert (soright \<noteq> IP_NULL);
     case ip_requests port of
       None \<Rightarrow> Some (port, KERN_NO_SPACE, 0, False)
     | Some table \<Rightarrow> do {
         head \<leftarrow> nth_opt (ipr_slots table) 0;
         let index = ipr_next head;
         if index = 0 then Some (port, KERN_NO_SPACE, 0, False)
         else do {
           ipr \<leftarrow> nth_opt (ipr_slots table) (unat index);
           kassert (ipr_name ipr = MACH_PORT_NULL);
           let head = set_ipr_next (ipr_next ipr) head;
           let m = (if send_possible
                    then IPR_SOR_SPREQ_MASK OR (if immediate then IPR_SOR_SPARM_MASK else 0) else 0);
           let arm = (send_possible \<and> immediate \<and> \<not> ip_sprequests port);
           let important = (arm \<and> ip_impdonation port \<and> \<not> ip_spimportant port \<and> donor);
           let ipr = ipr\<lparr>ipr_name := name, ipr_soright := IPR_SOR_MAKE soright m\<rparr>;
           let table = table\<lparr>ipr_slots := (ipr_slots table)[0 := head, unat index := ipr]\<rparr>;
           Some (port\<lparr>ip_sprequests := ip_sprequests port \<or> arm, ip_requests := Some table\<rparr>,
                 KERN_SUCCESS, index, important)
         }
       }
   }"

text \<open>The first size from \<open>its\<close> on that is zero or at least the target.\<close>

fun ipc_port_request_grow_find :: "nat \<Rightarrow> nat \<Rightarrow> nat \<Rightarrow> nat option" where
  "ipc_port_request_grow_find 0 target its = None"
| "ipc_port_request_grow_find (Suc fuel) target its = do {
     sz \<leftarrow> nth_opt ipc_table_requests its;
     if sz \<noteq> 0 \<and> sz < target then ipc_port_request_grow_find fuel target (its + 1) else Some its
   }"

text \<open>Putting \<open>n\<close> slots from index \<open>i\<close> on in front of the free list; the result is its new head.\<close>

fun ipc_port_request_grow_free ::
    "nat \<Rightarrow> nat \<Rightarrow> nat \<Rightarrow> ipc_port_request list \<Rightarrow> (nat \<times> ipc_port_request list) option" where
  "ipc_port_request_grow_free 0 i free slots = Some (free, slots)"
| "ipc_port_request_grow_free (Suc n) i free slots = do {
     ipr \<leftarrow> nth_opt slots i;
     let ipr = set_ipr_next (word_of_nat free) (ipr\<lparr>ipr_name := MACH_PORT_NULL\<rparr>);
     ipc_port_request_grow_free n (i + 1) i (slots[i := ipr])
   }"

definition ipc_port_request_zero :: ipc_port_request where
  "ipc_port_request_zero = \<lparr>ipr_soright = 0, ipr_name = 0\<rparr>"

text \<open>The new table, of size \<open>its\<close>: a copy of the old one with the new slots in the free list.\<close>

definition ipc_port_request_grow_table :: "ipc_request_table option \<Rightarrow> nat \<Rightarrow> ipc_request_table option" where
  "ipc_port_request_grow_table otable its = do {
     nsize \<leftarrow> nth_opt ipc_table_requests its;
     let ntable = replicate nsize ipc_port_request_zero;
     (osize, free, ntable) \<leftarrow> (case otable of
        None \<Rightarrow> Some (1, 0, ntable)
      | Some t \<Rightarrow> do {
          osize \<leftarrow> nth_opt ipc_table_requests (ipr_size t);
          head \<leftarrow> nth_opt (ipr_slots t) 0;
          Some (osize, unat (ipr_next head),
                hd ntable # take (osize - 1) (tl (ipr_slots t)) @ drop osize ntable)
        });
     kassert (nsize > osize);
     (free, ntable) \<leftarrow> ipc_port_request_grow_free (nsize - osize) osize free ntable;
     head \<leftarrow> nth_opt ntable 0;
     Some \<lparr>ipr_size = its, ipr_slots = ntable[0 := set_ipr_next (word_of_nat free) head]\<rparr>
   }"

text \<open>
  \<open>tsize\<close> is \<open>None\<close> for \<open>ITS_SIZE_NONE\<close>; \<open>mem\<close> says whether there is memory for a table.  The
  reference taken while the port is unlocked is given back before the routine returns.
\<close>

definition ipc_port_request_grow ::
    "(nat \<Rightarrow> bool) \<Rightarrow> ipc_port \<Rightarrow> nat option \<Rightarrow> (ipc_port \<times> kern_return_t) option" where
  "ipc_port_request_grow mem port tsize = do {
     require_ip_active port;
     let otable = ip_requests port;
     let its = (case otable of None \<Rightarrow> 0 | Some t \<Rightarrow> ipr_size t + 1);
     if tsize \<noteq> None \<and> otable \<noteq> None \<and> the tsize \<le> ipc_table_requests ! ipr_size (the otable)
     then Some (port, KERN_SUCCESS)
     else do {
       its \<leftarrow> (case tsize of None \<Rightarrow> Some its
                | Some target \<Rightarrow> ipc_port_request_grow_find (length ipc_table_requests) target its);
       nsize \<leftarrow> nth_opt ipc_table_requests its;
       if tsize \<noteq> None \<and> nsize = 0 then Some (port, KERN_NO_SPACE)
       else if nsize = 0 \<or> \<not> mem nsize then Some (port, KERN_RESOURCE_SHORTAGE)
       else if otable = None \<or> ipr_size (the otable) + 1 = its
       then do {
         ntable \<leftarrow> ipc_port_request_grow_table otable its;
         Some (port\<lparr>ip_requests := Some ntable\<rparr>, KERN_SUCCESS)
       }
       else Some (port, KERN_SUCCESS)
     }
   }"

text \<open>Overriding the queue's quality of service is not represented.\<close>

definition ipc_port_request_sparm ::
    "bool \<Rightarrow> ipc_port \<Rightarrow> mach_port_name_t \<Rightarrow> ipc_port_request_index_t \<Rightarrow> 32 word \<Rightarrow>
     (ipc_port \<times> bool) option" where
  "ipc_port_request_sparm donor port name index opt =
     (if index \<noteq> IE_REQ_NONE
      then do {
        require_ip_active port;
        table \<leftarrow> ip_requests port;
        ipr \<leftarrow> nth_opt (ipr_slots table) (unat index);
        kassert (ipr_name ipr = name);
        if IPR_SOR_SPREQ (ipr_soright ipr)
        then do {
          let ipr = ipr\<lparr>ipr_soright := IPR_SOR_MAKE (ipr_soright ipr) IPR_SOR_SPARM_MASK\<rparr>;
          let table = table\<lparr>ipr_slots := (ipr_slots table)[unat index := ipr]\<rparr>;
          Some (port\<lparr>ip_sprequests := True, ip_requests := Some table\<rparr>,
                opt AND MACH_SEND_NOIMPORTANCE = 0 \<and> ip_impdonation port \<and> \<not> ip_spimportant port \<and>
                (opt AND MACH_SEND_IMPORTANCE \<noteq> 0 \<or> donor))
        }
        else Some (port, False)
      }
      else Some (port, False))"

definition ipc_port_request_type ::
    "ipc_port \<Rightarrow> mach_port_name_t \<Rightarrow> ipc_port_request_index_t \<Rightarrow> mach_port_type_t option" where
  "ipc_port_request_type port name index = do {
     table \<leftarrow> ip_requests port;
     kassert (index \<noteq> IE_REQ_NONE);
     ipr \<leftarrow> nth_opt (ipr_slots table) (unat index);
     kassert (ipr_name ipr = name);
     Some (if IP_VALID (IPR_SOR_PORT (ipr_soright ipr))
           then MACH_PORT_TYPE_DNREQUEST OR
             (if IPR_SOR_SPREQ (ipr_soright ipr)
              then MACH_PORT_TYPE_SPREQUEST OR
                (if \<not> IPR_SOR_SPARMED (ipr_soright ipr) then MACH_PORT_TYPE_SPREQUEST_DELAYED else 0)
              else 0)
           else 0)
   }"

definition ipc_port_request_cancel ::
    "ipc_port \<Rightarrow> mach_port_name_t \<Rightarrow> ipc_port_request_index_t \<Rightarrow> (ipc_port \<times> ipc_port_t) option" where
  "ipc_port_request_cancel port name index = do {
     require_ip_active port;
     table \<leftarrow> ip_requests port;
     kassert (index \<noteq> IE_REQ_NONE);
     ipr \<leftarrow> nth_opt (ipr_slots table) (unat index);
     kassert (ipr_name ipr = name);
     let request = IPR_SOR_PORT (ipr_soright ipr);
     head \<leftarrow> nth_opt (ipr_slots table) 0;
     let ipr = set_ipr_next (ipr_next head) (ipr\<lparr>ipr_name := MACH_PORT_NULL\<rparr>);
     let table = table\<lparr>ipr_slots := (ipr_slots table)[unat index := ipr, 0 := set_ipr_next index head]\<rparr>;
     Some (port\<lparr>ip_requests := Some table\<rparr>, request)
   }"


section \<open>Links and flags of a slot\<close>

lemma ipr_next_set [simp]: "ipr_next (set_ipr_next i ipr) = i"
  by (rule bit_word_eqI) (auto simp: ipr_next_def set_ipr_next_def bit_simps)

lemma ipr_name_set_next [simp]: "ipr_name (set_ipr_next i ipr) = ipr_name ipr"
  by (simp add: set_ipr_next_def)

lemma ipr_next_set_name [simp]: "ipr_next (ipr\<lparr>ipr_name := n\<rparr>) = ipr_next ipr"
  by (simp add: ipr_next_def)

lemma spbit_mask: "(3 :: 64 word) = mask 2"
  by (simp add: mask_eq_exp_minus_1)

lemma IPR_SOR_PORT_MAKE:
  assumes "p AND 3 = 0" "m AND NOT 3 = 0"
  shows "IPR_SOR_PORT (IPR_SOR_MAKE p m) = p"
proof -
  have "(p OR m) AND NOT 3 = p AND NOT 3"
    using assms(2) by (simp add: bit.conj_disj_distrib2)
  moreover have "p AND NOT 3 = p"
  proof -
    have "p = (p AND 3) OR (p AND NOT 3)" by (rule bit_word_eqI) (simp add: bit_simps, blast)
    with assms(1) show ?thesis by simp
  qed
  ultimately show ?thesis
    by (simp add: IPR_SOR_PORT_def IPR_SOR_MAKE_def IPR_SOR_SPBIT_MASK_def)
qed


section \<open>The sizes of request tables\<close>

lemma ipc_table_requests_eq: "ipc_table_requests = ipc_table_fill 63 2 16 @ [0]"
  by (simp add: ipc_table_requests_def IPC_TABLE_REQUESTS_SIZE_def sizeof_ipc_port_request_def)

lemma length_ipc_table_fill_requests: "length (ipc_table_fill 63 2 16) = 63"
  unfolding ipc_table_fill_requests by simp

lemma length_ipc_table_requests [simp]: "length ipc_table_requests = 64"
  by (simp add: ipc_table_requests_eq length_ipc_table_fill_requests)

lemma ipc_table_requests_less:
  "i < j \<Longrightarrow> j < 63 \<Longrightarrow> ipc_table_requests ! i < ipc_table_requests ! j"
proof -
  have "successively (<) (ipc_table_fill 63 2 16)"
    unfolding ipc_table_fill_requests by simp
  then have "sorted_wrt (<) (ipc_table_fill 63 2 16)" by (simp add: successively_conv_sorted_wrt)
  then show "i < j \<Longrightarrow> j < 63 \<Longrightarrow> ipc_table_requests ! i < ipc_table_requests ! j"
    using sorted_wrt_nth_less [of "(<)" "ipc_table_fill 63 2 16" i j]
    by (simp add: ipc_table_requests_eq nth_append length_ipc_table_fill_requests)
qed

lemma ipc_table_requests_ends [simp]:
  "ipc_table_requests ! 0 = 2" "ipc_table_requests ! Suc 0 = 4" "ipc_table_requests ! 62 = 47616"
  "ipc_table_requests ! 63 = 0"
  by (simp_all add: ipc_table_requests_eq nth_append length_ipc_table_fill_requests)
    (simp_all add: ipc_table_fill_requests)

lemma ipc_table_requests_bounds:
  assumes "i < 63"
  shows "2 \<le> ipc_table_requests ! i" and "ipc_table_requests ! i \<le> 47616"
proof -
  have "i = 0 \<or> i = 62 \<or> 0 < i \<and> i < 62" using assms by linarith
  then show "2 \<le> ipc_table_requests ! i" "ipc_table_requests ! i \<le> 47616"
    using ipc_table_requests_less [of 0 i] ipc_table_requests_less [of i 62] by auto
qed


section \<open>The free list of a request table\<close>

fun rq_path :: "ipc_port_request list \<Rightarrow> nat \<Rightarrow> nat list \<Rightarrow> bool" where
  "rq_path slots i [] = (unat (ipr_next (slots ! i)) = 0)"
| "rq_path slots i (x # xs) = (unat (ipr_next (slots ! i)) = x \<and> rq_path slots x xs)"

definition rq_used :: "ipc_port_request list \<Rightarrow> nat set" where
  "rq_used slots = {i. 0 < i \<and> i < length slots \<and> ipr_name (slots ! i) \<noteq> MACH_PORT_NULL}"

definition request_inv :: "ipc_request_table \<Rightarrow> nat list \<Rightarrow> bool" where
  "request_inv t xs \<longleftrightarrow>
     ipr_size t < 63 \<and> length (ipr_slots t) = ipc_table_requests ! ipr_size t \<and>
     rq_path (ipr_slots t) 0 xs \<and> distinct xs \<and>
     set xs = {i. 0 < i \<and> i < length (ipr_slots t) \<and> ipr_name (ipr_slots t ! i) = MACH_PORT_NULL}"

text \<open>The requests of a table: who is told about which name, and how.\<close>

definition requests_of :: "ipc_request_table \<Rightarrow> nat \<rightharpoonup> (mach_port_name_t \<times> ipc_port_t)" where
  "requests_of t i =
     (if i \<in> rq_used (ipr_slots t)
      then Some (ipr_name (ipr_slots t ! i), ipr_soright (ipr_slots t ! i)) else None)"

lemma rq_path_cong:
  assumes "\<And>j. j \<in> insert i (set xs) \<Longrightarrow> ipr_next (slots' ! j) = ipr_next (slots ! j)"
  shows "rq_path slots' i xs = rq_path slots i xs"
  using assms by (induction xs arbitrary: i) auto

lemma request_inv_length:
  assumes "request_inv t xs"
  shows "2 \<le> length (ipr_slots t)" and "length (ipr_slots t) \<le> 47616"
  using assms ipc_table_requests_bounds [of "ipr_size t"] by (simp_all add: request_inv_def)

lemma request_inv_head:
  "request_inv t xs \<Longrightarrow> nth_opt (ipr_slots t) 0 = Some (ipr_slots t ! 0)"
  using request_inv_length(1) [of t xs] by (auto simp: nth_opt_def)

lemma request_inv_set:
  "request_inv t xs \<Longrightarrow>
   set xs = {i. 0 < i \<and> i < length (ipr_slots t) \<and> ipr_name (ipr_slots t ! i) = MACH_PORT_NULL}"
  by (simp add: request_inv_def)

lemma request_inv_mem:
  assumes "request_inv t xs" "j \<in> set xs"
  shows "0 < j" and "j < length (ipr_slots t)"
  using assms(2) unfolding request_inv_set [OF assms(1)] by blast+

lemma request_inv_path: "request_inv t xs \<Longrightarrow> rq_path (ipr_slots t) 0 xs"
  by (simp add: request_inv_def)

lemma request_inv_take:
  assumes "request_inv t (x # xs)"
  shows "0 < x" and "x < length (ipr_slots t)" and "ipr_name (ipr_slots t ! x) = MACH_PORT_NULL"
    and "x \<notin> set xs" and "0 \<notin> set xs" and "unat (ipr_next (ipr_slots t ! 0)) = x"
    and "rq_path (ipr_slots t) x xs"
proof -
  have st: "set (x # xs) = {i. 0 < i \<and> i < length (ipr_slots t) \<and> ipr_name (ipr_slots t ! i) = MACH_PORT_NULL}"
    and p: "rq_path (ipr_slots t) 0 (x # xs)" and d: "distinct (x # xs)"
    using assms unfolding request_inv_def by blast+
  have "x \<in> set (x # xs)" by simp
  then show "0 < x" "x < length (ipr_slots t)" "ipr_name (ipr_slots t ! x) = MACH_PORT_NULL"
    unfolding st by blast+
  show "x \<notin> set xs" using d by simp
  have "0 \<notin> set (x # xs)" unfolding st by blast
  then show "0 \<notin> set xs" by simp
  show "unat (ipr_next (ipr_slots t ! 0)) = x" "rq_path (ipr_slots t) x xs" using p by simp_all
qed

text \<open>Taking the first free slot into use.\<close>

lemma request_inv_alloc:
  assumes inv: "request_inv t (x # xs)" and n: "ipr_name ipr \<noteq> MACH_PORT_NULL"
  defines "t' \<equiv> t\<lparr>ipr_slots := (ipr_slots t)
                   [0 := set_ipr_next (ipr_next (ipr_slots t ! x)) (ipr_slots t ! 0), x := ipr]\<rparr>"
  shows "request_inv t' xs" and "requests_of t' = (requests_of t)(x \<mapsto> (ipr_name ipr, ipr_soright ipr))"
proof -
  let ?sl = "ipr_slots t"
  note tk = request_inv_take [OF inv]
  have sl': "ipr_slots t' ! j = (if j = x then ipr
      else if j = 0 then set_ipr_next (ipr_next (?sl ! x)) (?sl ! 0) else ?sl ! j)"
    if "j < length ?sl" for j
    using tk(1,2) that by (auto simp: t'_def nth_list_update)
  have len: "length (ipr_slots t') = length ?sl" by (simp add: t'_def)
  have sl0: "ipr_next (ipr_slots t' ! 0) = ipr_next (?sl ! x)" using sl' [OF less_trans [OF tk(1,2)]] tk(1) by simp
  have path: "rq_path (ipr_slots t') 0 xs"
  proof (cases xs)
    case Nil
    then show ?thesis using tk(7) sl0 by simp
  next
    case (Cons y ys)
    have "rq_path (ipr_slots t') y ys = rq_path ?sl y ys"
    proof (rule rq_path_cong)
      fix j assume "j \<in> insert y (set ys)"
      then have j: "j \<in> set (x # xs)" "j \<noteq> x" using tk(4) by (auto simp: Cons)
      then show "ipr_next (ipr_slots t' ! j) = ipr_next (?sl ! j)"
        using sl' [OF request_inv_mem(2) [OF inv j(1)]] request_inv_mem(1) [OF inv j(1)] by simp
    qed
    then show ?thesis using tk(7) Cons sl0 by simp
  qed
  have "set xs = {i. 0 < i \<and> i < length ?sl \<and> ipr_name (?sl ! i) = MACH_PORT_NULL} - {x}"
    using inv tk(4) unfolding request_inv_def by (metis Diff_insert_absorb list.simps(15))
  also have "\<dots> = {i. 0 < i \<and> i < length ?sl \<and> ipr_name (ipr_slots t' ! i) = MACH_PORT_NULL}"
    using n sl' by (auto split: if_splits)
  finally show "request_inv t' xs"
    using inv path unfolding request_inv_def len by (simp add: t'_def)
  show "requests_of t' = (requests_of t)(x \<mapsto> (ipr_name ipr, ipr_soright ipr))"
  proof
    fix i
    show "requests_of t' i = ((requests_of t)(x \<mapsto> (ipr_name ipr, ipr_soright ipr))) i"
      using tk(1,2) n sl' [of i] len by (cases "i < length ?sl") (auto simp: requests_of_def rq_used_def)
  qed
qed

text \<open>Giving a slot back.\<close>

lemma request_inv_free:
  assumes inv: "request_inv t xs" and x: "x \<in> rq_used (ipr_slots t)" and n: "ipr_name ipr = MACH_PORT_NULL"
    and nx: "ipr_next ipr = ipr_next (ipr_slots t ! 0)"
  defines "t' \<equiv> t\<lparr>ipr_slots := (ipr_slots t)
                   [x := ipr, 0 := set_ipr_next (word_of_nat x) (ipr_slots t ! 0)]\<rparr>"
  shows "request_inv t' (x # xs)" and "requests_of t' = (requests_of t)(x := None)"
proof -
  let ?sl = "ipr_slots t"
  have x': "0 < x" "x < length ?sl" "x \<notin> set xs"
    using x request_inv_set [OF inv] by (simp_all add: rq_used_def)
  have xw: "unat (word_of_nat x :: 32 word) = x"
    using x'(2) request_inv_length(2) [OF inv] by (intro unat_of_nat_len) simp
  have sl': "ipr_slots t' ! j = (if j = x then ipr
      else if j = 0 then set_ipr_next (word_of_nat x) (?sl ! 0) else ?sl ! j)"
    if "j < length ?sl" for j
    using x'(1,2) that by (auto simp: t'_def nth_list_update)
  have len: "length (ipr_slots t') = length ?sl" by (simp add: t'_def)
  have "rq_path (ipr_slots t') x xs"
  proof (cases xs)
    case Nil
    then show ?thesis using request_inv_path [OF inv] nx x' sl' [of x] by simp
  next
    case (Cons y ys)
    have "rq_path (ipr_slots t') y ys = rq_path ?sl y ys"
    proof (rule rq_path_cong)
      fix j assume "j \<in> insert y (set ys)"
      then have j: "j \<in> set xs" by (simp add: Cons)
      then have "j \<noteq> x" using x'(3) by blast
      then show "ipr_next (ipr_slots t' ! j) = ipr_next (?sl ! j)"
        using sl' [OF request_inv_mem(2) [OF inv j]] request_inv_mem(1) [OF inv j] by simp
    qed
    then show ?thesis using request_inv_path [OF inv] Cons nx x' sl' [of x] by simp
  qed
  then have path: "rq_path (ipr_slots t') 0 (x # xs)"
    using x' xw sl' [OF less_trans [OF x'(1,2)]] by simp
  have "insert x (set xs) = {i. 0 < i \<and> i < length ?sl \<and> ipr_name (ipr_slots t' ! i) = MACH_PORT_NULL}"
  proof -
    have "set xs = {i. 0 < i \<and> i < length ?sl \<and> ipr_name (?sl ! i) = MACH_PORT_NULL}"
      by (rule request_inv_set [OF inv])
    then show ?thesis using n x' sl' by (auto split: if_splits)
  qed
  then show "request_inv t' (x # xs)"
    using inv path x'(3) unfolding request_inv_def len by (simp add: t'_def)
  show "requests_of t' = (requests_of t)(x := None)"
  proof
    fix i
    show "requests_of t' i = ((requests_of t)(x := None)) i"
      using x'(1,2) n sl' [of i] len by (cases "i < length ?sl") (auto simp: requests_of_def rq_used_def)
  qed
qed


section \<open>What the operations do\<close>

definition sor_flags :: "bool \<Rightarrow> bool \<Rightarrow> 64 word" where
  "sor_flags send_possible immediate =
     (if send_possible then IPR_SOR_SPREQ_MASK OR (if immediate then IPR_SOR_SPARM_MASK else 0) else 0)"

lemma request_alloc_full:
  assumes "ip_active port" "ip_requests port = Some t" "request_inv t []" "name \<noteq> MACH_PORT_NULL"
    "soright \<noteq> IP_NULL"
  shows "ipc_port_request_alloc donor port name soright sp im = Some (port, KERN_NO_SPACE, 0, False)"
  using assms request_inv_head [OF assms(3)] request_inv_path [OF assms(3)]
  by (simp add: ipc_port_request_alloc_def require_ip_active_def unat_eq_0)

lemma request_alloc_none:
  assumes "ip_active port" "ip_requests port = None" "name \<noteq> MACH_PORT_NULL" "soright \<noteq> IP_NULL"
  shows "ipc_port_request_alloc donor port name soright sp im = Some (port, KERN_NO_SPACE, 0, False)"
  using assms by (simp add: ipc_port_request_alloc_def require_ip_active_def)

lemma request_alloc_slot:
  assumes act: "ip_active port" and t: "ip_requests port = Some t" and inv: "request_inv t (x # xs)"
    and n: "name \<noteq> MACH_PORT_NULL" and so: "soright \<noteq> IP_NULL"
  shows "\<exists>t' arm important.
    ipc_port_request_alloc donor port name soright sp im =
      Some (port\<lparr>ip_sprequests := arm, ip_requests := Some t'\<rparr>, KERN_SUCCESS, word_of_nat x, important) \<and>
    arm = (ip_sprequests port \<or> sp \<and> im) \<and>
    important = (sp \<and> im \<and> \<not> ip_sprequests port \<and> ip_impdonation port \<and> \<not> ip_spimportant port \<and> donor) \<and>
    request_inv t' xs \<and>
    requests_of t' = (requests_of t)(x \<mapsto> (name, IPR_SOR_MAKE soright (sor_flags sp im)))"
proof -
  note tk = request_inv_take [OF inv]
  define ipr where "ipr = (ipr_slots t ! x)\<lparr>ipr_name := name, ipr_soright := IPR_SOR_MAKE soright (sor_flags sp im)\<rparr>"
  let ?t' = "t\<lparr>ipr_slots := (ipr_slots t)
      [0 := set_ipr_next (ipr_next (ipr_slots t ! x)) (ipr_slots t ! 0), x := ipr]\<rparr>"
  have 0: "nth_opt (ipr_slots t) 0 = Some (ipr_slots t ! 0)" "ipr_next (ipr_slots t ! 0) \<noteq> 0"
    "nth_opt (ipr_slots t) (unat (ipr_next (ipr_slots t ! 0))) = Some (ipr_slots t ! x)"
    "ipr_next (ipr_slots t ! 0) = word_of_nat x" "unat (word_of_nat x :: 32 word) = x"
    using tk request_inv_length(2) [OF inv] by (auto simp: nth_opt_def)
  have eq: "ipc_port_request_alloc donor port name soright sp im =
      Some (port\<lparr>ip_sprequests := (ip_sprequests port \<or> sp \<and> im), ip_requests := Some ?t'\<rparr>, KERN_SUCCESS,
            word_of_nat x, sp \<and> im \<and> \<not> ip_sprequests port \<and> ip_impdonation port \<and> \<not> ip_spimportant port \<and> donor)"
    unfolding ipc_port_request_alloc_def
    using 0 act t n so tk(1-3)
    by (simp add: require_ip_active_def ipr_def sor_flags_def Let_def)
  have "ipr_name ipr \<noteq> MACH_PORT_NULL" using n by (simp add: ipr_def)
  from request_inv_alloc [OF inv this] eq show ?thesis
    by (auto simp: ipr_def)
qed

lemma request_cancel_slot:
  assumes act: "ip_active port" and t: "ip_requests port = Some t" and inv: "request_inv t xs"
    and rq: "requests_of t (unat index) = Some (name, soright)"
  shows "\<exists>t'. ipc_port_request_cancel port name index =
      Some (port\<lparr>ip_requests := Some t'\<rparr>, IPR_SOR_PORT soright) \<and>
    request_inv t' (unat index # xs) \<and> requests_of t' = (requests_of t)(unat index := None)"
proof -
  let ?x = "unat index"
  have x: "?x \<in> rq_used (ipr_slots t)" and nm: "name = ipr_name (ipr_slots t ! ?x)"
    and so: "soright = ipr_soright (ipr_slots t ! ?x)"
    using rq by (auto simp: requests_of_def split: if_splits)
  have x': "0 < ?x" "?x < length (ipr_slots t)" using x by (auto simp: rq_used_def)
  have idx: "index \<noteq> IE_REQ_NONE" using x'(1) by (auto simp: IE_REQ_NONE_def)
  define ipr where "ipr = set_ipr_next (ipr_next (ipr_slots t ! 0)) ((ipr_slots t ! ?x)\<lparr>ipr_name := MACH_PORT_NULL\<rparr>)"
  let ?t' = "t\<lparr>ipr_slots := (ipr_slots t)[?x := ipr, 0 := set_ipr_next index (ipr_slots t ! 0)]\<rparr>"
  have "ipc_port_request_cancel port name index = Some (port\<lparr>ip_requests := Some ?t'\<rparr>, IPR_SOR_PORT soright)"
    using act t idx x' nm so request_inv_head [OF inv]
    by (simp add: ipc_port_request_cancel_def require_ip_active_def nth_opt_in ipr_def Let_def)
  moreover have "ipr_name ipr = MACH_PORT_NULL" "ipr_next ipr = ipr_next (ipr_slots t ! 0)"
    by (simp_all add: ipr_def)
  ultimately show ?thesis using request_inv_free [OF inv x, of ipr] by auto
qed


section \<open>Growing\<close>

definition rq_list :: "ipc_port_request list \<Rightarrow> nat \<Rightarrow> nat list \<Rightarrow> bool" where
  "rq_list slots free xs = (case xs of [] \<Rightarrow> free = 0 | x # ys \<Rightarrow> free = x \<and> rq_path slots x ys)"

lemma rq_path_list: "rq_path slots i xs = rq_list slots (unat (ipr_next (slots ! i))) xs"
  by (cases xs) (auto simp: rq_list_def)

lemma rq_list_cong:
  assumes "\<And>j. j \<in> set xs \<Longrightarrow> ipr_next (slots' ! j) = ipr_next (slots ! j)"
  shows "rq_list slots' free xs = rq_list slots free xs"
proof (cases xs)
  case (Cons x ys)
  then show ?thesis using rq_path_cong [of x ys slots' slots] assms by (simp add: rq_list_def)
qed (simp add: rq_list_def)

lemma grow_free_spec:
  assumes "i + n = length slots" "length slots < 2 ^ 32" "free < i" "rq_list slots free xs"
    "set xs \<subseteq> {..<i}"
  shows "\<exists>free' slots'. ipc_port_request_grow_free n i free slots = Some (free', slots') \<and>
    length slots' = length slots \<and> (\<forall>j<i. slots' ! j = slots ! j) \<and>
    (\<forall>j. i \<le> j \<longrightarrow> j < length slots \<longrightarrow> ipr_name (slots' ! j) = MACH_PORT_NULL) \<and>
    rq_list slots' free' (rev [i..<i + n] @ xs) \<and> free' < i + n"
  using assms
proof (induction n arbitrary: i free slots xs)
  case 0
  then show ?case by auto
next
  case (Suc n)
  define ipr where "ipr = set_ipr_next (word_of_nat free) ((slots ! i)\<lparr>ipr_name := MACH_PORT_NULL\<rparr>)"
  have i: "i < length slots" using Suc.prems(1) by simp
  have fw: "unat (word_of_nat free :: 32 word) = free"
    using Suc.prems by (intro unat_of_nat_len) simp
  have "rq_list (slots[i := ipr]) free xs = rq_list slots free xs"
    by (rule rq_list_cong) (use Suc.prems(5) in \<open>auto simp: nth_list_update\<close>)
  then have new: "rq_list (slots[i := ipr]) i (i # xs)"
    using Suc.prems(4) i fw by (simp add: rq_list_def [of _ i] rq_path_list ipr_def)
  have "set (i # xs) \<subseteq> {..<i + 1}" using Suc.prems(5) by auto
  with Suc.IH [of "i + 1" "slots[i := ipr]" i "i # xs"] new Suc.prems(1,2)
  obtain free' slots' where r: "ipc_port_request_grow_free n (i + 1) i (slots[i := ipr]) = Some (free', slots')"
    "length slots' = length slots" "\<forall>j<i + 1. slots' ! j = slots[i := ipr] ! j"
    "\<forall>j. i + 1 \<le> j \<longrightarrow> j < length slots \<longrightarrow> ipr_name (slots' ! j) = MACH_PORT_NULL"
    "rq_list slots' free' (rev [i + 1..<i + 1 + n] @ i # xs)" "free' < i + 1 + n"
    by auto
  have "ipr_name (slots' ! i) = MACH_PORT_NULL" using r(3) i by (simp add: ipr_def)
  then have "\<forall>j. i \<le> j \<longrightarrow> j < length slots \<longrightarrow> ipr_name (slots' ! j) = MACH_PORT_NULL"
    using r(4) by (metis Suc_eq_plus1 Suc_leI le_neq_implies_less)
  moreover have "rev [i..<i + Suc n] @ xs = rev [i + 1..<i + 1 + n] @ i # xs"
    by (subst upt_conv_Cons) simp_all
  moreover have "ipc_port_request_grow_free (Suc n) i free slots = Some (free', slots')"
    using r(1) i by (simp add: nth_opt_in ipr_def Let_def)
  moreover have "\<forall>j<i. slots' ! j = slots ! j" using r(3) by simp
  ultimately show ?case using r(2,5,6) by (intro exI [of _ free'] exI [of _ slots']) simp
qed

text \<open>
  A table with one more step: every request is kept where it was and the new slots are free.
  \<open>request_start\<close> is the state of a port that has no table: one slot, the header.
\<close>

lemma request_inv_grow:
  assumes its: "its < 63" and o: "0 < osize" "osize < ipc_table_requests ! its"
    and base: "length base = ipc_table_requests ! its" and free: "free < osize"
    and list: "rq_list base free xs" and d: "distinct xs"
    and xs: "set xs = {i. 0 < i \<and> i < osize \<and> ipr_name (base ! i) = MACH_PORT_NULL}"
  shows "\<exists>free' slots'. ipc_port_request_grow_free (length base - osize) osize free base = Some (free', slots') \<and>
     length slots' = length base \<and>
     request_inv \<lparr>ipr_size = its, ipr_slots = slots'[0 := set_ipr_next (word_of_nat free') (slots' ! 0)]\<rparr>
       (rev [osize..<length base] @ xs) \<and>
     requests_of \<lparr>ipr_size = its, ipr_slots = slots'[0 := set_ipr_next (word_of_nat free') (slots' ! 0)]\<rparr> =
       (\<lambda>i. if i \<in> rq_used base \<and> i < osize then Some (ipr_name (base ! i), ipr_soright (base ! i)) else None)"
proof -
  have big: "length base < 2 ^ 32" using ipc_table_requests_bounds(2) [OF its] base by simp
  have "set xs \<subseteq> {..<osize}" unfolding xs by auto
  from grow_free_spec [of osize "length base - osize" base free xs] o base free list this big
  obtain free' slots' where r: "ipc_port_request_grow_free (length base - osize) osize free base = Some (free', slots')"
    "length slots' = length base" "\<forall>j<osize. slots' ! j = base ! j"
    "\<forall>j. osize \<le> j \<longrightarrow> j < length base \<longrightarrow> ipr_name (slots' ! j) = MACH_PORT_NULL"
    "rq_list slots' free' (rev [osize..<length base] @ xs)" "free' < length base"
    by auto
  let ?h = "set_ipr_next (word_of_nat free') (slots' ! 0)"
  let ?sl = "slots'[0 := ?h]" and ?xs = "rev [osize..<length base] @ xs"
  have fw: "unat (word_of_nat free' :: 32 word) = free'"
    using r(6) big by (intro unat_of_nat_len) simp
  have nz: "0 \<notin> set ?xs" using o(1) unfolding xs set_append by simp
  have sl0: "?sl ! 0 = ?h" using r(2) o base by simp
  have slj: "?sl ! j = slots' ! j" if "0 < j" for j using that by (simp add: nth_list_update)
  have "rq_list ?sl free' ?xs = rq_list slots' free' ?xs"
    by (rule rq_list_cong) (use nz slj in \<open>metis gr0I\<close>)
  then have path: "rq_path ?sl 0 ?xs" unfolding rq_path_list sl0 using r(5) fw by simp
  have nm: "ipr_name (?sl ! i) = (if i < osize then ipr_name (base ! i) else MACH_PORT_NULL)"
    if "0 < i" "i < length base" for i
    using that r(3,4) by (simp add: slj)
  have st: "set ?xs = {i. 0 < i \<and> i < length base \<and> ipr_name (?sl ! i) = MACH_PORT_NULL}" (is "_ = ?R")
  proof (rule set_eqI)
    fix i
    show "i \<in> set ?xs \<longleftrightarrow> i \<in> ?R"
      using o base nm [of i] unfolding set_append xs by (cases "i < osize") auto
  qed
  have "distinct ?xs" using d unfolding distinct_append xs by auto
  then have "request_inv \<lparr>ipr_size = its, ipr_slots = ?sl\<rparr> ?xs"
    using its path st r(2) base unfolding request_inv_def by simp
  moreover have "requests_of \<lparr>ipr_size = its, ipr_slots = ?sl\<rparr> =
      (\<lambda>i. if i \<in> rq_used base \<and> i < osize then Some (ipr_name (base ! i), ipr_soright (base ! i)) else None)"
  proof
    fix i
    show "requests_of \<lparr>ipr_size = its, ipr_slots = ?sl\<rparr> i =
      (if i \<in> rq_used base \<and> i < osize then Some (ipr_name (base ! i), ipr_soright (base ! i)) else None)"
      using nm [of i] r(2,3) slj [of i] o(2) base
      by (cases "0 < i \<and> i < length base"; cases "i < osize") (auto simp: requests_of_def rq_used_def)
  qed
  ultimately show ?thesis using r(1,2) by blast
qed

definition port_requests :: "ipc_port \<Rightarrow> nat \<rightharpoonup> (mach_port_name_t \<times> ipc_port_t)" where
  "port_requests port = (case ip_requests port of None \<Rightarrow> Map.empty | Some t \<Rightarrow> requests_of t)"

definition port_requests_inv :: "ipc_port \<Rightarrow> nat list \<Rightarrow> bool" where
  "port_requests_inv port xs \<longleftrightarrow>
     (case ip_requests port of None \<Rightarrow> xs = [] | Some t \<Rightarrow> request_inv t xs)"

lemma grow_table_first:
  assumes its: "its < 63"
  shows "\<exists>t'. ipc_port_request_grow_table None its = Some t' \<and>
     ipr_size t' = its \<and> request_inv t' (rev [1..<ipc_table_requests ! its]) \<and> requests_of t' = Map.empty"
proof -
  let ?n = "ipc_table_requests ! its"
  define base where "base = replicate ?n ipc_port_request_zero"
  have n: "2 \<le> ?n" by (rule ipc_table_requests_bounds [OF its])
  have lb: "length base = ?n" by (simp add: base_def)
  have "rq_list base 0 []" "set ([] :: nat list) = {i. 0 < i \<and> i < 1 \<and> ipr_name (base ! i) = MACH_PORT_NULL}"
    by (auto simp: rq_list_def)
  from request_inv_grow [OF its _ _ lb _ this(1) _ this(2)] n lb
  obtain free' slots' where r: "ipc_port_request_grow_free (?n - 1) 1 0 base = Some (free', slots')"
    "length slots' = ?n"
    "request_inv \<lparr>ipr_size = its, ipr_slots = slots'[0 := set_ipr_next (word_of_nat free') (slots' ! 0)]\<rparr>
       (rev [1..<?n])"
    "requests_of \<lparr>ipr_size = its, ipr_slots = slots'[0 := set_ipr_next (word_of_nat free') (slots' ! 0)]\<rparr> =
       (\<lambda>i. if i \<in> rq_used base \<and> i < 1 then Some (ipr_name (base ! i), ipr_soright (base ! i)) else None)"
    by auto
  have "nth_opt slots' 0 = Some (slots' ! 0)" "nth_opt ipc_table_requests its = Some ?n"
    using r(2) n its by (auto simp: nth_opt_def)
  moreover have "requests_of \<lparr>ipr_size = its, ipr_slots = slots'[0 := set_ipr_next (word_of_nat free') (slots' ! 0)]\<rparr> = Map.empty"
    unfolding r(4) by (auto simp: rq_used_def)
  ultimately show ?thesis
    using n r(1,3) by (simp add: ipc_port_request_grow_table_def base_def)
qed

lemma grow_table_step:
  assumes inv: "request_inv t xs" and its: "its = ipr_size t + 1" "its < 63"
  shows "\<exists>t'. ipc_port_request_grow_table (Some t) its = Some t' \<and> ipr_size t' = its \<and>
     request_inv t' (rev [ipc_table_requests ! ipr_size t..<ipc_table_requests ! its] @ xs) \<and>
     requests_of t' = requests_of t"
proof -
  let ?n = "ipc_table_requests ! its" and ?o = "ipc_table_requests ! ipr_size t"
  let ?z = "replicate ?n ipc_port_request_zero"
  define base where "base = hd ?z # take (?o - 1) (tl (ipr_slots t)) @ drop ?o ?z"
  have lt: "?o < ?n" by (rule ipc_table_requests_less) (use its in simp_all)
  have len: "length (ipr_slots t) = ?o" using inv by (simp add: request_inv_def)
  have o: "2 \<le> ?o" using request_inv_length(1) [OF inv] len by simp
  have lb: "length base = ?n" using len lt o by (simp add: base_def)
  have bj: "base ! j = ipr_slots t ! j" if j: "0 < j" "j < ?o" for j
  proof -
    obtain k where k: "j = Suc k" using j(1) by (cases j) auto
    then show ?thesis using j(2) len by (simp add: base_def nth_append nth_tl)
  qed
  have free: "unat (ipr_next (ipr_slots t ! 0)) < ?o"
  proof (cases xs)
    case Nil
    then show ?thesis using request_inv_path [OF inv] o by simp
  next
    case (Cons y ys)
    then show ?thesis using request_inv_path [OF inv] request_inv_mem(2) [OF inv, of y] len by simp
  qed
  have st: "set xs = {i. 0 < i \<and> i < ?o \<and> ipr_name (base ! i) = MACH_PORT_NULL}"
    unfolding request_inv_set [OF inv] len using bj by (metis (no_types, lifting))
  have "rq_list base (unat (ipr_next (ipr_slots t ! 0))) xs = rq_list (ipr_slots t) (unat (ipr_next (ipr_slots t ! 0))) xs"
    by (rule rq_list_cong) (use request_inv_mem [OF inv] bj len in auto)
  then have list: "rq_list base (unat (ipr_next (ipr_slots t ! 0))) xs"
    using request_inv_path [OF inv] by (simp add: rq_path_list)
  have d: "distinct xs" using inv by (simp add: request_inv_def)
  from request_inv_grow [OF its(2) _ lt lb free list d st] o lb
  obtain free' slots' where r: "ipc_port_request_grow_free (?n - ?o) ?o (unat (ipr_next (ipr_slots t ! 0))) base = Some (free', slots')"
    "length slots' = ?n"
    "request_inv \<lparr>ipr_size = its, ipr_slots = slots'[0 := set_ipr_next (word_of_nat free') (slots' ! 0)]\<rparr>
       (rev [?o..<?n] @ xs)"
    "requests_of \<lparr>ipr_size = its, ipr_slots = slots'[0 := set_ipr_next (word_of_nat free') (slots' ! 0)]\<rparr> =
       (\<lambda>i. if i \<in> rq_used base \<and> i < ?o then Some (ipr_name (base ! i), ipr_soright (base ! i)) else None)"
    by auto
  have same: "(\<lambda>i. if i \<in> rq_used base \<and> i < ?o then Some (ipr_name (base ! i), ipr_soright (base ! i)) else None) =
      requests_of t"
  proof
    fix i
    show "(if i \<in> rq_used base \<and> i < ?o then Some (ipr_name (base ! i), ipr_soright (base ! i)) else None) =
      requests_of t i"
      using bj [of i] lb lt len unfolding requests_of_def rq_used_def mem_Collect_eq
      by (cases "0 < i \<and> i < ?o") auto
  qed
  have "nth_opt slots' 0 = Some (slots' ! 0)" "nth_opt ipc_table_requests its = Some ?n"
    "nth_opt ipc_table_requests (ipr_size t) = Some ?o"
    using r(2) lt its by (auto simp: nth_opt_def)
  then show ?thesis
    using lt r(1,3) r(4) [unfolded same] request_inv_head [OF inv]
    by (simp add: ipc_port_request_grow_table_def base_def)
qed

lemma request_grow_find_spec:
  assumes "its \<le> 63" "64 - its \<le> fuel"
  shows "\<exists>its'. ipc_port_request_grow_find fuel target its = Some its' \<and> its \<le> its' \<and> its' \<le> 63 \<and>
    (ipc_table_requests ! its' = 0 \<or> target \<le> ipc_table_requests ! its') \<and>
    (\<forall>j. its \<le> j \<longrightarrow> j < its' \<longrightarrow> ipc_table_requests ! j < target)"
  using assms
proof (induction fuel arbitrary: its)
  case 0
  then show ?case by simp
next
  case (Suc fuel)
  let ?sz = "ipc_table_requests ! its"
  show ?case
  proof (cases "?sz \<noteq> 0 \<and> ?sz < target")
    case True
    then have "its \<noteq> 63" by auto
    then have "its + 1 \<le> 63" "64 - (its + 1) \<le> fuel" using Suc.prems by simp_all
    from Suc.IH [OF this]
    obtain its' where r: "ipc_port_request_grow_find fuel target (its + 1) = Some its'" "its + 1 \<le> its'"
      "its' \<le> 63" "ipc_table_requests ! its' = 0 \<or> target \<le> ipc_table_requests ! its'"
      "\<forall>j. its + 1 \<le> j \<longrightarrow> j < its' \<longrightarrow> ipc_table_requests ! j < target"
      by blast
    have "\<forall>j. its \<le> j \<longrightarrow> j < its' \<longrightarrow> ipc_table_requests ! j < target"
      using r(5) True by (metis Suc_eq_plus1 Suc_leI le_neq_implies_less)
    then show ?thesis using r True Suc.prems(1) by (simp add: nth_opt_in)
  next
    case False
    then show ?thesis using Suc.prems(1) by (auto simp: nth_opt_in)
  qed
qed

definition grow_outcome :: "ipc_port \<Rightarrow> nat list \<Rightarrow> ipc_port \<Rightarrow> kern_return_t \<Rightarrow> bool" where
  "grow_outcome port xs port' kr \<longleftrightarrow>
     kr = KERN_RESOURCE_SHORTAGE \<and> port' = port \<or>
     kr = KERN_SUCCESS \<and> (\<exists>t' ys. port' = port\<lparr>ip_requests := Some t'\<rparr> \<and> ys \<noteq> [] \<and>
       request_inv t' (ys @ xs) \<and> requests_of t' = port_requests port)"

lemma request_grow_any:
  assumes act: "ip_active port" and inv: "port_requests_inv port xs"
  shows "\<exists>port' kr. ipc_port_request_grow mem port None = Some (port', kr) \<and> grow_outcome port xs port' kr"
proof -
  let ?its = "case ip_requests port of None \<Rightarrow> 0 | Some t \<Rightarrow> ipr_size t + 1"
  have its: "?its \<le> 63"
    using inv by (auto simp: port_requests_inv_def request_inv_def split: option.splits)
  show ?thesis
  proof (cases "ipc_table_requests ! ?its = 0 \<or> \<not> mem (ipc_table_requests ! ?its)")
    case True
    then have "ipc_port_request_grow mem port None = Some (port, KERN_RESOURCE_SHORTAGE)"
      using act its unfolding ipc_port_request_grow_def
      by (auto simp add: require_ip_active_def Let_def nth_opt_in)
    then show ?thesis by (auto simp: grow_outcome_def)
  next
    case False
    with its have its': "?its < 63" by (metis ipc_table_requests_ends(4) le_neq_implies_less)
    have "\<exists>t' ys. ipc_port_request_grow_table (ip_requests port) ?its = Some t' \<and> ys \<noteq> [] \<and>
        request_inv t' (ys @ xs) \<and> requests_of t' = port_requests port"
    proof (cases "ip_requests port")
      case None
      moreover obtain t' where "ipc_port_request_grow_table None 0 = Some t'"
          "request_inv t' (rev [1..<ipc_table_requests ! 0])" "requests_of t' = Map.empty"
        using grow_table_first [of 0] by auto
      moreover have "rev [1..<ipc_table_requests ! 0] \<noteq> []" by simp
      ultimately show ?thesis using inv
        by (intro exI [of _ t'] exI [of _ "rev [1..<ipc_table_requests ! 0]"])
          (simp add: port_requests_def port_requests_inv_def)
    next
      case (Some t)
      with inv its' have "request_inv t xs" "ipr_size t + 1 < 63" by (simp_all add: port_requests_inv_def)
      moreover from ipc_table_requests_less [of "ipr_size t" "ipr_size t + 1"] this(2)
      have "rev [ipc_table_requests ! ipr_size t..<ipc_table_requests ! (ipr_size t + 1)] \<noteq> []" by simp
      ultimately show ?thesis using grow_table_step [of t xs "ipr_size t + 1"] Some
        unfolding port_requests_def by (metis option.simps(5))
    qed
    then obtain t' ys where "ipc_port_request_grow_table (ip_requests port) ?its = Some t'" "ys \<noteq> []"
        "request_inv t' (ys @ xs)" "requests_of t' = port_requests port"
      by blast
    moreover have "ip_requests port = None \<or> ipr_size (the (ip_requests port)) + 1 = ?its"
      by (cases "ip_requests port") auto
    ultimately have "ipc_port_request_grow mem port None = Some (port\<lparr>ip_requests := Some t'\<rparr>, KERN_SUCCESS)"
      using act its' False unfolding ipc_port_request_grow_def
      by (simp add: require_ip_active_def nth_opt_in)
    with \<open>ys \<noteq> []\<close> \<open>request_inv t' (ys @ xs)\<close> \<open>requests_of t' = port_requests port\<close> show ?thesis
      by (auto simp: grow_outcome_def)
  qed
qed

text \<open>
  A port that has a table is grown by a single step only: a target that lies further away is
  accepted, and the table stays as it is.
\<close>

lemma request_grow_far:
  assumes act: "ip_active port" and t: "ip_requests port = Some t" and inv: "request_inv t xs"
    and far: "ipc_table_requests ! (ipr_size t + 1) < target" "ipr_size t + 1 < 63" "target \<le> 47616"
    and mem: "\<And>n. mem n"
  shows "ipc_port_request_grow mem port (Some target) = Some (port, KERN_SUCCESS)"
proof -
  have lt: "ipc_table_requests ! ipr_size t < target"
    using ipc_table_requests_less [of "ipr_size t" "ipr_size t + 1"] far by simp
  have "ipr_size t + 1 \<le> 63" "64 - (ipr_size t + 1) \<le> 64" using far(2) by simp_all
  from request_grow_find_spec [OF this]
  obtain its' where r: "ipc_port_request_grow_find 64 target (ipr_size t + 1) = Some its'" "ipr_size t + 1 \<le> its'"
    "its' \<le> 63" "ipc_table_requests ! its' = 0 \<or> target \<le> ipc_table_requests ! its'"
    "\<forall>j. ipr_size t + 1 \<le> j \<longrightarrow> j < its' \<longrightarrow> ipc_table_requests ! j < target"
    by blast
  have "its' \<noteq> 63" using spec [OF r(5), of 62] far(2,3) by auto
  moreover have "its' \<noteq> ipr_size t + 1"
  proof
    assume "its' = ipr_size t + 1"
    with r(4) far(1) ipc_table_requests_bounds(1) [OF far(2)] show False by simp
  qed
  moreover have "its' < 63" using calculation(1) r(3) by simp
  moreover have "ipc_table_requests ! its' \<noteq> 0"
    using ipc_table_requests_bounds(1) [OF calculation(3)] by simp
  ultimately show ?thesis
    using act t lt r(1) mem unfolding ipc_port_request_grow_def
    by (simp add: require_ip_active_def nth_opt_in)
qed


section \<open>The interface of a request table\<close>

text \<open>
  What the rights of a space rely on: a request that is stored is found under its index until it is
  cancelled, its send-once right comes back exactly once, and other requests are not disturbed.
\<close>

locale notify_slots =
  fixes ok :: "'p \<Rightarrow> bool"
    and view :: "'p \<Rightarrow> nat \<Rightarrow> ('n \<times> 'r) option"
    and good :: "'n \<Rightarrow> 'r \<Rightarrow> bool"
    and ins :: "'p \<Rightarrow> 'n \<Rightarrow> 'r \<Rightarrow> ('p \<times> nat) option"
    and del :: "'p \<Rightarrow> 'n \<Rightarrow> nat \<Rightarrow> ('p \<times> 'r) option"
  assumes ins_law: "\<lbrakk>ok p; good n r; ins p n r = Some (p', i)\<rbrakk> \<Longrightarrow>
      ok p' \<and> view p i = None \<and> view p' = (view p)(i \<mapsto> (n, r))"
    and del_law: "\<lbrakk>ok p; view p i = Some (n, r)\<rbrakk> \<Longrightarrow>
      \<exists>p'. del p n i = Some (p', r) \<and> ok p' \<and> view p' = (view p)(i := None)"
begin

lemma ins_del:
  assumes "ok p" "good n r" "ins p n r = Some (p1, i)"
  shows "\<exists>p2. del p1 n i = Some (p2, r) \<and> ok p2 \<and> view p2 = view p"
proof -
  from ins_law [OF assms] have p1: "ok p1" "view p i = None" "view p1 = (view p)(i \<mapsto> (n, r))" by auto
  then have "view p1 i = Some (n, r)" by simp
  from del_law [OF p1(1) this] p1(2,3) show ?thesis by (metis fun_upd_triv fun_upd_upd)
qed

lemma ins_keeps:
  assumes "ok p" "good n r" "ins p n r = Some (p', i)" "view p j = Some v"
  shows "view p' j = Some v"
  using ins_law [OF assms(1-3)] assms(4) by auto

lemma del_ins:
  assumes "ok p" "view p i = Some (n, r)" "del p n i = Some (p1, r')" "good m q" "ins p1 m q = Some (p2, j)"
    and "k \<noteq> i" "view p k = Some v"
  shows "r' = r \<and> k \<noteq> j \<and> view p2 k = Some v"
  using del_law [OF assms(1,2)] ins_law [of p1 m q p2 j] assms by auto

end

definition slots_ok :: "ipc_port \<Rightarrow> bool" where
  "slots_ok port \<longleftrightarrow> ip_active port \<and> (\<exists>xs. port_requests_inv port xs)"

definition slots_view :: "ipc_port \<Rightarrow> nat \<Rightarrow> (mach_port_name_t \<times> ipc_port_t) option" where
  "slots_view port i = map_option (\<lambda>(n, so). (n, IPR_SOR_PORT so)) (port_requests port i)"

definition slots_good :: "mach_port_name_t \<Rightarrow> ipc_port_t \<Rightarrow> bool" where
  "slots_good name soright \<longleftrightarrow> name \<noteq> MACH_PORT_NULL \<and> soright \<noteq> IP_NULL \<and> soright AND 3 = 0"

definition slots_ins ::
    "bool \<Rightarrow> bool \<Rightarrow> bool \<Rightarrow> ipc_port \<Rightarrow> mach_port_name_t \<Rightarrow> ipc_port_t \<Rightarrow> (ipc_port \<times> nat) option" where
  "slots_ins donor sp im port name soright =
     (case ipc_port_request_alloc donor port name soright sp im of
        Some (port, kr, index, _) \<Rightarrow> if kr = KERN_SUCCESS then Some (port, unat index) else None
      | None \<Rightarrow> None)"

definition slots_del :: "ipc_port \<Rightarrow> mach_port_name_t \<Rightarrow> nat \<Rightarrow> (ipc_port \<times> ipc_port_t) option" where
  "slots_del port name i = ipc_port_request_cancel port name (word_of_nat i)"

lemma sor_flags_low: "sor_flags sp im AND NOT 3 = 0"
  by (simp add: sor_flags_def IPR_SOR_SPREQ_MASK_def IPR_SOR_SPARM_MASK_def)

lemma slots_ins_some:
  assumes ok: "slots_ok port" and good: "slots_good n r" and r: "slots_ins donor sp im port n r = Some (port', i)"
  shows "slots_ok port' \<and> slots_view port i = None \<and> slots_view port' = (slots_view port)(i \<mapsto> (n, r))"
proof -
  obtain xs where xs: "ip_active port" "port_requests_inv port xs" using ok by (auto simp: slots_ok_def)
  have g: "n \<noteq> MACH_PORT_NULL" "r \<noteq> IP_NULL" "r AND 3 = 0" using good by (auto simp: slots_good_def)
  obtain t where t: "ip_requests port = Some t"
    using r request_alloc_none [OF xs(1) _ g(1,2)] by (cases "ip_requests port") (auto simp: slots_ins_def)
  with xs(2) have inv: "request_inv t xs" by (simp add: port_requests_inv_def)
  show ?thesis
  proof (cases xs)
    case Nil
    then show ?thesis using r inv request_alloc_full [OF xs(1) t _ g(1,2)] by (simp add: slots_ins_def)
  next
    case (Cons x ys)
    with inv have inv': "request_inv t (x # ys)" by simp
    from request_alloc_slot [OF xs(1) t inv' g(1,2), of donor sp im] obtain t' arm imp where
      a: "ipc_port_request_alloc donor port n r sp im =
          Some (port\<lparr>ip_sprequests := arm, ip_requests := Some t'\<rparr>, KERN_SUCCESS, word_of_nat x, imp)"
        "request_inv t' ys" "requests_of t' = (requests_of t)(x \<mapsto> (n, IPR_SOR_MAKE r (sor_flags sp im)))"
      by blast
    have "unat (word_of_nat x :: 32 word) = x"
      using request_inv_take(2) [OF inv'] request_inv_length(2) [OF inv'] by (intro unat_of_nat_len) simp
    with r a(1) have p': "port' = port\<lparr>ip_sprequests := arm, ip_requests := Some t'\<rparr>" and i: "i = x"
      by (auto simp: slots_ins_def)
    have "slots_ok port'" using xs(1) a(2) p' by (auto simp: slots_ok_def port_requests_inv_def io_active_def)
    moreover have "slots_view port x = None"
      using request_inv_take(3) [OF inv'] t by (simp add: slots_view_def port_requests_def requests_of_def rq_used_def)
    moreover have "slots_view port' = (slots_view port)(x \<mapsto> (n, r))"
      using a(3) t p' IPR_SOR_PORT_MAKE [OF g(3) sor_flags_low]
      by (auto simp: slots_view_def port_requests_def fun_eq_iff)
    ultimately show ?thesis by (simp add: i)
  qed
qed

lemma slots_del_some:
  assumes ok: "slots_ok port" and v: "slots_view port i = Some (n, r)"
  shows "\<exists>port'. slots_del port n i = Some (port', r) \<and> slots_ok port' \<and> slots_view port' = (slots_view port)(i := None)"
proof -
  obtain xs t where xs: "ip_active port" "ip_requests port = Some t" "request_inv t xs"
    using ok v by (auto simp: slots_ok_def port_requests_inv_def slots_view_def port_requests_def split: option.splits)
  from v xs(2) obtain so where so: "requests_of t i = Some (n, so)" "r = IPR_SOR_PORT so"
    by (auto simp: slots_view_def port_requests_def)
  then have "i < length (ipr_slots t)" by (auto simp: requests_of_def rq_used_def split: if_splits)
  then have iw: "unat (word_of_nat i :: 32 word) = i"
    using request_inv_length(2) [OF xs(3)] by (intro unat_of_nat_len) simp
  from request_cancel_slot [OF xs, of "word_of_nat i" n so] so(1) iw obtain t' where
    "ipc_port_request_cancel port n (word_of_nat i) = Some (port\<lparr>ip_requests := Some t'\<rparr>, IPR_SOR_PORT so)"
    "request_inv t' (i # xs)" "requests_of t' = (requests_of t)(i := None)"
    by auto
  then show ?thesis using xs(1,2) so(2)
    by (auto simp: slots_del_def slots_ok_def port_requests_inv_def io_active_def slots_view_def
        port_requests_def fun_eq_iff)
qed

interpretation port_slots: notify_slots slots_ok slots_view slots_good "slots_ins donor sp im" slots_del
  by unfold_locales (rule slots_ins_some slots_del_some; assumption)+

end
