(* ===== verification/Ipc_Port.thy ===== *)
theory Ipc_Port
imports Ipc_Request
begin

text \<open>
  Ports: \<^verbatim>\<open>osfmk/ipc/ipc_port.c\<close> with the notifications of \<^verbatim>\<open>osfmk/ipc/ipc_notify.c\<close>, the kernel-object
  callbacks of \<^verbatim>\<open>osfmk/kern/ipc_kobject.c\<close> and the part of \<^verbatim>\<open>ipc_mqueue.c\<close> and \<^verbatim>\<open>ipc_kmsg.c\<close> that tears
  a message queue down.  Making, copying and releasing naked rights, no-senders and send-once
  notifications, importance counts along a chain of ports in transit, destruction of a port and the
  notifications it generates, and the check that a receive right is not sent into its own queue.
  A message is its address; cleaning it is an event.
\<close>

section \<open>Notifications without a message\<close>

definition ipc_port_adjust_special_reply_port :: "ipc_state \<Rightarrow> ipc_port_t \<Rightarrow> bool \<Rightarrow> ipc_state option" where
  "ipc_port_adjust_special_reply_port s p reset = do {
     s \<leftarrow> (if reset then mod_port s p (\<lambda>port. port\<lparr>ip_sync_bootstrap_checkin := False\<rparr>) else Some s);
     Some (event s (Special_reply_adjust p))
   }"

definition ipc_port_release_sonce_and_unlock :: "ipc_state \<Rightarrow> ipc_port_t \<Rightarrow> ipc_state option" where
  "ipc_port_release_sonce_and_unlock s p = do {
     port \<leftarrow> ports s p;
     kassert (ip_sorights port \<noteq> 0);
     s \<leftarrow> mod_port s p (\<lambda>port. port\<lparr>ip_sorights := ip_sorights port - 1\<rparr>);
     s \<leftarrow> (if ip_specialreply port then ipc_port_adjust_special_reply_port s p True else Some s);
     ip_release s p
   }"

definition ipc_port_release_sonce :: "ipc_state \<Rightarrow> ipc_port_t \<Rightarrow> ipc_state option" where
  "ipc_port_release_sonce s p = (if IP_VALID p then ipc_port_release_sonce_and_unlock s p else Some s)"

definition IKOT_TASK_RESUME :: "32 word" where
  "IKOT_TASK_RESUME = 36"

definition ipc_kobject_notify_no_senders ::
    "ipc_state \<Rightarrow> ipc_port_t \<Rightarrow> mach_port_mscount_t \<Rightarrow> ipc_state option" where
  "ipc_kobject_notify_no_senders s p mscount = do {
     port \<leftarrow> ports s p;
     kassert (iko_op_no_senders (env s) (ip_kotype port));
     ip_release (event s (Kobject_no_senders p mscount)) p
   }"

definition ipc_kobject_notify_send_once_and_unlock :: "ipc_state \<Rightarrow> ipc_port_t \<Rightarrow> ipc_state option" where
  "ipc_kobject_notify_send_once_and_unlock s p = do {
     port \<leftarrow> ports s p;
     kassert (\<not> ip_specialreply port);
     kassert (ip_sorights port \<noteq> 0);
     s \<leftarrow> mod_port s p (\<lambda>port. port\<lparr>ip_sorights := ip_sorights port - 1\<rparr>);
     let s = (if ip_kotype port = IKOT_TASK_RESUME then event s (Task_suspension_send_once p) else s);
     ip_release s p
   }"

definition ipc_kobject_destroy :: "ipc_state \<Rightarrow> ipc_port_t \<Rightarrow> ipc_state option" where
  "ipc_kobject_destroy s p = do {
     port \<leftarrow> ports s p;
     kassert (\<not> iko_op_permanent (env s) (ip_kotype port));
     let s = (if iko_op_destroy (env s) (ip_kotype port) then event s (Kobject_destroy p) else s);
     if ip_is_kolabeled port
     then do {
       let labelp = ip_kolabel port;
       kassert (labelp \<noteq> 0);
       kassert (ikol_alt_port s labelp = IP_NULL);
       kassert (ip_is_kobject port);
       s \<leftarrow> mod_port s p (\<lambda>port. io_bits_andnot (port\<lparr>ip_splabel := 0\<rparr>) IO_BITS_KOLABEL);
       Some (event s (Label_free labelp))
     }
     else Some s
   }"

record ipc_notify_nsenders =
  ns_notify :: ipc_port_t
  ns_mscount :: mach_port_mscount_t
  ns_is_kobject :: bool

definition nsenders_none :: ipc_notify_nsenders where
  "nsenders_none = \<lparr>ns_notify = IP_NULL, ns_mscount = 0, ns_is_kobject = False\<rparr>"

definition IP_KOBJECT_NSREQUEST_ARMED :: ipc_port_t where
  "IP_KOBJECT_NSREQUEST_ARMED = 1"

definition ipc_notify_no_senders_prepare ::
    "ipc_state \<Rightarrow> ipc_port_t \<Rightarrow> (ipc_state \<times> ipc_notify_nsenders) option" where
  "ipc_notify_no_senders_prepare s p = do {
     port \<leftarrow> ports s p;
     if ip_nsrequest port = IP_KOBJECT_NSREQUEST_ARMED
     then do {
       s \<leftarrow> mod_port s p (\<lambda>port. port\<lparr>ip_nsrequest := IP_NULL\<rparr>);
       if ip_active port
       then Some (s, \<lparr>ns_notify = p, ns_mscount = ip_mscount port, ns_is_kobject = True\<rparr>)
       else do { s \<leftarrow> ip_release_live s p; Some (s, nsenders_none) }
     }
     else if ip_nsrequest port \<noteq> IP_NULL
     then do {
       s \<leftarrow> mod_port s p (\<lambda>port. port\<lparr>ip_nsrequest := IP_NULL\<rparr>);
       Some (s, \<lparr>ns_notify = ip_nsrequest port, ns_mscount = ip_mscount port, ns_is_kobject = False\<rparr>)
     }
     else Some (s, nsenders_none)
   }"

definition ipc_notify_no_senders ::
    "ipc_state \<Rightarrow> ipc_port_t \<Rightarrow> mach_port_mscount_t \<Rightarrow> bool \<Rightarrow> ipc_state option" where
  "ipc_notify_no_senders s p mscount kobject =
     (if kobject then ipc_kobject_notify_no_senders s p mscount
      else Some (event s (Mach_notify_no_senders p mscount)))"

definition ipc_notify_no_senders_emit :: "ipc_state \<Rightarrow> ipc_notify_nsenders \<Rightarrow> ipc_state option" where
  "ipc_notify_no_senders_emit s nsrequest =
     (if ns_notify nsrequest \<noteq> IP_NULL
      then ipc_notify_no_senders s (ns_notify nsrequest) (ns_mscount nsrequest) (ns_is_kobject nsrequest)
      else Some s)"

definition ipc_notify_no_senders_consume :: "ipc_state \<Rightarrow> ipc_notify_nsenders \<Rightarrow> ipc_state option" where
  "ipc_notify_no_senders_consume s nsrequest =
     (if ns_notify nsrequest \<noteq> IP_NULL
      then if ns_is_kobject nsrequest then ip_release s (ns_notify nsrequest)
           else ipc_port_release_sonce s (ns_notify nsrequest)
      else Some s)"

definition ipc_notify_send_once_and_unlock :: "ipc_state \<Rightarrow> ipc_port_t \<Rightarrow> ipc_state option" where
  "ipc_notify_send_once_and_unlock s p = do {
     port \<leftarrow> ports s p;
     if \<not> ip_active port then ipc_port_release_sonce_and_unlock s p
     else if ip_in_space port (ipc_space_kernel (env s)) then ipc_kobject_notify_send_once_and_unlock s p
     else if imq_full_kernel port then ipc_port_release_sonce_and_unlock s p
     else Some (event s (Mach_notify_send_once p))
   }"

definition ipc_notify_port_deleted :: "ipc_state \<Rightarrow> ipc_port_t \<Rightarrow> mach_port_name_t \<Rightarrow> ipc_state" where
  "ipc_notify_port_deleted s p name = event s (Mach_notify_port_deleted p name)"

definition ipc_notify_send_possible :: "ipc_state \<Rightarrow> ipc_port_t \<Rightarrow> mach_port_name_t \<Rightarrow> ipc_state" where
  "ipc_notify_send_possible s p name = event s (Mach_notify_send_possible p name)"

definition ipc_notify_dead_name :: "ipc_state \<Rightarrow> ipc_port_t \<Rightarrow> mach_port_name_t \<Rightarrow> ipc_state" where
  "ipc_notify_dead_name s p name = event s (Mach_notify_dead_name p name)"

definition ipc_notify_port_destroyed :: "ipc_state \<Rightarrow> ipc_port_t \<Rightarrow> ipc_port_t \<Rightarrow> ipc_state" where
  "ipc_notify_port_destroyed s p right = event s (Mach_notify_port_destroyed p right)"


section \<open>Naked rights\<close>

definition ipc_port_make_send_locked :: "ipc_state \<Rightarrow> ipc_port_t \<Rightarrow> ipc_state option" where
  "ipc_port_make_send_locked s p = do {
     port \<leftarrow> ports s p;
     require_ip_active port;
     s \<leftarrow> mod_port s p (\<lambda>port. port\<lparr>ip_mscount := ip_mscount port + 1, ip_srights := ip_srights port + 1\<rparr>);
     ip_reference s p
   }"

definition ipc_port_make_send :: "ipc_state \<Rightarrow> ipc_port_t \<Rightarrow> (ipc_state \<times> ipc_port_t) option" where
  "ipc_port_make_send s p =
     (if \<not> IP_VALID p then Some (s, p)
      else do {
        port \<leftarrow> ports s p;
        if ip_active port then do { s \<leftarrow> ipc_port_make_send_locked s p; Some (s, p) }
        else Some (s, IP_DEAD)
      })"

definition ipc_port_copy_send_locked :: "ipc_state \<Rightarrow> ipc_port_t \<Rightarrow> ipc_state option" where
  "ipc_port_copy_send_locked s p = do {
     port \<leftarrow> ports s p;
     kassert (ip_srights port > 0);
     s \<leftarrow> mod_port s p (\<lambda>port. port\<lparr>ip_srights := ip_srights port + 1\<rparr>);
     ip_reference s p
   }"

definition ipc_port_copy_send :: "ipc_state \<Rightarrow> ipc_port_t \<Rightarrow> (ipc_state \<times> ipc_port_t) option" where
  "ipc_port_copy_send s p =
     (if \<not> IP_VALID p then Some (s, p)
      else do {
        port \<leftarrow> ports s p;
        if ip_active port then do { s \<leftarrow> ipc_port_copy_send_locked s p; Some (s, p) }
        else Some (s, IP_DEAD)
      })"

definition ipc_port_release_send_and_unlock :: "ipc_state \<Rightarrow> ipc_port_t \<Rightarrow> ipc_state option" where
  "ipc_port_release_send_and_unlock s p = do {
     port \<leftarrow> ports s p;
     kassert (ip_srights port \<noteq> 0);
     s \<leftarrow> mod_port s p (\<lambda>port. port\<lparr>ip_srights := ip_srights port - 1\<rparr>);
     (s, nsrequest) \<leftarrow> (if ip_active port \<and> ip_srights port - 1 = 0
                        then ipc_notify_no_senders_prepare s p else Some (s, nsenders_none));
     s \<leftarrow> ip_release s p;
     ipc_notify_no_senders_emit s nsrequest
   }"

definition ipc_port_release_send :: "ipc_state \<Rightarrow> ipc_port_t \<Rightarrow> ipc_state option" where
  "ipc_port_release_send s p = (if IP_VALID p then ipc_port_release_send_and_unlock s p else Some s)"

definition ipc_port_make_sonce_locked :: "ipc_state \<Rightarrow> ipc_port_t \<Rightarrow> ipc_state option" where
  "ipc_port_make_sonce_locked s p = do {
     port \<leftarrow> ports s p;
     require_ip_active port;
     s \<leftarrow> mod_port s p (\<lambda>port. port\<lparr>ip_sorights := ip_sorights port + 1\<rparr>);
     ip_reference s p
   }"

definition ipc_port_make_sonce :: "ipc_state \<Rightarrow> ipc_port_t \<Rightarrow> (ipc_state \<times> ipc_port_t) option" where
  "ipc_port_make_sonce s p =
     (if \<not> IP_VALID p then Some (s, p)
      else do {
        port \<leftarrow> ports s p;
        if ip_active port then do { s \<leftarrow> ipc_port_make_sonce_locked s p; Some (s, p) }
        else Some (s, IP_DEAD)
      })"

definition ipc_port_nsrequest ::
    "ipc_state \<Rightarrow> ipc_port_t \<Rightarrow> mach_port_mscount_t \<Rightarrow> ipc_port_t \<Rightarrow> (ipc_state \<times> ipc_port_t) option" where
  "ipc_port_nsrequest s p sync notify = do {
     port \<leftarrow> ports s p;
     require_ip_active port;
     kassert (\<not> ip_in_space port (ipc_space_kernel (env s)));
     kassert (ip_nsrequest port \<noteq> IP_KOBJECT_NSREQUEST_ARMED);
     let previous = ip_nsrequest port;
     let mscount = ip_mscount port;
     s \<leftarrow> (if ip_srights port = 0 \<and> sync \<le> mscount \<and> notify \<noteq> IP_NULL
          then do {
            s \<leftarrow> mod_port s p (\<lambda>port. port\<lparr>ip_nsrequest := IP_NULL\<rparr>);
            ipc_notify_no_senders s notify mscount False
          }
          else mod_port s p (\<lambda>port. port\<lparr>ip_nsrequest := notify\<rparr>));
     Some (s, previous)
   }"


section \<open>Importance along a chain of ports\<close>

definition ipc_port_impcount_delta ::
    "ipc_state \<Rightarrow> ipc_port_t \<Rightarrow> mach_port_delta_t \<Rightarrow> (ipc_state \<times> mach_port_delta_t) option" where
  "ipc_port_impcount_delta s p delta = do {
     port \<leftarrow> ports s p;
     if \<not> ip_active port then Some (s, 0)
     else if sint delta \<ge> 0
     then do {
       s \<leftarrow> mod_port s p (\<lambda>port. port\<lparr>ip_impcount := ip_impcount port + delta\<rparr>);
       Some (s, delta)
     }
     else do {
       let absdelta = 0 - delta;
       if ip_impcount port \<ge> absdelta
       then do {
         s \<leftarrow> mod_port s p (\<lambda>port. port\<lparr>ip_impcount := ip_impcount port - absdelta\<rparr>);
         Some (s, delta)
       }
       else do {
         s \<leftarrow> mod_port s p (\<lambda>port. port\<lparr>ip_impcount := 0\<rparr>);
         Some (s, 0 - ip_impcount port)
       }
     }
   }"

text \<open>
  The walk to the end of the chain runs until it finds a port that is not in transit; on a cycle it
  would not end, which is the value \<open>None\<close>.
\<close>

partial_function (option) ipc_port_destination_chain_lock ::
    "ipc_state \<Rightarrow> ipc_port_t \<Rightarrow> (ipc_state \<times> ipc_port_t \<times> bool) option" where
  "ipc_port_destination_chain_lock s p = do {
     port \<leftarrow> ports s p;
     if \<not> ip_active port then do { s \<leftarrow> ip_reference s p; Some (s, p, True) }
     else if \<not> ip_in_transit port then Some (s, p, False)
     else ipc_port_destination_chain_lock s (ip_get_destination port)
   }"

partial_function (option) ipc_port_importance_chain ::
    "ipc_state \<Rightarrow> ipc_port_t \<Rightarrow> ipc_port_t \<Rightarrow> mach_port_delta_t \<Rightarrow> (ipc_state \<times> mach_port_delta_t) option" where
  "ipc_port_importance_chain s p base delta = do {
     (s, delta) \<leftarrow> ipc_port_impcount_delta s p delta;
     if p = base then Some (s, delta)
     else do {
       port \<leftarrow> ports s p;
       kassert (\<not> ip_tempowner port);
       kassert (ip_in_transit port);
       ipc_port_importance_chain s (ip_get_destination port) base delta
     }
   }"

definition IPID_OPTION_NORMAL :: "32 word" where
  "IPID_OPTION_NORMAL = 0"

definition IPID_OPTION_SENDPOSSIBLE :: "32 word" where
  "IPID_OPTION_SENDPOSSIBLE = 1"

text \<open>The task to boost for the port at the base of a chain.\<close>

definition ipc_port_importance_task :: "ipc_state \<Rightarrow> ipc_port \<Rightarrow> ipc_importance_task_t" where
  "ipc_port_importance_task s base =
     (if ip_active base
      then if ip_tempowner base then ip_get_imp_task base
           else if ip_in_a_space base
           then let t = is_task (env s) (ip_get_receiver base)
                in if t \<noteq> 0 \<and> is_any_receiver_type (env s) (task_imp_base (env s) t)
                   then task_imp_base (env s) t else 0
           else 0
      else 0)"

definition ipc_port_importance_delta_internal ::
    "ipc_state \<Rightarrow> ipc_port_t \<Rightarrow> 32 word \<Rightarrow> mach_port_delta_t \<Rightarrow>
     (ipc_state \<times> bool \<times> mach_port_delta_t \<times> ipc_importance_task_t) option" where
  "ipc_port_importance_delta_internal s p options delta =
     (if delta = 0 then Some (s, False, delta, 0)
      else do {
        kassert (options = IPID_OPTION_NORMAL \<or> options = IPID_OPTION_SENDPOSSIBLE);
        port \<leftarrow> ports s p;
        (s, base, took_base_ref) \<leftarrow>
          (if ip_in_transit port then ipc_port_destination_chain_lock s p else Some (s, p, False));
        (s, delta) \<leftarrow>
          (if options AND IPID_OPTION_SENDPOSSIBLE \<noteq> 0
           then do {
             kassert (delta = 1);
             port \<leftarrow> ports s p;
             if ip_sprequests port \<and> \<not> ip_spimportant port
             then do { s \<leftarrow> mod_port s p (\<lambda>port. port\<lparr>ip_spimportant := True\<rparr>); Some (s, delta) }
             else Some (s, 0)
           }
           else Some (s, delta));
        (s, delta) \<leftarrow> ipc_port_importance_chain s p base delta;
        b \<leftarrow> ports s base;
        let imp_task = ipc_port_importance_task s b;
        let s = (if imp_task \<noteq> 0 then event s (Importance_reference imp_task) else s);
        s \<leftarrow> (if took_base_ref then ip_release s base else Some s);
        Some (s, ip_in_transit port, delta, imp_task)
      })"

definition ipc_port_importance_delta ::
    "ipc_state \<Rightarrow> ipc_port_t \<Rightarrow> 32 word \<Rightarrow> mach_port_delta_t \<Rightarrow> (ipc_state \<times> bool) option" where
  "ipc_port_importance_delta s p options delta = do {
     (s, dropped, delta, imp_task) \<leftarrow> ipc_port_importance_delta_internal s p options delta;
     if imp_task = 0 \<or> delta = 0 then Some (s, dropped)
     else do {
       kassert (is_any_receiver_type (env s) imp_task);
       let s = (if sint delta > 0 then event s (Importance_hold imp_task delta)
                else event s (Importance_drop imp_task (- delta)));
       Some (event s (Importance_release imp_task), True)
     }
   }"


section \<open>Labels of service ports\<close>

definition ISPL_FLAGS_SPECIAL_PDREQUEST :: "32 word" where
  "ISPL_FLAGS_SPECIAL_PDREQUEST = 1"

definition ISPL_FLAGS_SEND_PD_NOTIFICATION :: "32 word" where
  "ISPL_FLAGS_SEND_PD_NOTIFICATION = 2"

definition ipc_service_port_label_is_special_pdrequest :: "ipc_state \<Rightarrow> 64 word \<Rightarrow> bool" where
  "ipc_service_port_label_is_special_pdrequest s l \<longleftrightarrow>
     ispl_flags s l AND ISPL_FLAGS_SPECIAL_PDREQUEST = ISPL_FLAGS_SPECIAL_PDREQUEST"

definition ipc_service_port_label_is_pd_notification :: "ipc_state \<Rightarrow> 64 word \<Rightarrow> bool" where
  "ipc_service_port_label_is_pd_notification s l \<longleftrightarrow>
     ispl_flags s l AND ISPL_FLAGS_SEND_PD_NOTIFICATION = ISPL_FLAGS_SEND_PD_NOTIFICATION"

definition ipc_service_port_label_set_flag :: "ipc_state \<Rightarrow> 64 word \<Rightarrow> 32 word \<Rightarrow> ipc_state" where
  "ipc_service_port_label_set_flag s l flag = s\<lparr>ispl_flags := (ispl_flags s)(l := ispl_flags s l OR flag)\<rparr>"

definition ipc_service_port_label_clear_flag :: "ipc_state \<Rightarrow> 64 word \<Rightarrow> 32 word \<Rightarrow> ipc_state" where
  "ipc_service_port_label_clear_flag s l flag =
     s\<lparr>ispl_flags := (ispl_flags s)(l := ispl_flags s l AND NOT flag)\<rparr>"


section \<open>Tearing a port down\<close>

definition ipc_port_timestamp :: "ipc_state \<Rightarrow> ipc_state \<times> ipc_port_timestamp_t" where
  "ipc_port_timestamp s =
     (s\<lparr>ipc_port_timestamp_data := ipc_port_timestamp_data s + 1\<rparr>, ipc_port_timestamp_data s)"

text \<open>The union of \<open>ip_pdrequest\<close> and \<open>ip_twe\<close>: a watchport element keeps the request of its port.\<close>

definition ipc_port_update_watchport_elem ::
    "ipc_state \<Rightarrow> ipc_port_t \<Rightarrow> 64 word \<Rightarrow> (ipc_state \<times> 64 word) option" where
  "ipc_port_update_watchport_elem s p we = do {
     port \<leftarrow> ports s p;
     kassert (\<not> ip_specialreply port);
     (s, old_we, pdrequest) \<leftarrow>
       (if ip_has_watchport port
        then do {
          pdrequest \<leftarrow> twe_pdrequest s (ip_twe port);
          Some (s\<lparr>twe_pdrequest := (twe_pdrequest s)(ip_twe port \<mapsto> IP_NULL)\<rparr>, ip_twe port, pdrequest)
        }
        else Some (s, 0, ip_pdrequest port));
     if we \<noteq> 0
     then do {
       s \<leftarrow> mod_port s p (\<lambda>port. port\<lparr>ip_has_watchport := True, ip_pdrequest := we\<rparr>);
       Some (s\<lparr>twe_pdrequest := (twe_pdrequest s)(we \<mapsto> pdrequest)\<rparr>, old_we)
     }
     else do {
       s \<leftarrow> mod_port s p (\<lambda>port. port\<lparr>ip_has_watchport := False, ip_pdrequest := pdrequest\<rparr>);
       Some (s, old_we)
     }
   }"

definition ipc_port_clear_watchport_elem_internal ::
    "ipc_state \<Rightarrow> ipc_port_t \<Rightarrow> (ipc_state \<times> 64 word) option" where
  "ipc_port_clear_watchport_elem_internal s p = do {
     port \<leftarrow> ports s p;
     if \<not> ip_has_watchport port then Some (s, 0) else ipc_port_update_watchport_elem s p 0
   }"

definition ipc_port_has_prdrequest :: "ipc_state \<Rightarrow> ipc_port \<Rightarrow> bool option" where
  "ipc_port_has_prdrequest s port =
     (if ip_specialreply port then Some False
      else if ip_has_watchport port
      then do { pdrequest \<leftarrow> twe_pdrequest s (ip_twe port); Some (pdrequest \<noteq> IP_NULL) }
      else Some (ip_pdrequest port \<noteq> IP_NULL))"

definition ipc_kmsg_delayed_destroy_queue :: "ipc_state \<Rightarrow> ipc_port_t \<Rightarrow> (ipc_state \<times> bool) option" where
  "ipc_kmsg_delayed_destroy_queue s p = do {
     port \<leftarrow> ports s p;
     if imq_messages port = [] then Some (s, False)
     else do {
       s \<leftarrow> mod_port s p (\<lambda>port. port\<lparr>imq_messages := []\<rparr>);
       Some (s\<lparr>ith_messages := ith_messages s @ imq_messages port\<rparr>, ith_messages s = [])
     }
   }"

fun ipc_kmsg_reap_loop :: "ipc_kmsg_t list \<Rightarrow> ipc_state \<Rightarrow> ipc_state" where
  "ipc_kmsg_reap_loop [] s = s"
| "ipc_kmsg_reap_loop (kmsg # queue) s =
     ipc_kmsg_reap_loop queue (event ((event s (Kmsg_clean kmsg))\<lparr>ith_messages := queue\<rparr>) (Kmsg_free kmsg))"

definition ipc_kmsg_reap_delayed :: "ipc_state \<Rightarrow> ipc_state" where
  "ipc_kmsg_reap_delayed s = ipc_kmsg_reap_loop (ith_messages s) s"

definition ipc_mqueue_destroy_locked :: "ipc_state \<Rightarrow> ipc_port_t \<Rightarrow> (ipc_state \<times> bool) option" where
  "ipc_mqueue_destroy_locked s p = do {
     s \<leftarrow> mod_port s p (\<lambda>port. port\<lparr>ip_fullwaiters := False\<rparr>);
     let s = (event s (Senders_wakeup p))\<lparr>send_waiters := (send_waiters s)(p := 0)\<rparr>;
     (s, reap) \<leftarrow> ipc_kmsg_delayed_destroy_queue s p;
     s \<leftarrow> mod_port s p (\<lambda>port. port\<lparr>imq_msgcount := 0, ip_waitq_valid := False, ip_psets := []\<rparr>);
     Some (s, reap)
   }"

definition ipc_port_clear_receiver :: "ipc_state \<Rightarrow> ipc_port_t \<Rightarrow> bool \<Rightarrow> (ipc_state \<times> bool) option" where
  "ipc_port_clear_receiver s p should_destroy = do {
     port \<leftarrow> ports s p;
     s \<leftarrow> mod_port s p (\<lambda>port. port\<lparr>ip_psets := []\<rparr>);
     let s = event s (Mqueue_changed (ip_get_receiver port) p);
     s \<leftarrow> mod_port s p (\<lambda>port. port\<lparr>ip_mscount := 0, imq_seqno := 0, ip_context := 0, ip_guarded := False,
                                    ip_strict_guard := False, ip_immovable_receive := False\<rparr>);
     if should_destroy
     then do {
       let (s, ts) = ipc_port_timestamp s;
       s \<leftarrow> mod_port s p (\<lambda>port. (io_bits_andnot port IO_BITS_ACTIVE)
              \<lparr>ip_receiver_name := MACH_PORT_NULL,
               ip_receiver := (ip_receiver port AND NOT (mask 32)) OR ucast ts\<rparr>);
       ipc_mqueue_destroy_locked s p
     }
     else do {
       s \<leftarrow> mod_port s p (\<lambda>port. port\<lparr>ip_receiver_name := MACH_PORT_NULL, ip_receiver := IP_NULL\<rparr>);
       Some (s, False)
     }
   }"

text \<open>Slots \<open>index, \<dots>, index + n - 1\<close> of the request table, once send is possible.\<close>

fun ipc_port_spnotify_loop :: "nat \<Rightarrow> nat \<Rightarrow> ipc_state \<Rightarrow> ipc_port_t \<Rightarrow> ipc_state option" where
  "ipc_port_spnotify_loop 0 index s p = Some s"
| "ipc_port_spnotify_loop (Suc n) index s p = do {
     port \<leftarrow> ports s p;
     requests \<leftarrow> ip_requests port;
     ipr \<leftarrow> nth_opt (ipr_slots requests) index;
     let name = ipr_name ipr;
     let soright = IPR_SOR_PORT (ipr_soright ipr);
     if MACH_PORT_VALID name \<and> IPR_SOR_SPARMED (ipr_soright ipr) \<and> IP_VALID soright
     then do {
       let requests = requests\<lparr>ipr_slots := (ipr_slots requests)[index := ipr\<lparr>ipr_soright := IP_NULL\<rparr>]\<rparr>;
       s \<leftarrow> mod_port s p (\<lambda>port. port\<lparr>ip_requests := Some requests\<rparr>);
       ipc_port_spnotify_loop n (index + 1) (ipc_notify_send_possible s soright name) p
     }
     else ipc_port_spnotify_loop n (index + 1) s p
   }"

definition ipc_port_spnotify :: "ipc_state \<Rightarrow> ipc_port_t \<Rightarrow> ipc_state option" where
  "ipc_port_spnotify s p = do {
     port \<leftarrow> ports s p;
     if \<not> ip_sprequests port then Some s
     else do {
       s \<leftarrow> (if ip_spimportant port
            then do {
              s \<leftarrow> mod_port s p (\<lambda>port. port\<lparr>ip_spimportant := False\<rparr>);
              (s, dropped) \<leftarrow> ipc_port_importance_delta s p IPID_OPTION_NORMAL (- 1);
              Some s
            }
            else Some s);
       port \<leftarrow> ports s p;
       if \<not> ip_sprequests port then Some s
       else do {
         s \<leftarrow> mod_port s p (\<lambda>port. port\<lparr>ip_sprequests := False\<rparr>);
         if ip_active port
         then do {
           requests \<leftarrow> ip_requests port;
           ipc_port_spnotify_loop (ipc_table_requests ! ipr_size requests - 1) 1 s p
         }
         else Some s
       }
     }
   }"

fun ipc_port_dnnotify_loop :: "nat \<Rightarrow> nat \<Rightarrow> ipc_port_request list \<Rightarrow> ipc_state \<Rightarrow> ipc_state option" where
  "ipc_port_dnnotify_loop 0 index slots s = Some s"
| "ipc_port_dnnotify_loop (Suc n) index slots s = do {
     ipr \<leftarrow> nth_opt slots index;
     let soright = IPR_SOR_PORT (ipr_soright ipr);
     ipc_port_dnnotify_loop n (index + 1) slots
       (if MACH_PORT_VALID (ipr_name ipr) \<and> IP_VALID soright
        then ipc_notify_dead_name s soright (ipr_name ipr) else s)
   }"

definition ipc_port_dnnotify :: "ipc_state \<Rightarrow> ipc_port_t \<Rightarrow> ipc_state option" where
  "ipc_port_dnnotify s p = do {
     port \<leftarrow> ports s p;
     kassert (\<not> ip_active port);
     case ip_requests port of
       None \<Rightarrow> Some s
     | Some requests \<Rightarrow>
         ipc_port_dnnotify_loop (ipc_table_requests ! ipr_size requests - 1) 1 (ipr_slots requests) s
   }"

text \<open>
  The three parts of \<open>ipc_port_destroy\<close>: how many assertions are to be dropped and from whom, what is
  left to do when the port goes to its backup or dies, and the drop itself.
\<close>

definition ipc_port_destroy_assertions ::
    "ipc_state \<Rightarrow> ipc_port_t \<Rightarrow> ipc_port_t \<Rightarrow> (ipc_state \<times> ipc_importance_task_t \<times> 32 word \<times> bool) option" where
  "ipc_port_destroy_assertions s p pdrequest = do {
     port \<leftarrow> ports s p;
     let is_top = (ith_assertions s = 0);
     (s, release_imp_task, assertcnt) \<leftarrow>
       (if ip_tempowner port
        then do {
          kassert is_top;
          let release_imp_task = ip_get_imp_task port;
          if release_imp_task \<noteq> 0
          then do {
            s \<leftarrow> mod_port s p (\<lambda>port. port\<lparr>ip_kobject := 0\<rparr>);
            Some (s, release_imp_task, ip_impcount port)
          }
          else Some (s, 0, 0)
        }
        else do {
          s \<leftarrow> (if pdrequest \<noteq> IP_NULL then mod_port s p (\<lambda>port. port\<lparr>ip_tempowner := True\<rparr>) else Some s);
          Some (s, 0, ip_impcount port)
        });
     let s = (if is_top then s\<lparr>ith_assertions := assertcnt\<rparr> else s);
     Some (s, release_imp_task, assertcnt, is_top)
   }"

definition ipc_port_destroy_backup :: "ipc_state \<Rightarrow> ipc_port_t \<Rightarrow> ipc_port_t \<Rightarrow> bool \<Rightarrow> ipc_state option" where
  "ipc_port_destroy_backup s p pdrequest service_port = do {
     port \<leftarrow> ports s p;
     s \<leftarrow> (if service_port
          then do {
            kassert (ip_splabel port \<noteq> 0);
            Some (if ipc_service_port_label_is_special_pdrequest s (ip_splabel port)
                  then ipc_service_port_label_set_flag s (ip_splabel port) ISPL_FLAGS_SEND_PD_NOTIFICATION
                  else s)
          }
          else Some s);
     Some (ipc_notify_port_destroyed (event s (Turnstile_recompute_push p)) pdrequest p)
   }"

definition ipc_port_destroy_dead ::
    "ipc_state \<Rightarrow> ipc_port_t \<Rightarrow> bool \<Rightarrow> bool \<Rightarrow> bool \<Rightarrow> ipc_state option" where
  "ipc_port_destroy_dead s p special_reply service_port reap_msgs = do {
     (s, nsrequest) \<leftarrow> ipc_notify_no_senders_prepare s p;
     port \<leftarrow> ports s p;
     (s, splabel) \<leftarrow>
       (if \<not> ip_is_kolabeled port
        then do {
          s \<leftarrow> mod_port s p (\<lambda>port. port\<lparr>ip_splabel := 0, ip_service_port := False\<rparr>);
          Some (s, ip_splabel port)
        }
        else Some (s, 0));
     let s = event s (Turnstile_recompute_push p);
     s \<leftarrow> (if special_reply then ipc_port_adjust_special_reply_port s p False else Some s);
     let s = (if splabel \<noteq> 0 then event s (Service_label_dealloc splabel service_port) else s);
     let s = (if reap_msgs then ipc_kmsg_reap_delayed s else s);
     s \<leftarrow> (if ns_notify nsrequest \<noteq> IP_NULL
          then do {
            kassert (\<not> ns_is_kobject nsrequest);
            ipc_notify_send_once_and_unlock s (ns_notify nsrequest)
          }
          else Some s);
     s \<leftarrow> ipc_port_dnnotify s p;
     s \<leftarrow> ipc_kobject_destroy s p;
     ip_release s p
   }"

definition ipc_port_destroy_drop ::
    "ipc_state \<Rightarrow> ipc_importance_task_t \<Rightarrow> 32 word \<Rightarrow> bool \<Rightarrow> ipc_state option" where
  "ipc_port_destroy_drop s release_imp_task assertcnt is_top =
     (if release_imp_task \<noteq> 0
      then do {
        s \<leftarrow> (if assertcnt > 0
             then do {
               kassert is_top;
               kassert (is_any_receiver_type (env s) release_imp_task);
               Some (event (s\<lparr>ith_assertions := 0\<rparr>) (Importance_drop release_imp_task assertcnt))
             }
             else Some s);
        Some (event s (Importance_release release_imp_task))
      }
      else if assertcnt > 0 \<and> is_top
      then (let s = s\<lparr>ith_assertions := 0\<rparr>; imp = current_imp_base (env s)
            in Some (if is_any_receiver_type (env s) imp then event s (Importance_drop imp assertcnt) else s))
      else Some s)"

definition ipc_port_destroy :: "ipc_state \<Rightarrow> ipc_port_t \<Rightarrow> ipc_state option" where
  "ipc_port_destroy s p = do {
     port \<leftarrow> ports s p;
     let special_reply = ip_specialreply port;
     let service_port = ip_service_port port;
     require_ip_active port;
     s \<leftarrow> mod_port s p (\<lambda>port. port\<lparr>ip_reply_context := 0\<rparr>);
     (s, twe) \<leftarrow> ipc_port_clear_watchport_elem_internal s p;
     port \<leftarrow> ports s p;
     kassert (\<not> ip_has_watchport port);
     (s, pdrequest) \<leftarrow>
       (if \<not> special_reply
        then do {
          s \<leftarrow> mod_port s p (\<lambda>port. port\<lparr>ip_pdrequest := IP_NULL\<rparr>);
          Some (s, ip_pdrequest port)
        }
        else do { kassert (\<not> ip_tempowner port); Some (s, IP_NULL) });
     (s, release_imp_task, assertcnt, is_top) \<leftarrow> ipc_port_destroy_assertions s p pdrequest;
     (s, reap_msgs) \<leftarrow> ipc_port_clear_receiver s p (pdrequest = IP_NULL);
     port \<leftarrow> ports s p;
     kassert (\<not> ip_in_pset port);
     kassert (ip_mscount port = 0);
     s \<leftarrow> (if pdrequest \<noteq> IP_NULL
          then do { kassert (\<not> reap_msgs); ipc_port_destroy_backup s p pdrequest service_port }
          else ipc_port_destroy_dead s p special_reply service_port reap_msgs);
     let s = (if twe \<noteq> 0 then event s (Watchport_deallocate twe) else s);
     ipc_port_destroy_drop s release_imp_task assertcnt is_top
   }"

definition ipc_port_release_receive :: "ipc_state \<Rightarrow> ipc_port_t \<Rightarrow> ipc_state option" where
  "ipc_port_release_receive s p =
     (if \<not> IP_VALID p then Some s
      else do {
        port \<leftarrow> ports s p;
        require_ip_active port;
        kassert (\<not> ip_in_a_space port);
        let dest = ip_get_destination port;
        s \<leftarrow> ipc_port_destroy s p;
        if dest \<noteq> IP_NULL then ip_release (event s (Turnstile_complete dest)) dest else Some s
      })"


section \<open>Making ports\<close>

definition IPC_PORT_INIT_MAKE_SEND_RIGHT :: "32 word" where
  "IPC_PORT_INIT_MAKE_SEND_RIGHT = 0x01"

definition IPC_PORT_INIT_SPECIAL_REPLY :: "32 word" where
  "IPC_PORT_INIT_SPECIAL_REPLY = 0x04"

definition IPC_PORT_INIT_FILTER_MESSAGE :: "32 word" where
  "IPC_PORT_INIT_FILTER_MESSAGE = 0x08"

definition IPC_PORT_INIT_TG_BLOCK_TRACKING :: "32 word" where
  "IPC_PORT_INIT_TG_BLOCK_TRACKING = 0x10"

definition ipc_port_zero :: ipc_port where
  "ipc_port_zero = \<lparr>io_bits = 0, io_references = 0, ip_waitq_valid = False, ip_psets = [],
     ip_fullwaiters = False, ip_sprequests = False, ip_spimportant = False, ip_impdonation = False,
     ip_tempowner = False, ip_guarded = False, ip_strict_guard = False, ip_specialreply = False,
     ip_sync_bootstrap_checkin = False, ip_immovable_receive = False, ip_no_grant = False,
     ip_immovable_send = False, ip_tg_block_tracking = False, ip_pinned = False,
     ip_service_port = False, ip_has_watchport = False, imq_messages = [], imq_seqno = 0,
     ip_receiver_name = 0, imq_msgcount = 0, imq_qlimit = 0, ip_reply_context = 0, ip_receiver = 0,
     ip_kobject = 0, ip_pdrequest = 0, ip_nsrequest = 0, ip_requests = None, ip_premsg = 0,
     ip_context = 0, ip_impcount = 0, ip_mscount = 0, ip_srights = 0, ip_sorights = 0, ip_splabel = 0\<rparr>"

definition ipc_port_init :: "ipc_port \<Rightarrow> ipc_space_t \<Rightarrow> 32 word \<Rightarrow> mach_port_name_t \<Rightarrow> ipc_port" where
  "ipc_port_init port space flags name =
     (let port = (if flags AND IPC_PORT_INIT_FILTER_MESSAGE \<noteq> 0
                  then io_bits_or port IP_BIT_FILTER_MSG else port);
          port = port\<lparr>ip_waitq_valid := True\<rparr>;
          port = (if flags AND IPC_PORT_INIT_TG_BLOCK_TRACKING \<noteq> 0
                  then port\<lparr>ip_tg_block_tracking := True\<rparr> else port);
          port = (if flags AND IPC_PORT_INIT_SPECIAL_REPLY \<noteq> 0
                  then port\<lparr>ip_specialreply := True, ip_immovable_receive := True\<rparr> else port);
          port = port\<lparr>imq_messages := [], imq_qlimit := MACH_PORT_QLIMIT_DEFAULT\<rparr>;
          port = port\<lparr>ip_receiver_name := name, ip_receiver := space\<rparr>
      in if flags AND IPC_PORT_INIT_MAKE_SEND_RIGHT \<noteq> 0
         then port\<lparr>ip_srights := 1, ip_mscount := 1\<rparr> else port)"

text \<open>\<open>addr\<close> is what the zone allocator returns, \<open>IP_NULL\<close> when it has no memory.\<close>

definition ipc_port_alloc_special ::
    "ipc_port_t \<Rightarrow> ipc_state \<Rightarrow> ipc_space_t \<Rightarrow> 32 word \<Rightarrow> ipc_state \<times> ipc_port_t" where
  "ipc_port_alloc_special addr s space flags =
     (if addr = IP_NULL then (s, IP_NULL)
      else let port = ipc_port_zero\<lparr>io_bits := io_makebits True IOT_PORT 0, io_references := 1\<rparr>;
               port = ipc_port_init port space flags MACH_PORT_SPECIAL_DEFAULT
           in (s\<lparr>ports := (ports s)(addr \<mapsto> port)\<rparr>, addr))"

definition ipc_port_dealloc_special :: "ipc_state \<Rightarrow> ipc_port_t \<Rightarrow> ipc_space_t \<Rightarrow> ipc_state option" where
  "ipc_port_dealloc_special s p space = do {
     port \<leftarrow> ports s p;
     require_ip_active port;
     kassert (ip_in_space port space);
     s \<leftarrow> mod_port s p (\<lambda>port. port\<lparr>ip_receiver_name := MACH_PORT_NULL, ip_receiver := 0,
                                    ip_mscount := 0, imq_seqno := 0\<rparr>);
     ipc_port_destroy s p
   }"


section \<open>Circularity\<close>

text \<open>Charging \<open>assertcnt\<close> to every port from \<open>dest\<close> to the base of its chain.\<close>

partial_function (option) ipc_importance_charge_chain ::
    "ipc_state \<Rightarrow> ipc_port_t \<Rightarrow> ipc_port_t \<Rightarrow> 32 word \<Rightarrow> ipc_state option" where
  "ipc_importance_charge_chain s dest base assertcnt = do {
     (s, _) \<leftarrow> ipc_port_impcount_delta s dest assertcnt;
     if dest = base then Some s
     else do {
       d \<leftarrow> ports s dest;
       require_ip_active d;
       kassert (ip_in_transit d);
       kassert (\<not> ip_tempowner d);
       ipc_importance_charge_chain s (ip_get_destination d) base assertcnt
     }
   }"

text \<open>The ports of a circle found from \<open>base\<close> on are all in transit or in limbo.\<close>

partial_function (option) ipc_importance_check_circle :: "ipc_state \<Rightarrow> ipc_port_t \<Rightarrow> unit option" where
  "ipc_importance_check_circle s base =
     (if base = IP_NULL then Some ()
      else do {
        b \<leftarrow> ports s base;
        require_ip_active b;
        kassert (ip_receiver_name b = MACH_PORT_NULL);
        ipc_importance_check_circle s (ip_get_destination b)
      })"

text \<open>
  The port goes from limbo into transit to \<open>dest\<close>, whose chain ends in \<open>base\<close>, and the assertions it
  carries move to the task at the base.  Turnstile linkage is an event.
\<close>

definition ipc_importance_enter_transit ::
    "ipc_state \<Rightarrow> ipc_port_t \<Rightarrow> ipc_port_t \<Rightarrow> ipc_port_t \<Rightarrow> bool \<Rightarrow> ipc_state option" where
  "ipc_importance_enter_transit s p dest base took_base_ref = do {
     port \<leftarrow> ports s p;
     require_ip_active port;
     kassert (ip_in_limbo port);
     (s, twe) \<leftarrow> ipc_port_clear_watchport_elem_internal s p;
     d \<leftarrow> ports s dest;
     s \<leftarrow> (if ip_specialreply d \<and> ip_sync_bootstrap_checkin d
          then mod_port s p (\<lambda>port. port\<lparr>ip_sync_bootstrap_checkin := True\<rparr>) else Some s);
     s \<leftarrow> ip_reference s dest;
     port \<leftarrow> ports s p;
     kassert (ip_receiver_name port = MACH_PORT_NULL);
     kassert (ip_tempowner port);
     let release_imp_task = ip_get_imp_task port;
     let assertcnt = ip_impcount port;
     s \<leftarrow> mod_port s p (\<lambda>port. port\<lparr>ip_receiver := dest,
            ip_kobject := (if release_imp_task \<noteq> 0 then 0 else ip_kobject port), ip_tempowner := False\<rparr>);
     s \<leftarrow> ipc_importance_charge_chain (event s (Turnstile_link p dest)) dest base assertcnt;
     b \<leftarrow> ports s base;
     kassert (\<not> ip_in_transit b);
     let imp_task = (if ip_active b \<and> sint assertcnt > 0 then ipc_port_importance_task s b else 0);
     kassert (ip_tempowner b \<and> imp_task \<noteq> 0 \<longrightarrow> is_any_receiver_type (env s) imp_task);
     let transfer = (imp_task \<noteq> release_imp_task);
     let s = (if imp_task \<noteq> 0 then event s (Importance_reference imp_task) else s);
     let s = (if imp_task \<noteq> 0 \<and> transfer then event s (Importance_hold imp_task assertcnt) else s);
     let s = (if release_imp_task \<noteq> 0 \<and> transfer then event s (Importance_drop release_imp_task assertcnt) else s);
     s \<leftarrow> (if took_base_ref then ip_release s base else Some s);
     let s = (if imp_task \<noteq> 0 then event s (Importance_release imp_task) else s);
     let s = (if release_imp_task \<noteq> 0 then event s (Importance_release release_imp_task) else s);
     Some (if twe \<noteq> 0 then event s (Watchport_deallocate twe) else s)
   }"

definition ipc_importance_check_circularity ::
    "ipc_state \<Rightarrow> ipc_port_t \<Rightarrow> ipc_port_t \<Rightarrow> (ipc_state \<times> bool) option" where
  "ipc_importance_check_circularity s p dest = do {
     kassert (p \<noteq> IP_NULL);
     kassert (dest \<noteq> IP_NULL);
     if p = dest then Some (s, True)
     else do {
       d \<leftarrow> ports s dest;
       let s = event s (Turnstile_prepare dest);
       (s, base, took_base_ref) \<leftarrow>
         (if \<not> ip_in_transit d then Some (s, dest, False) else ipc_port_destination_chain_lock s dest);
       if ip_in_transit d \<and> p = base
       then do {
         port \<leftarrow> ports s p;
         require_ip_active port;
         kassert (ip_in_limbo port);
         kassert (\<not> took_base_ref);
         ipc_importance_check_circle s dest;
         Some (event s (Turnstile_complete dest), True)
       }
       else do {
         s \<leftarrow> ipc_importance_enter_transit s p dest base took_base_ref;
         Some (s, False)
       }
     }
   }"

definition ipc_port_check_circularity ::
    "ipc_state \<Rightarrow> ipc_port_t \<Rightarrow> ipc_port_t \<Rightarrow> (ipc_state \<times> bool) option" where
  "ipc_port_check_circularity s p dest = ipc_importance_check_circularity s p dest"

end
