(* ===== verification/Port_Chain.thy ===== *)
theory Port_Chain
imports Ipc_Logic Ipc_Port
begin

text \<open>
  Receive rights in transit.  A port whose receive right travels in a message points to the port the
  message is queued on; the chain of these pointers must end, for the walks along it run until they
  find a port that is not in transit.  \<open>chain_next\<close> reads the pointer of a port off the state and
  \<open>chain_to\<close> says where the chain of a port ends; the lemmas show that the walks end exactly on chains
  that end, that the circularity check is exact and that it keeps every chain finite.
\<close>

section \<open>Chains\<close>

text \<open>\<open>None\<close> for an address without a port, \<open>Some None\<close> for a port that is not in transit.\<close>

definition chain_next :: "ipc_state \<Rightarrow> ipc_port_t \<Rightarrow> ipc_port_t option option" where
  "chain_next s p =
     map_option (\<lambda>port. if ip_in_transit port then Some (ip_get_destination port) else None) (ports s p)"

inductive chain_to :: "('a \<Rightarrow> 'a option option) \<Rightarrow> 'a \<Rightarrow> 'a \<Rightarrow> bool" for n where
  chain_end: "n p = Some None \<Longrightarrow> chain_to n p p"
| chain_step: "n p = Some (Some q) \<Longrightarrow> chain_to n q b \<Longrightarrow> chain_to n p b"

inductive_cases chain_toE: "chain_to n p b"

lemma chain_to_base: "chain_to n p b \<Longrightarrow> n b = Some None"
  by (induction rule: chain_to.induct) auto

lemma chain_to_unique: "chain_to n p b \<Longrightarrow> chain_to n p c \<Longrightarrow> b = c"
  by (induction rule: chain_to.induct) (auto elim: chain_toE)

text \<open>A new pointer out of the end of a chain leads every chain that ended there on.\<close>

lemma chain_to_link:
  assumes "n p = Some None" "chain_to n d b" "b \<noteq> p"
  shows "chain_to (n(p \<mapsto> Some d)) d b"
    and "chain_to n q c \<Longrightarrow> chain_to (n(p \<mapsto> Some d)) q (if c = p then b else c)"
proof -
  have keep: "chain_to (n(p \<mapsto> Some d)) q c" if "chain_to n q c" "c \<noteq> p" for q c
    using that
  proof (induction rule: chain_to.induct)
    case (chain_end q)
    then show ?case by (intro chain_to.chain_end) simp
  next
    case (chain_step q r c)
    then have "q \<noteq> p" using assms(1) by auto
    with chain_step show ?case by (intro chain_to.chain_step [of _ q r]) simp_all
  qed
  show d: "chain_to (n(p \<mapsto> Some d)) d b" by (rule keep [OF assms(2,3)])
  show "chain_to (n(p \<mapsto> Some d)) q (if c = p then b else c)" if "chain_to n q c"
  proof (cases "c = p")
    case True
    have "chain_to (n(p \<mapsto> Some d)) q b" using that True
    proof (induction rule: chain_to.induct)
      case (chain_end q)
      then show ?case by (intro chain_to.chain_step [OF _ d]) simp
    next
      case (chain_step q r c)
      then have "q \<noteq> p" using assms(1) by auto
      with chain_step show ?case by (intro chain_to.chain_step [of _ q r]) simp_all
    qed
    then show ?thesis using True by simp
  next
    case False
    then show ?thesis using keep [OF that] by simp
  qed
qed

definition chains_end :: "ipc_state \<Rightarrow> bool" where
  "chains_end s \<longleftrightarrow> (\<forall>p. ports s p \<noteq> None \<longrightarrow> (\<exists>b. chain_to (chain_next s) p b))"


section \<open>The walk to the base\<close>

lemma chain_next_Some:
  "chain_next s p = Some None \<longleftrightarrow> (\<exists>port. ports s p = Some port \<and> \<not> ip_in_transit port)"
  "chain_next s p = Some (Some q) \<longleftrightarrow>
     (\<exists>port. ports s p = Some port \<and> ip_in_transit port \<and> ip_get_destination port = q)"
  by (auto simp: chain_next_def)

lemma in_transit_active: "ip_in_transit port \<Longrightarrow> ip_active port"
  by (simp add: ip_in_transit_def)

lemma chain_lock_end:
  assumes "chain_to (chain_next s) p b" "ports s b = Some base"
  shows "ipc_port_destination_chain_lock s p =
     (if ip_active base then Some (s, b, False)
      else do { s \<leftarrow> ip_reference s b; Some (s, b, True) })"
  using assms
proof (induction rule: chain_to.induct)
  case (chain_end p)
  then show ?case
    by (subst ipc_port_destination_chain_lock.simps) (auto simp: chain_next_Some)
next
  case (chain_step p q b)
  then show ?case
    by (subst ipc_port_destination_chain_lock.simps) (auto simp: chain_next_Some in_transit_active)
qed

lemma chain_lock_returns:
  assumes "ipc_port_destination_chain_lock s p = Some r"
  shows "chain_to (chain_next s) p (fst (snd r))"
  using assms
proof (rule ipc_port_destination_chain_lock.raw_induct [rotated])
  fix lock s p r
  assume IH: "\<And>s p r. lock s p = Some r \<Longrightarrow> chain_to (chain_next s) p (fst (snd r))"
    and eq: "ports s p \<bind>
      (\<lambda>port. if \<not> ip_active port then ip_reference s p \<bind> (\<lambda>s. Some (s, p, True))
              else if \<not> ip_in_transit port then Some (s, p, False)
                   else lock s (ip_get_destination port)) = Some r"
  then obtain port where port: "ports s p = Some port" by (auto simp: bind_Some_iff)
  show "chain_to (chain_next s) p (fst (snd r))"
  proof (cases "ip_in_transit port")
    case True
    then have "lock s (ip_get_destination port) = Some r" using eq port by (simp add: in_transit_active)
    then show ?thesis using IH port True
      by (intro chain_step [of _ p "ip_get_destination port"]) (auto simp: chain_next_Some)
  next
    case False
    then have "fst (snd r) = p" using eq port by (auto simp: bind_Some_iff split: if_splits)
    then show ?thesis using False port by (auto intro: chain_end simp: chain_next_Some)
  qed
qed

text \<open>On a cycle the walk does not return.\<close>

lemma chain_lock_cycle:
  assumes "(p, p) \<in> {(p, q). chain_next s p = Some (Some q)}\<^sup>+"
  shows "ipc_port_destination_chain_lock s p = None"
proof (rule ccontr)
  assume "ipc_port_destination_chain_lock s p \<noteq> None"
  then obtain r where "ipc_port_destination_chain_lock s p = Some r" by blast
  then have b: "chain_to (chain_next s) p (fst (snd r))" by (rule chain_lock_returns)
  have "(q, q) \<notin> {(p, q). n p = Some (Some q)}\<^sup>+" if "chain_to n q b" for n :: "'b \<Rightarrow> 'b option option" and q b
    using that
  proof (induction rule: chain_to.induct)
    case (chain_end p)
    then show ?case by (auto dest: tranclD)
  next
    case (chain_step p q b)
    show ?case
    proof
      assume "(p, p) \<in> {(p, q). n p = Some (Some q)}\<^sup>+"
      then obtain z where z: "n p = Some (Some z)" "(z, p) \<in> {(p, q). n p = Some (Some q)}\<^sup>*"
        by (auto dest: tranclD)
      then have "(q, p) \<in> {(p, q). n p = Some (Some q)}\<^sup>*" "(p, q) \<in> {(p, q). n p = Some (Some q)}"
        using chain_step(1) by auto
      then have "(q, q) \<in> {(p, q). n p = Some (Some q)}\<^sup>+" by (rule rtrancl_into_trancl1)
      with chain_step show False by blast
    qed
  qed
  from this [OF b] show False using assms by blast
qed


section \<open>What does not move a pointer\<close>

text \<open>
  The pointer of a port depends on three fields only; an update that keeps them keeps every chain.
\<close>

definition same_transit :: "ipc_port \<Rightarrow> ipc_port \<Rightarrow> bool" where
  "same_transit port port' \<longleftrightarrow>
     io_bits port' = io_bits port \<and> ip_receiver_name port' = ip_receiver_name port \<and>
     ip_receiver port' = ip_receiver port"

lemma same_transit_next:
  assumes "same_transit port port'"
  shows "ip_in_transit port' = ip_in_transit port" "ip_get_destination port' = ip_get_destination port"
    "ip_active port' = ip_active port"
  using assms
  by (simp_all add: same_transit_def ip_in_transit_def ip_get_destination_def ip_in_a_space_def io_active_def)

text \<open>Nothing but counters and flags changes, and no reference is dropped.\<close>

definition frame :: "ipc_state \<Rightarrow> ipc_state \<Rightarrow> bool" where
  "frame s s' \<longleftrightarrow>
     (\<forall>q. rel_option (\<lambda>a b. same_transit a b \<and> io_references a \<le> io_references b) (ports s q) (ports s' q))"

lemma frame_refl: "frame s s"
  by (simp add: frame_def option.rel_refl same_transit_def)

lemma frame_ports:
  assumes "frame s s'" "ports s p = Some port"
  obtains port' where "ports s' p = Some port'" "same_transit port port'" "io_references port \<le> io_references port'"
  using assms by (auto simp: frame_def option_rel_Some1 dest!: spec [of _ p])

lemma frame_update:
  assumes "frame s0 s" "ports s p = Some port" "same_transit port port'" "io_references port \<le> io_references port'"
    "ports s' = (ports s)(p \<mapsto> port')"
  shows "frame s0 s'"
  unfolding frame_def
proof
  fix q
  have q: "rel_option (\<lambda>a b. same_transit a b \<and> io_references a \<le> io_references b) (ports s0 q) (ports s q)"
    using assms(1) by (simp add: frame_def)
  show "rel_option (\<lambda>a b. same_transit a b \<and> io_references a \<le> io_references b) (ports s0 q) (ports s' q)"
  proof (cases "q = p")
    case True
    then obtain port0 where "ports s0 p = Some port0" "same_transit port0 port" "io_references port0 \<le> io_references port"
      using q assms(2) by (auto simp: option_rel_Some2)
    then show ?thesis using True assms(3-5) by (auto simp: same_transit_def)
  next
    case False
    then show ?thesis using q assms(5) by simp
  qed
qed

lemma frame_event [simp]: "frame s0 (event s ev) = frame s0 s"
  by (simp add: frame_def)

lemma chain_next_frame:
  assumes "frame s s'"
  shows "chain_next s' = chain_next s"
proof
  fix q
  have "rel_option (\<lambda>a b. same_transit a b \<and> io_references a \<le> io_references b) (ports s q) (ports s' q)"
    using assms by (simp add: frame_def)
  then show "chain_next s' q = chain_next s q"
    by (cases rule: option.rel_cases) (auto simp: chain_next_def same_transit_next)
qed

lemma chain_next_ports: "ports s' = ports s \<Longrightarrow> chain_next s' = chain_next s"
  by (rule ext) (simp add: chain_next_def)

lemma mod_port_frame:
  assumes "frame s0 s" "\<And>port. same_transit port (f port)" "\<And>port. io_references (f port) = io_references port"
  shows "post (mod_port s p f) (frame s0)"
proof (rule postI)
  fix s' assume "mod_port s p f = Some s'"
  then obtain port where port: "ports s p = Some port" "s' = s\<lparr>ports := (ports s)(p \<mapsto> f port)\<rparr>"
    by (auto simp: mod_port_Some)
  show "frame s0 s'" by (rule frame_update [OF assms(1) port(1) assms(2)]) (simp_all add: port assms(3))
qed

lemma os_ref_retain_le: "os_ref_retain r = Some r' \<Longrightarrow> r \<le> r' \<and> r' = r + 1 \<and> 2 \<le> r'"
  by (auto simp: os_ref_retain_def os_ref_check_retain_def os_ref_check_overflow_def OS_REFCNT_MAX_COUNT_def
      bind_Some_iff kassert_def word_le_nat_alt word_less_nat_alt unat_word_ariths split: if_splits)

lemma reference_frame:
  assumes "frame s0 s" "ports s p = Some port"
  shows "post (ip_reference s p) (\<lambda>s'. frame s0 s' \<and>
    (\<exists>port'. ports s' p = Some port' \<and> 2 \<le> io_references port' \<and> same_transit port port'))"
proof (rule postI)
  fix s' assume "ip_reference s p = Some s'"
  then obtain r where r: "os_ref_retain (io_references port) = Some r"
    and s': "s' = s\<lparr>ports := (ports s)(p \<mapsto> port\<lparr>io_references := r\<rparr>)\<rparr>"
    by (auto simp: ipc_object_reference_def assms(2) bind_Some_iff mod_port_Some)
  have le: "io_references port \<le> r" "2 \<le> r" using os_ref_retain_le [OF r] by blast+
  have "frame s0 s'"
    by (rule frame_update [OF assms, of "port\<lparr>io_references := r\<rparr>"]) (simp_all add: s' same_transit_def le)
  then show "frame s0 s' \<and> (\<exists>port'. ports s' p = Some port' \<and> 2 \<le> io_references port' \<and> same_transit port port')"
    by (simp add: s' same_transit_def le)
qed

lemma impcount_delta_frame:
  "frame s0 s \<Longrightarrow> post (ipc_port_impcount_delta s p d) (\<lambda>(s', _). frame s0 s')"
  unfolding ipc_port_impcount_delta_def Let_def
  by (intro post_rules post_seq [OF mod_port_frame]) (simp_all add: same_transit_def)

lemma watchport_frame:
  assumes "frame s0 s"
  shows "post (ipc_port_clear_watchport_elem_internal s p) (\<lambda>(s', _). frame s0 s')"
proof -
  have twe: "frame s0 (s\<lparr>twe_pdrequest := t\<rparr>)" if "frame s0 s" for s t
    using that by (simp add: frame_def)
  note post_twe = post_read [of "twe_pdrequest s t" for s t]
  show ?thesis
    unfolding ipc_port_clear_watchport_elem_internal_def ipc_port_update_watchport_elem_def
    apply (intro post_rules)
      apply (simp add: assms)
     apply (rule post_seq [of _ "\<lambda>(s', _). frame s0 s'"])
      apply (intro post_rules post_twe)
       apply (simp_all add: assms twe)
    apply (intro post_rules post_seq [OF mod_port_frame])
    apply (simp_all add: same_transit_def)
    done
qed

lemma charge_chain_frame:
  assumes "ipc_importance_charge_chain s d b n = Some s'" "frame s0 s"
  shows "frame s0 s'"
proof -
  have "\<forall>s0. frame s0 s \<longrightarrow> frame s0 s'"
    using assms(1)
  proof (rule ipc_importance_charge_chain.raw_induct [rotated])
    fix charge :: "ipc_state \<Rightarrow> ipc_port_t \<Rightarrow> ipc_port_t \<Rightarrow> 32 word \<Rightarrow> ipc_state option" and s d b n s'
    assume IH: "\<And>s d b n s'. charge s d b n = Some s' \<Longrightarrow> \<forall>s0. frame s0 s \<longrightarrow> frame s0 s'"
    let ?m = "ipc_port_impcount_delta s d n \<bind>
        (\<lambda>(s, _). if d = b then Some s
                   else ports s d \<bind> (\<lambda>dp. require_ip_active dp \<bind> (\<lambda>_. kassert (ip_in_transit dp) \<bind>
                     (\<lambda>_. kassert (\<not> ip_tempowner dp) \<bind> (\<lambda>_. charge s (ip_get_destination dp) b n)))))"
    assume eq: "?m = Some s'"
    have "frame s0 s'" if "frame s0 s" for s0
    proof -
      have "post ?m (frame s0)"
        by (intro post_rules post_seq [OF impcount_delta_frame [OF that]]) (auto intro!: postI dest: IH)
      from postD [OF this eq] show ?thesis .
    qed
    then show "\<forall>s0. frame s0 s \<longrightarrow> frame s0 s'" by blast
  qed
  with assms(2) show ?thesis by blast
qed


section \<open>The circularity check\<close>

text \<open>A released reference that was not the last one leaves every pointer as it is.\<close>

lemma release_chain:
  assumes "ports s p = Some port" "2 \<le> io_references port"
  shows "post (ip_release s p) (\<lambda>s'. chain_next s' = chain_next s)"
proof (rule postI)
  fix s' assume eq: "ip_release s p = Some s'"
  have "io_references port - 1 \<noteq> 0" using assms(2) by (auto simp: word_le_nat_alt)
  then have "s' = s\<lparr>ports := (ports s)(p \<mapsto> port\<lparr>io_references := io_references port - 1\<rparr>)\<rparr>"
    using eq assms(1) by (auto simp: ipc_object_release_def bind_Some_iff mod_port_Some dest!: os_ref_release_Some)
  then show "chain_next s' = chain_next s"
    by (intro ext) (auto simp: chain_next_def assms(1) ip_in_transit_def ip_get_destination_def
        ip_in_a_space_def io_active_def)
qed

lemma transit_next:
  assumes "ports s p = Some port" "ip_active port" "ip_receiver_name port = MACH_PORT_NULL" "dest \<noteq> IP_NULL"
    "ports s' = (ports s)(p \<mapsto> port')" "io_bits port' = io_bits port"
    "ip_receiver_name port' = ip_receiver_name port" "ip_receiver port' = dest"
  shows "chain_next s' = (chain_next s)(p \<mapsto> Some dest)"
  using assms
  by (auto simp: chain_next_def fun_eq_iff ip_in_transit_def ip_get_destination_def ip_in_a_space_def io_active_def)


lemma reference_keeps_frame:
  assumes "frame s0 s"
  shows "post (ip_reference s p) (frame s0)"
proof (cases "ports s p")
  case None
  then show ?thesis using assms
    by (auto intro!: postI simp: ipc_object_reference_def mod_pset_def bind_Some_iff frame_def)
next
  case (Some port)
  then show ?thesis using post_weaken [OF reference_frame [OF assms Some]] by blast
qed

lemma charge_frame: "frame s0 s \<Longrightarrow> post (ipc_importance_charge_chain s d b n) (frame s0)"
  using charge_chain_frame by (auto intro: postI)

text \<open>The state once the port points to its destination: \<open>held\<close> is the reference on the base, if any.\<close>

definition in_transit_state :: "ipc_state \<Rightarrow> ipc_port_t \<Rightarrow> ipc_port_t \<Rightarrow> ipc_port_t \<Rightarrow> bool \<Rightarrow> ipc_state \<Rightarrow> bool" where
  "in_transit_state s p dest base held s' \<longleftrightarrow>
     chain_next s' = (chain_next s)(p \<mapsto> Some dest) \<and>
     (held \<longrightarrow> (\<exists>b. ports s' base = Some b \<and> 2 \<le> io_references b))"

lemma in_transit_state_ports:
  "in_transit_state s p dest base held s1 \<Longrightarrow> ports s2 = ports s1 \<Longrightarrow> (held' \<Longrightarrow> held) \<Longrightarrow>
   in_transit_state s p dest base held' s2"
  by (simp add: in_transit_state_def chain_next_ports [of s2 s1])

lemma in_transit_state_frame:
  "in_transit_state s p dest base held s1 \<Longrightarrow> frame s1 s2 \<Longrightarrow> in_transit_state s p dest base held s2"
  by (auto simp: in_transit_state_def chain_next_frame elim!: frame_ports [of s1 s2 base])

lemma in_transit_state_chain:
  "in_transit_state s p dest base held s1 \<Longrightarrow> ports s2 = ports s1 \<Longrightarrow>
   chain_next s2 = (chain_next s)(p \<mapsto> Some dest)"
  by (simp add: in_transit_state_def chain_next_ports [of s2 s1])

lemma in_transit_state_release:
  assumes "in_transit_state s p dest base True s1"
  shows "post (ip_release s1 base) (in_transit_state s p dest base False)"
  using assms by (auto simp: in_transit_state_def intro: post_weaken [OF release_chain])

lemma in_transit_state_enter:
  assumes "frame s s1" "ports s1 p = Some port" "ports s p = Some port0" "ip_active port0"
    "ip_receiver_name port = MACH_PORT_NULL" "dest \<noteq> IP_NULL"
    "held \<Longrightarrow> \<exists>b. ports s base = Some b \<and> 2 \<le> io_references b"
    "io_bits (f port) = io_bits port" "ip_receiver_name (f port) = ip_receiver_name port" "ip_receiver (f port) = dest"
    "io_references (f port) = io_references port"
  shows "post (mod_port s1 p f) (in_transit_state s p dest base held)"
proof (rule postI)
  fix s2 assume "mod_port s1 p f = Some s2"
  then have s2: "s2 = s1\<lparr>ports := (ports s1)(p \<mapsto> f port)\<rparr>" using assms(2) by (simp add: mod_port_Some)
  have "ip_active port" using assms(1-4) by (auto elim!: frame_ports [of s s1 p] simp: same_transit_next)
  then have "chain_next s2 = (chain_next s1)(p \<mapsto> Some dest)"
    by (rule transit_next [OF assms(2) _ assms(5,6) _ assms(8,9,10)]) (simp add: s2)
  moreover have "\<exists>b. ports s2 base = Some b \<and> 2 \<le> io_references b" if held: "held"
  proof -
    obtain b b' where "ports s base = Some b" "2 \<le> io_references b" "ports s1 base = Some b'"
        "io_references b \<le> io_references b'"
      using assms(1) assms(7) [OF held] by (auto elim!: frame_ports [of s s1 base])
    then show ?thesis using assms(2,11) by (cases "base = p") (auto simp: s2)
  qed
  ultimately show "in_transit_state s p dest base held s2"
    by (simp add: in_transit_state_def chain_next_frame [OF assms(1)])
qed

lemma enter_transit_chain:
  assumes dest: "dest \<noteq> IP_NULL"
    and took: "took \<Longrightarrow> \<exists>b. ports s base = Some b \<and> 2 \<le> io_references b"
  shows "post (ipc_importance_enter_transit s p dest base took)
    (\<lambda>s'. chain_next s' = (chain_next s)(p \<mapsto> Some dest))"
  unfolding ipc_importance_enter_transit_def
  apply (intro post_ports post_require_active post_kassert)
  apply (rule post_seq [OF watchport_frame [OF frame_refl]])
  apply (intro post_prod post_ports)
  apply (rule post_seq [of _ "frame s"])
   apply (intro post_rules mod_port_frame; simp add: same_transit_def)
  apply (rule post_seq [OF reference_keeps_frame], assumption)
  apply (intro post_ports post_kassert post_let)
  apply (rule post_seq)
   apply (rule in_transit_state_enter [where s = s and held = took and base = base and dest = dest])
             apply (assumption | simp add: dest took require_ip_active_Some)+
  apply (rule post_seq [OF charge_frame [OF frame_refl]])
  apply (drule in_transit_state_ports [of _ _ _ _ _ _ "event x ev" for x ev])
    apply (rule event_simps, assumption)
  apply (drule (1) in_transit_state_frame)
  apply (intro post_ports post_kassert post_let)
  apply (rule post_seq [of _ "in_transit_state s p dest base False"])
   apply (intro post_rules in_transit_state_release; erule in_transit_state_ports; simp)
  apply (intro post_Some post_let)
  apply (erule in_transit_state_chain [where held = False])
  apply simp
  done


lemma chain_lock_frame:
  assumes "ipc_port_destination_chain_lock s p = Some (s', b, took)"
  shows "frame s s'" and "took \<Longrightarrow> \<exists>base. ports s' b = Some base \<and> 2 \<le> io_references base"
proof -
  have to: "chain_to (chain_next s) p b" using chain_lock_returns [OF assms] by simp
  then obtain base where base: "ports s b = Some base"
    using chain_to_base [OF to] by (auto simp: chain_next_Some)
  note lock = chain_lock_end [OF to base]
  show "frame s s'"
    using assms lock postD [OF reference_keeps_frame [OF frame_refl]]
    by (auto simp: frame_refl bind_Some_iff split: if_splits)
  show "\<exists>base. ports s' b = Some base \<and> 2 \<le> io_references base" if took
    using assms lock postD [OF reference_frame [OF frame_refl base]] that
    by (fastforce simp: bind_Some_iff split: if_splits)
qed

lemma check_circle_ends:
  assumes "chain_to (chain_next s) q p" "ports s p = Some port" "ip_in_limbo port"
  shows "ipc_importance_check_circle s q = Some ()"
  using assms
proof (induction rule: chain_to.induct)
  case (chain_end p)
  then have "ip_active port" "ip_receiver_name port = MACH_PORT_NULL" "ip_get_destination port = IP_NULL"
    by (auto simp: ip_in_limbo_def ip_in_a_space_def ip_get_destination_def)
  moreover have "ipc_importance_check_circle s IP_NULL = Some ()"
    by (subst ipc_importance_check_circle.simps) simp
  ultimately show ?case using chain_end(2)
    by (subst ipc_importance_check_circle.simps) (simp add: require_ip_active_def)
next
  case (chain_step q r p)
  then obtain qp where "ports s q = Some qp" "ip_in_transit qp" "ip_get_destination qp = r"
    by (auto simp: chain_next_Some)
  moreover have "ip_active qp" "ip_receiver_name qp = MACH_PORT_NULL"
    using \<open>ip_in_transit qp\<close> by (auto simp: ip_in_transit_def ip_in_a_space_def)
  ultimately show ?case using chain_step
    by (subst ipc_importance_check_circle.simps) (simp add: require_ip_active_def)
qed

lemma limbo_next: "ports s p = Some port \<Longrightarrow> ip_in_limbo port \<Longrightarrow> chain_next s p = Some None"
  by (auto simp: chain_next_Some ip_in_limbo_def ip_in_transit_def)

lemma check_circularity_circular:
  assumes limbo: "ports s p = Some port" "ip_in_limbo port" and p: "p \<noteq> IP_NULL" "dest \<noteq> IP_NULL"
    and circle: "chain_to (chain_next s) dest p"
  obtains s' where "ipc_port_check_circularity s p dest = Some (s', True)" "ports s' = ports s"
proof (cases "p = dest")
  case True
  show thesis
    by (rule that [of s])
      (use p True in \<open>simp_all add: ipc_port_check_circularity_def ipc_importance_check_circularity_def\<close>)
next
  case False
  have "\<exists>d. ports s dest = Some d \<and> ip_in_transit d"
    by (rule chain_toE [OF circle]) (use False in \<open>auto simp: chain_next_Some\<close>)
  then obtain d where d: "ports s dest = Some d" "ip_in_transit d" by blast
  let ?s = "event s (Turnstile_prepare dest)"
  have circle': "chain_to (chain_next ?s) dest p" using circle by (simp add: chain_next_ports [of ?s s])
  have act: "ip_active port" using limbo(2) by (simp add: ip_in_limbo_def)
  have lock: "ipc_port_destination_chain_lock ?s dest = Some (?s, p, False)"
    using chain_lock_end [OF circle', of port] limbo act by simp
  show thesis
    by (rule that [of "event ?s (Turnstile_complete dest)"])
      (use False p d lock limbo act check_circle_ends [OF circle' _ limbo(2)] in
        \<open>simp_all add: ipc_port_check_circularity_def ipc_importance_check_circularity_def require_ip_active_def\<close>)
qed

lemma check_circularity_enters:
  assumes res: "ipc_port_check_circularity s p dest = Some (s', r)"
    and limbo: "ports s p = Some port" "ip_in_limbo port"
    and open_chain: "\<not> chain_to (chain_next s) dest p"
  shows "\<not> r" and "chain_next s' = (chain_next s)(p \<mapsto> Some dest)"
    and "\<exists>b. chain_to (chain_next s) dest b"
proof -
  have nulls: "dest \<noteq> IP_NULL" and ne: "p \<noteq> dest"
    using res open_chain chain_end [of "chain_next s" p, OF limbo_next [OF limbo]]
    by (auto simp: ipc_port_check_circularity_def ipc_importance_check_circularity_def bind_Some_iff)
  let ?s = "event s (Turnstile_prepare dest)"
  obtain d where d: "ports s dest = Some d"
    using res ne by (auto simp: ipc_port_check_circularity_def ipc_importance_check_circularity_def bind_Some_iff)
  obtain s1 base took where walk: "(if \<not> ip_in_transit d then Some (?s, dest, False)
      else ipc_port_destination_chain_lock ?s dest) = Some (s1, base, took)"
    and rest: "(if ip_in_transit d \<and> p = base
      then do { port \<leftarrow> ports s1 p; require_ip_active port; kassert (ip_in_limbo port); kassert (\<not> took);
                ipc_importance_check_circle s1 dest; Some (event s1 (Turnstile_complete dest), True) }
      else do { s \<leftarrow> ipc_importance_enter_transit s1 p dest base took; Some (s, False) }) = Some (s', r)"
    using res ne d
    by (auto simp: ipc_port_check_circularity_def ipc_importance_check_circularity_def bind_Some_iff Let_def)
  have next_eq: "chain_next ?s = chain_next s" by (rule chain_next_ports) simp
  have base: "chain_to (chain_next s) dest base"
    using walk d chain_lock_returns [of ?s dest] by (auto simp: next_eq chain_next_Some intro!: chain_end split: if_splits)
  then show "\<exists>b. chain_to (chain_next s) dest b" by blast
  have ne': "base \<noteq> p" using base open_chain by blast
  then obtain enter: "ipc_importance_enter_transit s1 p dest base took = Some s'" and "\<not> r"
    using rest by (auto simp: bind_Some_iff)
  then show "\<not> r" by simp
  have s1: "chain_next s1 = chain_next s"
    using walk chain_next_frame [OF chain_lock_frame(1)] next_eq by (auto split: if_splits)
  have "\<exists>b. ports s1 base = Some b \<and> 2 \<le> io_references b" if took
    using walk chain_lock_frame(2) that by (auto split: if_splits)
  from postD [OF enter_transit_chain [OF nulls this] enter]
  show "chain_next s' = (chain_next s)(p \<mapsto> Some dest)" by (simp add: s1)
qed

text \<open>The check keeps every chain finite.\<close>

lemma chains_end_next:
  "chains_end s \<longleftrightarrow> (\<forall>p. chain_next s p \<noteq> None \<longrightarrow> (\<exists>b. chain_to (chain_next s) p b))"
  by (simp add: chains_end_def chain_next_def)

lemma check_circularity_chains_end:
  assumes res: "ipc_port_check_circularity s p dest = Some (s', r)"
    and limbo: "ports s p = Some port" "ip_in_limbo port" and ends: "chains_end s"
  shows "chains_end s'"
proof (cases "chain_to (chain_next s) dest p")
  case True
  have "p \<noteq> IP_NULL" "dest \<noteq> IP_NULL"
    using res by (auto simp: ipc_port_check_circularity_def ipc_importance_check_circularity_def bind_Some_iff)
  from check_circularity_circular [OF limbo this True] obtain s1
    where "ipc_port_check_circularity s p dest = Some (s1, True)" "ports s1 = ports s" by blast
  then have "ports s' = ports s" using res by simp
  then show ?thesis using ends by (simp add: chains_end_def chain_next_ports [of s' s])
next
  case False
  note enters = check_circularity_enters [OF res limbo False]
  from enters(3) obtain b where b: "chain_to (chain_next s) dest b" by blast
  have "b \<noteq> p" using b False by blast
  note link = chain_to_link [OF limbo_next [OF limbo] b this]
  show ?thesis
    unfolding chains_end_next enters(2)
  proof (intro allI impI)
    fix q assume q: "((chain_next s)(p \<mapsto> Some dest)) q \<noteq> None"
    have "chain_next s p \<noteq> None" using limbo_next [OF limbo] by simp
    then have "chain_next s q \<noteq> None" using q by (cases "q = p") auto
    then obtain c where "chain_to (chain_next s) q c" using ends by (auto simp: chains_end_next)
    from link(2) [OF this] show "\<exists>b. chain_to ((chain_next s)(p \<mapsto> Some dest)) q b" by blast
  qed
qed

end
