(* ===== verification/Demo_State.thy ===== *)
theory Demo_State
imports Ipc_Port Ipc_Logic Demo_Space
begin

text \<open>
  A concrete state for the witnesses: the space of \<open>Demo_Space\<close> at the address \<open>demo_task\<close>, with the
  receive right \<open>demo_port\<close> (name \<open>0x1ff\<close>) and a send right for \<open>demo_peer\<close> (name \<open>0x2ff\<close>), whose
  receive right is in another space; a receive right in limbo and one in transit to \<open>demo_port\<close>.
\<close>

definition demo_task :: ipc_space_t where
  "demo_task = 0xffffff8000000800"

definition demo_other :: ipc_space_t where
  "demo_other = 0xffffff8000000900"

definition demo_kernel :: ipc_space_t where
  "demo_kernel = 0xffffff8000000100"

definition demo_limbo :: ipc_port_t where
  "demo_limbo = 0xffffff8000003000"

definition demo_transit :: ipc_port_t where
  "demo_transit = 0xffffff8000004000"

definition demo_watcher :: ipc_port_t where
  "demo_watcher = 0xffffff8000005000"

definition demo_env :: ipc_env where
  "demo_env = \<lparr>ipc_space_kernel = demo_kernel, is_task = (\<lambda>_. 0), task_imp_base = (\<lambda>_. 0),
     get_threadtask = (\<lambda>_. 0), current_imp_base = 0, is_any_receiver_type = (\<lambda>_. True),
     is_importance_donor = False, iko_op_no_senders = (\<lambda>_. True), iko_op_permanent = (\<lambda>_. False),
     iko_op_destroy = (\<lambda>_. False), iko_op_stable = (\<lambda>_. False), iko_op_allow_upgrade = (\<lambda>_. True),
     ikm_prealloc_busy = (\<lambda>_. False), current_is_initproc = False, current_space = demo_task,
     task_is_immovable = (\<lambda>_. True), task_is_pinned = (\<lambda>_. True), task_immovable_hard = True,
     task_pinned_hard = True, ith_knote = 0, is_remote_node = (\<lambda>_. False), ith_msg_addr = 0\<rparr>"

definition demo_live :: ipc_port where
  "demo_live = ipc_port_zero\<lparr>io_bits := IO_BITS_ACTIVE, io_references := 3, ip_waitq_valid := True,
     imq_qlimit := MACH_PORT_QLIMIT_DEFAULT\<rparr>"

definition demo_ports :: "ipc_port_t \<rightharpoonup> ipc_port" where
  "demo_ports = [
     demo_port \<mapsto> demo_live\<lparr>ip_receiver_name := 0x1ff, ip_receiver := demo_task\<rparr>,
     demo_peer \<mapsto> demo_live\<lparr>ip_receiver_name := 0x103, ip_receiver := demo_other, ip_srights := 1,
                            ip_nsrequest := demo_watcher\<rparr>,
     demo_limbo \<mapsto> demo_live\<lparr>ip_tempowner := True\<rparr>,
     demo_transit \<mapsto> demo_live\<lparr>ip_receiver := demo_port\<rparr>,
     demo_watcher \<mapsto> demo_live\<lparr>ip_receiver_name := 0x203, ip_receiver := demo_other, ip_sorights := 1\<rparr>]"

definition demo_state :: ipc_state where
  "demo_state = \<lparr>ports = demo_ports, psets = Map.empty, spaces = [demo_task \<mapsto> demo_space],
     twe_pdrequest = Map.empty, ispl_flags = (\<lambda>_. 0), ispl_attr = (\<lambda>_. (0, 0)), ikol_label = (\<lambda>_. 0),
     ikol_alt_port = (\<lambda>_. 0), ipc_port_timestamp_data = 7, send_waiters = (\<lambda>_. 0), ith_messages = [],
     ith_assertions = 0, env = demo_env, events = []\<rparr>"

lemmas demo_addrs = demo_port_def demo_peer_def demo_limbo_def demo_transit_def demo_watcher_def
  demo_task_def demo_other_def demo_kernel_def

lemma demo_state_ports [simp]:
  "ports demo_state demo_port = Some (demo_live\<lparr>ip_receiver_name := 0x1ff, ip_receiver := demo_task\<rparr>)"
  "ports demo_state demo_peer = Some (demo_live\<lparr>ip_receiver_name := 0x103, ip_receiver := demo_other,
     ip_srights := 1, ip_nsrequest := demo_watcher\<rparr>)"
  "ports demo_state demo_limbo = Some (demo_live\<lparr>ip_tempowner := True\<rparr>)"
  "ports demo_state demo_transit = Some (demo_live\<lparr>ip_receiver := demo_port\<rparr>)"
  "ports demo_state demo_watcher =
     Some (demo_live\<lparr>ip_receiver_name := 0x203, ip_receiver := demo_other, ip_sorights := 1\<rparr>)"
  by (simp_all add: demo_state_def demo_ports_def demo_addrs)

lemma demo_state_fields [simp]:
  "env demo_state = demo_env" "events demo_state = []" "spaces demo_state demo_task = Some demo_space"
  by (simp_all add: demo_state_def)

lemma demo_distinct [simp]:
  "demo_port \<noteq> 0" "demo_peer \<noteq> 0" "demo_limbo \<noteq> 0" "demo_transit \<noteq> 0" "demo_watcher \<noteq> 0"
  "distinct [demo_port, demo_peer, demo_limbo, demo_transit, demo_watcher]" "distinct [demo_task, demo_other, demo_kernel]"
  "demo_task \<noteq> 0"
  by (simp_all add: demo_addrs)

lemma demo_neq [simp]:
  "demo_limbo \<noteq> demo_transit" "demo_limbo \<noteq> demo_port" "demo_transit \<noteq> demo_port" "demo_peer \<noteq> demo_port"
  "demo_peer \<noteq> demo_watcher" "demo_transit \<noteq> demo_limbo" "demo_port \<noteq> demo_limbo" "demo_port \<noteq> demo_transit"
  "demo_port \<noteq> demo_peer" "demo_watcher \<noteq> demo_peer" "demo_other \<noteq> demo_task" "demo_task \<noteq> demo_kernel"
  "demo_other \<noteq> demo_kernel" "demo_watcher \<noteq> IP_KOBJECT_NSREQUEST_ARMED"
  by (simp_all add: demo_addrs IP_KOBJECT_NSREQUEST_ARMED_def)

lemma demo_valid [simp]: "IP_VALID demo_port" "IP_VALID demo_peer" "IP_VALID demo_watcher" "IP_VALID demo_limbo"
  by (simp_all add: IO_VALID_def mach_consts demo_addrs)

lemma demo_live_bits [simp]: "io_bits demo_live = 0x80000000"
  by (simp add: demo_live_def IO_BITS_ACTIVE_def)

lemma demo_live_fields [simp]:
  "io_references demo_live = 3" "ip_srights demo_live = 0" "ip_sorights demo_live = 0" "ip_mscount demo_live = 0"
  "ip_nsrequest demo_live = 0" "ip_requests demo_live = None" "ip_receiver_name demo_live = 0"
  "ip_receiver demo_live = 0" "ip_tempowner demo_live = False" "ip_specialreply demo_live = False"
  "ip_guarded demo_live = False" "ip_context demo_live = 0" "ip_strict_guard demo_live = False"
  "ip_pinned demo_live = False" "ip_waitq_valid demo_live" "ip_impcount demo_live = 0"
  "ip_has_watchport demo_live = False" "ip_kobject demo_live = 0" "ip_pdrequest demo_live = 0"
  by (simp_all add: demo_live_def ipc_port_zero_def)

text \<open>Where the receive right of a port is, by evaluation.\<close>

lemmas port_where = io_active_def IO_BITS_ACTIVE_def ip_in_a_space_def ip_in_space_def ip_in_transit_def
  ip_in_limbo_def ip_get_destination_def ip_get_receiver_def ip_get_receiver_name_def mach_name_consts IO_NULL_def

end
