(* ===== verification/Port_Transit.thy ===== *)
theory Port_Transit
imports Port_Chain Demo_State
begin

text \<open>
  Receive rights in transit: the walk along the chain of destinations and the check that keeps a
  receive right from being queued, directly or through others, on itself.
\<close>

section \<open>The example state\<close>

lemma demo_chain_next [simp]:
  "chain_next demo_state demo_port = Some None" "chain_next demo_state demo_limbo = Some None"
  "chain_next demo_state demo_transit = Some (Some demo_port)"
  by (simp_all add: chain_next_Some) (simp_all add: port_where)

lemma demo_chain: "chain_to (chain_next demo_state) demo_transit demo_port"
  by (rule chain_step [OF _ chain_end]) simp_all

lemma demo_chain_open: "\<not> chain_to (chain_next demo_state) demo_transit demo_limbo"
  using chain_to_unique [OF demo_chain, of demo_limbo] by auto

lemma demo_in_limbo: "ip_in_limbo (demo_live\<lparr>ip_tempowner := True\<rparr>)"
  by (simp add: port_where)

lemma demo_enter_transit:
  "\<exists>s'. ipc_importance_enter_transit (event demo_state ev) demo_limbo demo_transit demo_port False = Some s'"
proof -
  have [simp]: "require_ip_active (demo_live\<lparr>ip_tempowner := True\<rparr>) = Some ()"
    "ip_get_imp_task (demo_live\<lparr>ip_tempowner := True\<rparr>) = 0"
    by (simp_all add: require_ip_active_def io_active_def IO_BITS_ACTIVE_def ip_get_imp_task_def)
  note charge = ipc_port_impcount_delta_def mod_port_def require_ip_active_def port_where
  show ?thesis
    unfolding ipc_importance_enter_transit_def
    apply (simp add: demo_in_limbo ipc_port_clear_watchport_elem_internal_def ipc_object_reference_def mod_port_def
        os_ref_retain_def os_ref_check_retain_def os_ref_check_overflow_def OS_REFCNT_MAX_COUNT_def Let_def mach_consts)
    apply (subst ipc_importance_charge_chain.simps)
    apply (simp add: charge)
    apply (subst ipc_importance_charge_chain.simps)
    apply (simp add: charge)
    done
qed

lemma demo_enters:
  "\<exists>s'. ipc_port_check_circularity demo_state demo_limbo demo_transit = Some (s', False)"
proof -
  let ?s = "event demo_state (Turnstile_prepare demo_transit)"
  have "chain_to (chain_next ?s) demo_transit demo_port"
    using demo_chain chain_next_ports [of ?s demo_state] by simp
  from chain_lock_end [OF this]
  have walk: "ipc_port_destination_chain_lock ?s demo_transit = Some (?s, demo_port, False)"
    by (simp add: port_where)
  have "ip_in_transit (demo_live\<lparr>ip_receiver := demo_port\<rparr>)" by (simp add: port_where)
  then show ?thesis
    using demo_enter_transit [of "Turnstile_prepare demo_transit"]
    by (auto simp: ipc_port_check_circularity_def ipc_importance_check_circularity_def walk IO_NULL_def)
qed

lemma demo_chains_end: "chains_end demo_state"
proof -
  have "\<exists>b. chain_to (chain_next demo_state) p b" if "ports demo_state p \<noteq> None" for p
  proof -
    have "p \<in> {demo_port, demo_peer, demo_limbo, demo_transit, demo_watcher}"
      using that by (auto simp: demo_state_def demo_ports_def split: if_splits)
    moreover have "chain_next demo_state demo_peer = Some None" "chain_next demo_state demo_watcher = Some None"
      by (simp_all add: chain_next_Some) (simp_all add: port_where)
    ultimately show ?thesis using demo_chain chain_end [of "chain_next demo_state"] demo_chain_next(1,2) by blast
  qed
  then show ?thesis by (simp add: chains_end_def)
qed


section \<open>Properties\<close>

text \<open>
  C12 (termination).  The walk along the destinations of receive rights in transit returns exactly
  when the chain has an end: it finds the end, and it does not come back from a cycle.  At a dead
  end it takes a reference, so it also panics there when the reference count is exhausted.
\<close>

theorem chain_walk_returns:
  "(\<exists>r. ipc_port_destination_chain_lock s p = Some r) \<longleftrightarrow>
   (\<exists>b base. chain_to (chain_next s) p b \<and> ports s b = Some base \<and>
      (ip_active base \<or> (\<exists>r. os_ref_retain (io_references base) = Some r)))"
proof
  assume "\<exists>r. ipc_port_destination_chain_lock s p = Some r"
  then obtain r where r: "ipc_port_destination_chain_lock s p = Some r" ..
  have to: "chain_to (chain_next s) p (fst (snd r))" by (rule chain_lock_returns [OF r])
  then obtain base where base: "ports s (fst (snd r)) = Some base"
    using chain_to_base [OF to] by (auto simp: chain_next_Some)
  have "ip_active base \<or> (\<exists>r. os_ref_retain (io_references base) = Some r)"
    using r chain_lock_end [OF to base] base by (auto simp: ipc_object_reference_def bind_Some_iff split: if_splits)
  then show "\<exists>b base. chain_to (chain_next s) p b \<and> ports s b = Some base \<and>
      (ip_active base \<or> (\<exists>r. os_ref_retain (io_references base) = Some r))"
    using to base by blast
next
  assume "\<exists>b base. chain_to (chain_next s) p b \<and> ports s b = Some base \<and>
      (ip_active base \<or> (\<exists>r. os_ref_retain (io_references base) = Some r))"
  then obtain b base where to: "chain_to (chain_next s) p b" and base: "ports s b = Some base"
    and "ip_active base \<or> (\<exists>r. os_ref_retain (io_references base) = Some r)" by blast
  then show "\<exists>r. ipc_port_destination_chain_lock s p = Some r"
    unfolding chain_lock_end [OF to base] using base by (auto simp: ipc_object_reference_def mod_port_def)
qed

text \<open>
  C13 (safety).  The circularity check is exact.  For a receive right in limbo it reports a circle
  if and only if the chain from the destination leads to that right; then no port has changed.
  Otherwise the right is in transit to the destination afterwards and every other link is as before.
\<close>

theorem circularity_exact:
  assumes "ipc_port_check_circularity s p dest = Some (s', circular)"
    and "ports s p = Some port" "ip_in_limbo port"
  shows "(circular \<longleftrightarrow> chain_to (chain_next s) dest p) \<and>
    (if circular then ports s' = ports s else chain_next s' = (chain_next s)(p \<mapsto> Some dest))"
proof -
  have nulls: "p \<noteq> IP_NULL" "dest \<noteq> IP_NULL"
    using assms(1) by (auto simp: ipc_port_check_circularity_def ipc_importance_check_circularity_def bind_Some_iff)
  have "circular \<and> ports s' = ports s" if "chain_to (chain_next s) dest p"
    by (rule check_circularity_circular [OF assms(2,3) nulls that]) (use assms(1) in auto)
  moreover have "\<not> circular \<and> chain_next s' = (chain_next s)(p \<mapsto> Some dest)" if "\<not> chain_to (chain_next s) dest p"
    using check_circularity_enters [OF assms that] by blast
  ultimately show ?thesis by auto
qed

theorem circularity_exact_witness:
  "\<exists>s'. ipc_port_check_circularity demo_state demo_limbo demo_transit = Some (s', False) \<and>
     \<not> chain_to (chain_next demo_state) demo_transit demo_limbo \<and>
     chain_next s' = (chain_next demo_state)(demo_limbo \<mapsto> Some demo_transit)"
proof -
  obtain s' where s': "ipc_port_check_circularity demo_state demo_limbo demo_transit = Some (s', False)"
    using demo_enters by blast
  from circularity_exact [OF s' demo_state_ports(3) demo_in_limbo] s' show ?thesis by auto
qed

text \<open>
  C14 (invariant).  The check keeps the chains finite: when every chain of ports in transit has an
  end before a receive right is sent, every chain has an end afterwards, so that every later walk
  along the chains returns.
\<close>

theorem circularity_keeps_chains:
  assumes "chains_end s" "ports s p = Some port" "ip_in_limbo port"
    and "ipc_port_check_circularity s p dest = Some (s', circular)"
  shows "chains_end s'"
  by (rule check_circularity_chains_end [OF assms(4,2,3,1)])

theorem circularity_keeps_chains_witness:
  "\<exists>s'. ipc_port_check_circularity demo_state demo_limbo demo_transit = Some (s', False) \<and> chains_end s'"
proof -
  obtain s' where s': "ipc_port_check_circularity demo_state demo_limbo demo_transit = Some (s', False)"
    using demo_enters by blast
  show ?thesis
    using circularity_keeps_chains [OF demo_chains_end demo_state_ports(3) demo_in_limbo s'] s' by blast
qed

end
