(* ===== verification/Port_Requests.thy ===== *)
theory Port_Requests
imports Demo_State
begin

text \<open>
  Dead-name and send-possible requests of a port from registration to delivery.  The two notification
  routines walk the request table of the port; the lemmas compare them with maps and filters over the
  slots of the table.
\<close>

section \<open>Pending requests\<close>

text \<open>The slots that hold a request with a send-once right, and those whose send-possible request is armed.\<close>

definition dn_pending :: "ipc_port_request \<Rightarrow> bool" where
  "dn_pending ipr \<longleftrightarrow> MACH_PORT_VALID (ipr_name ipr) \<and> IP_VALID (IPR_SOR_PORT (ipr_soright ipr))"

definition sp_pending :: "ipc_port_request \<Rightarrow> bool" where
  "sp_pending ipr \<longleftrightarrow> dn_pending ipr \<and> IPR_SOR_SPARMED (ipr_soright ipr)"

definition dn_event :: "ipc_port_request \<Rightarrow> ipc_event" where
  "dn_event ipr = Mach_notify_dead_name (IPR_SOR_PORT (ipr_soright ipr)) (ipr_name ipr)"

definition sp_event :: "ipc_port_request \<Rightarrow> ipc_event" where
  "sp_event ipr = Mach_notify_send_possible (IPR_SOR_PORT (ipr_soright ipr)) (ipr_name ipr)"

definition dead_name_events :: "ipc_port \<Rightarrow> ipc_event list" where
  "dead_name_events port =
     (case ip_requests port of None \<Rightarrow> [] | Some t \<Rightarrow> map dn_event (filter dn_pending (tl (ipr_slots t))))"

text \<open>A claimed slot stays in use, without a right.\<close>

definition sp_claim :: "ipc_port_request \<Rightarrow> ipc_port_request" where
  "sp_claim ipr = (if sp_pending ipr then ipr\<lparr>ipr_soright := IP_NULL\<rparr> else ipr)"

definition sp_claimed :: "ipc_request_table \<Rightarrow> ipc_request_table" where
  "sp_claimed t = t\<lparr>ipr_slots := hd (ipr_slots t) # map sp_claim (tl (ipr_slots t))\<rparr>"


text \<open>A table with a dead-name request, an armed send-possible request and a free slot.\<close>

definition demo_requests :: ipc_request_table where
  "demo_requests = \<lparr>ipr_size = 1, ipr_slots =
     [\<lparr>ipr_soright = 3, ipr_name = 0\<rparr>, \<lparr>ipr_soright = demo_watcher, ipr_name = 0x303\<rparr>,
      \<lparr>ipr_soright = demo_peer OR 3, ipr_name = 0x403\<rparr>, \<lparr>ipr_soright = 0, ipr_name = 0\<rparr>]\<rparr>"

definition demo_asked :: ipc_port where
  "demo_asked = demo_live\<lparr>ip_requests := Some demo_requests, ip_sprequests := True\<rparr>"


section \<open>The walks over the table\<close>

lemma dnnotify_loop_eq:
  "index + n \<le> length slots \<Longrightarrow> ipc_port_dnnotify_loop n index slots s =
   Some (s\<lparr>events := events s @ map dn_event (filter dn_pending (take n (drop index slots)))\<rparr>)"
proof (induction n arbitrary: index s)
  case (Suc n)
  then have index: "index < length slots" by simp
  then have "take (Suc n) (drop index slots) = slots ! index # take n (drop (index + 1) slots)"
    by (simp add: Cons_nth_drop_Suc [symmetric])
  then show ?case using Suc index
    by (simp add: nth_opt_in ipc_notify_dead_name_def event_def dn_pending_def dn_event_def Let_def)
qed simp

lemma spnotify_loop_eq:
  assumes "ports s p = Some port" "ip_requests port = Some t" "index + n \<le> length (ipr_slots t)"
  shows "ipc_port_spnotify_loop n index s p =
    Some (s\<lparr>ports := (ports s)(p \<mapsto> port\<lparr>ip_requests := Some (t\<lparr>ipr_slots := take index (ipr_slots t) @
              map sp_claim (take n (drop index (ipr_slots t))) @ drop (index + n) (ipr_slots t)\<rparr>)\<rparr>),
            events := events s @ map sp_event (filter sp_pending (take n (drop index (ipr_slots t))))\<rparr>)"
  using assms
proof (induction n arbitrary: index s port t)
  case 0
  have "port\<lparr>ip_requests := Some t\<rparr> = port" using "0.prems"(2) by simp
  moreover have "t\<lparr>ipr_slots := take index (ipr_slots t) @ drop index (ipr_slots t)\<rparr> = t" by simp
  ultimately show ?case using "0.prems"(1) by (simp add: map_upd_triv del: append_take_drop_id)
next
  case (Suc n)
  let ?sl = "ipr_slots t" and ?ipr = "ipr_slots t ! index"
  from Suc.prems(3) have index: "index < length ?sl" by simp
  then have split: "take (Suc n) (drop index ?sl) = ?ipr # take n (drop (index + 1) ?sl)"
    by (simp add: Cons_nth_drop_Suc [symmetric])
  have front: "take (index + 1) (?sl[index := ipr]) = take index ?sl @ [ipr]"
    "drop (index + 1) (?sl[index := ipr]) = drop (index + 1) ?sl" "?sl[index := ?ipr] = ?sl" for ipr
    using index by (simp_all add: take_Suc_conv_app_nth take_update_swap list_update_append)
  show ?case
  proof (cases "sp_pending ?ipr")
    case True
    define t1 where "t1 = t\<lparr>ipr_slots := ?sl[index := sp_claim ?ipr]\<rparr>"
    define s1 where "s1 = s\<lparr>ports := (ports s)(p \<mapsto> port\<lparr>ip_requests := Some t1\<rparr>), events := events s @ [sp_event ?ipr]\<rparr>"
    have "ipc_port_spnotify_loop (Suc n) index s p = ipc_port_spnotify_loop n (index + 1) s1 p"
      using Suc.prems(1,2) index True
      by (simp add: nth_opt_in sp_pending_def dn_pending_def mod_port_def ipc_notify_send_possible_def event_def
          sp_event_def s1_def t1_def sp_claim_def Let_def)
    moreover have "ports s1 p = Some (port\<lparr>ip_requests := Some t1\<rparr>)" by (simp add: s1_def)
    moreover have "ip_requests (port\<lparr>ip_requests := Some t1\<rparr>) = Some t1" by simp
    moreover have "index + 1 + n \<le> length (ipr_slots t1)" using Suc.prems(3) by (simp add: t1_def)
    moreover have "s1\<lparr>ports := X, events := Y\<rparr> = s\<lparr>ports := X, events := Y\<rparr>" "events s1 = events s @ [sp_event ?ipr]"
      "ports s1 = (ports s)(p \<mapsto> port\<lparr>ip_requests := Some t1\<rparr>)" "t1\<lparr>ipr_slots := L\<rparr> = t\<lparr>ipr_slots := L\<rparr>"
      "take (index + 1) (ipr_slots t1) = take index ?sl @ [sp_claim ?ipr]" "index + 1 + n = index + Suc n"
      "drop (index + 1) (ipr_slots t1) = drop (index + 1) ?sl" "drop (index + Suc n) (ipr_slots t1) = drop (index + Suc n) ?sl"
      for X Y L using front(1,2) [of "sp_claim ?ipr"] by (simp_all add: s1_def t1_def)
    ultimately show ?thesis
      using Suc.IH [of s1 "port\<lparr>ip_requests := Some t1\<rparr>" t1 "index + 1"] True
      by (simp only: split fun_upd_upd list.map filter.simps if_True append.simps append_assoc)
        (simp add: fun_upd_def)
  next
    case False
    then have "ipc_port_spnotify_loop (Suc n) index s p = ipc_port_spnotify_loop n (index + 1) s p"
      using Suc.prems(1,2) index by (auto simp: nth_opt_in sp_pending_def dn_pending_def Let_def)
    then show ?thesis
      using Suc.IH [OF Suc.prems(1,2), of "index + 1"] Suc.prems(3) False index
      by (simp add: split sp_claim_def take_Suc_conv_app_nth)
  qed
qed

lemma claimed_events: "filter sp_pending (map sp_claim l) = []"
  by (induction l) (simp_all add: sp_claim_def sp_pending_def IPR_SOR_SPARMED_def dn_pending_def mach_consts)

lemma dnnotify_eq:
  assumes "ports s p = Some port" "\<not> ip_active port" "port_requests_inv port xs"
  shows "ipc_port_dnnotify s p = Some (s\<lparr>events := events s @ dead_name_events port\<rparr>)"
proof (cases "ip_requests port")
  case None
  then show ?thesis using assms by (simp add: ipc_port_dnnotify_def dead_name_events_def kassert_def)
next
  case (Some t)
  then have len: "length (ipr_slots t) = ipc_table_requests ! ipr_size t" "1 \<le> length (ipr_slots t)"
    using assms(3) request_inv_length(1) [of t xs] by (simp_all add: port_requests_inv_def request_inv_def)
  then have "take (ipc_table_requests ! ipr_size t - 1) (drop 1 (ipr_slots t)) = tl (ipr_slots t)"
    by (simp add: drop_Suc)
  then show ?thesis
    using assms(1,2) Some len dnnotify_loop_eq [of 1 "ipc_table_requests ! ipr_size t - 1" "ipr_slots t" s]
    by (simp add: ipc_port_dnnotify_def dead_name_events_def kassert_def)
qed

lemma spnotify_eq:
  assumes "ports s p = Some port" "ip_active port" "ip_requests port = Some t" "request_inv t xs"
    and "ip_sprequests port" "\<not> ip_spimportant port"
  shows "ipc_port_spnotify s p =
    Some (s\<lparr>ports := (ports s)(p \<mapsto> port\<lparr>ip_sprequests := False, ip_requests := Some (sp_claimed t)\<rparr>),
            events := events s @ map sp_event (filter sp_pending (tl (ipr_slots t)))\<rparr>)"
proof -
  let ?n = "ipc_table_requests ! ipr_size t - 1" and ?sl = "ipr_slots t"
  have len: "length ?sl = ipc_table_requests ! ipr_size t" "2 \<le> length ?sl"
    using assms(4) request_inv_length(1) [OF assms(4)] by (simp_all add: request_inv_def)
  then have slots: "take ?n (drop 1 ?sl) = tl ?sl" "take 1 ?sl = [hd ?sl]" "drop (1 + ?n) ?sl = []"
    by (cases ?sl; simp)+
  define s1 where "s1 = s\<lparr>ports := (ports s)(p \<mapsto> port\<lparr>ip_sprequests := False\<rparr>)\<rparr>"
  have "ports s1 p = Some (port\<lparr>ip_sprequests := False\<rparr>)" "ip_requests (port\<lparr>ip_sprequests := False\<rparr>) = Some t"
    "1 + ?n \<le> length ?sl"
    using assms(3) len by (simp_all add: s1_def)
  from spnotify_loop_eq [OF this]
  have "ipc_port_spnotify_loop ?n 1 s1 p =
    Some (s1\<lparr>ports := (ports s1)(p \<mapsto> port\<lparr>ip_sprequests := False, ip_requests := Some (sp_claimed t)\<rparr>),
            events := events s1 @ map sp_event (filter sp_pending (tl ?sl))\<rparr>)"
    unfolding slots by (simp add: sp_claimed_def)
  then show ?thesis using assms by (simp add: ipc_port_spnotify_def mod_port_def s1_def)
qed

lemma registered_event:
  assumes "port_requests_inv port xs" "slots_view port i = Some (n, r)" "MACH_PORT_VALID n" "IP_VALID r"
  shows "Mach_notify_dead_name r n \<in> set (dead_name_events port)"
proof -
  obtain t where t: "ip_requests port = Some t" "i \<in> rq_used (ipr_slots t)"
    "n = ipr_name (ipr_slots t ! i)" "r = IPR_SOR_PORT (ipr_soright (ipr_slots t ! i))"
    using assms(2) by (auto simp: slots_view_def port_requests_def requests_of_def split: option.splits if_splits)
  then have "ipr_slots t ! i \<in> set (tl (ipr_slots t))"
    by (auto simp: rq_used_def in_set_conv_nth nth_tl intro!: exI [of _ "i - 1"])
  then show ?thesis using t assms(3,4)
    by (auto simp: dead_name_events_def dn_event_def dn_pending_def intro!: image_eqI [of _ _ "ipr_slots t ! i"])
qed

lemma demo_requests_inv: "request_inv demo_requests [3]"
proof -
  have free: "{i :: nat. 0 < i \<and> i < 4 \<and> P i} = {3}" if "\<not> P 1" "\<not> P 2" "P 3" for P
  proof -
    have "0 < i \<and> i < 4 \<and> P i \<longleftrightarrow> i = 3" for i
    proof (cases "i = 1 \<or> i = 2 \<or> i = 3")
      case False
      then have "\<not> (0 < i \<and> i < 4)" by linarith
      then show ?thesis by auto
    qed (use that in auto)
    then show ?thesis by simp
  qed
  have len: "length (ipr_slots demo_requests) = 4" by (simp add: demo_requests_def)
  have "{i. 0 < i \<and> i < length (ipr_slots demo_requests) \<and> ipr_name (ipr_slots demo_requests ! i) = MACH_PORT_NULL} = {3}"
    unfolding len by (rule free) (simp_all add: demo_requests_def mach_consts)
  then show ?thesis
    by (simp add: request_inv_def demo_requests_def ipr_next_def)
qed

lemma demo_asked_fields [simp]:
  "ip_requests demo_asked = Some demo_requests" "ip_sprequests demo_asked" "\<not> ip_spimportant demo_asked"
  "ip_active demo_asked" "port_requests_inv demo_asked [3]"
  using demo_requests_inv
  by (simp_all add: demo_asked_def io_active_def IO_BITS_ACTIVE_def port_requests_inv_def demo_live_def ipc_port_zero_def)

lemma demo_asked_ok: "slots_ok demo_asked"
  unfolding slots_ok_def by (auto intro!: exI [of _ "[3]"])


section \<open>Properties\<close>

text \<open>
  C17 (roundtrip).  Cancelling a request that was just registered gives back the send-once right it was
  registered with, and the requests of the port are those of before.
\<close>

theorem request_round_trip:
  assumes "slots_ok port" "slots_good name soright"
    and "ipc_port_request_alloc donor port name soright send_possible immediate = Some (port1, KERN_SUCCESS, index, important)"
  shows "\<exists>port2. ipc_port_request_cancel port1 name index = Some (port2, soright) \<and> slots_ok port2 \<and>
    slots_view port2 = slots_view port"
proof -
  have "slots_ins donor send_possible immediate port name soright = Some (port1, unat index)"
    using assms(3) by (simp add: slots_ins_def)
  from port_slots.ins_del [OF assms(1,2) this] show ?thesis by (simp add: slots_del_def)
qed

theorem request_round_trip_witness:
  "\<exists>port1 port2. ipc_port_request_alloc True demo_asked 0x503 demo_port True False = Some (port1, KERN_SUCCESS, 3, False) \<and>
     ipc_port_request_cancel port1 0x503 3 = Some (port2, demo_port) \<and> slots_view port2 = slots_view demo_asked"
proof -
  have "\<exists>port1. ipc_port_request_alloc True demo_asked 0x503 demo_port True False = Some (port1, KERN_SUCCESS, 3, False)"
    by (simp add: ipc_port_request_alloc_def require_ip_active_def mach_consts)
      (simp add: demo_requests_def ipr_next_def nth_opt_def mach_consts)
  then obtain port1 where a: "ipc_port_request_alloc True demo_asked 0x503 demo_port True False = Some (port1, KERN_SUCCESS, 3, False)"
    by blast
  have "slots_good 0x503 demo_port" by (simp add: slots_good_def mach_consts demo_addrs)
  from request_round_trip [OF demo_asked_ok this a] a show ?thesis by blast
qed

text \<open>
  C18 (functional).  When the request table of a port is full or missing, growing it succeeds or reports
  a shortage and leaves the port alone; after success every request is where it was and the next
  registration succeeds.
\<close>

theorem request_grow_ok:
  assumes "ip_active port" "port_requests_inv port []" "name \<noteq> MACH_PORT_NULL" "soright \<noteq> IP_NULL"
  shows "ipc_port_request_alloc donor port name soright send_possible immediate = Some (port, KERN_NO_SPACE, 0, False) \<and>
    (\<exists>port' kr. ipc_port_request_grow mem port None = Some (port', kr) \<and>
      (kr = KERN_RESOURCE_SHORTAGE \<and> port' = port \<or>
       kr = KERN_SUCCESS \<and> port_requests port' = port_requests port \<and>
       (\<exists>port'' index important.
          ipc_port_request_alloc donor port' name soright send_possible immediate = Some (port'', KERN_SUCCESS, index, important) \<and>
          port_requests port'' =
            (port_requests port)(unat index \<mapsto> (name, IPR_SOR_MAKE soright (sor_flags send_possible immediate))))))"
proof
  show "ipc_port_request_alloc donor port name soright send_possible immediate = Some (port, KERN_NO_SPACE, 0, False)"
    using assms request_alloc_none [OF assms(1) _ assms(3,4)] request_alloc_full [OF assms(1) _ _ assms(3,4)]
    by (cases "ip_requests port") (simp_all add: port_requests_inv_def)
  obtain port' kr where grow: "ipc_port_request_grow mem port None = Some (port', kr)" "grow_outcome port [] port' kr"
    using request_grow_any [OF assms(1,2)] by blast
  show "\<exists>port' kr. ipc_port_request_grow mem port None = Some (port', kr) \<and>
      (kr = KERN_RESOURCE_SHORTAGE \<and> port' = port \<or>
       kr = KERN_SUCCESS \<and> port_requests port' = port_requests port \<and>
       (\<exists>port'' index important.
          ipc_port_request_alloc donor port' name soright send_possible immediate = Some (port'', KERN_SUCCESS, index, important) \<and>
          port_requests port'' =
            (port_requests port)(unat index \<mapsto> (name, IPR_SOR_MAKE soright (sor_flags send_possible immediate)))))"
  proof (cases "kr = KERN_SUCCESS")
    case True
    then obtain t y ys where t: "port' = port\<lparr>ip_requests := Some t\<rparr>" "request_inv t (y # ys)" "requests_of t = port_requests port"
      using grow(2) by (auto simp: grow_outcome_def mach_consts neq_Nil_conv)
    have "ip_active port'" "ip_requests port' = Some t" using assms(1) t(1) by (simp_all add: io_active_def)
    from request_alloc_slot [OF this t(2) assms(3,4), of donor send_possible immediate] t(3)
      request_inv_take(2) [OF t(2)] request_inv_length(2) [OF t(2)] True grow(1) t(1)
    show ?thesis by (fastforce simp: port_requests_def unat_of_nat_len)
  qed (use grow in \<open>auto simp: grow_outcome_def\<close>)
qed

theorem request_grow_ok_witness:
  "ipc_port_request_alloc True demo_live 0x503 demo_port True False = Some (demo_live, KERN_NO_SPACE, 0, False) \<and>
   (\<exists>port' kr. ipc_port_request_grow (\<lambda>_. True) demo_live None = Some (port', kr))"
proof -
  have "ip_active demo_live" "port_requests_inv demo_live []" "0x503 \<noteq> MACH_PORT_NULL" "demo_port \<noteq> IP_NULL"
    by (simp_all add: io_active_def IO_BITS_ACTIVE_def port_requests_inv_def mach_consts)
  from request_grow_ok [OF this, of True True False "\<lambda>_. True"] show ?thesis by blast
qed

text \<open>
  C19 (functional).  Growing to a target size does not reach a target beyond the next size of the table:
  the routine reports success and the port keeps the table it had.
\<close>

theorem request_grow_target:
  assumes "ip_active port" "ip_requests port = Some t" "request_inv t xs" "\<And>n. mem n"
    and "ipc_table_requests ! (ipr_size t + 1) < target" "ipr_size t + 1 < 63" "target \<le> 47616"
  shows "ipc_port_request_grow mem port (Some target) = Some (port, KERN_SUCCESS) \<and>
    length (ipr_slots t) < target"
  using request_grow_far [OF assms(1-3,5-7,4)] assms(3,5,6) ipc_table_requests_less [of "ipr_size t" "ipr_size t + 1"]
  by (simp add: request_inv_def)

theorem request_grow_target_witness:
  "ipc_port_request_grow (\<lambda>_. True) demo_asked (Some 40) = Some (demo_asked, KERN_SUCCESS) \<and>
   length (ipr_slots demo_requests) < 40"
proof (rule request_grow_target [OF demo_asked_fields(4,1) demo_requests_inv])
  have "ipc_table_requests ! 2 < 40"
    by (simp add: ipc_table_requests_eq nth_append length_ipc_table_fill_requests) (simp add: ipc_table_fill_requests)
  then show "ipc_table_requests ! (ipr_size demo_requests + 1) < 40" "ipr_size demo_requests + 1 < 63"
    by (simp_all add: demo_requests_def eval_nat_numeral)
qed simp_all

text \<open>
  C20 (functional).  When a port has died every registered request is answered with a dead-name
  notification to its send-once right for the name it was registered under, in the order of the
  slots and nothing else is sent; no request that still holds a right is missed.
\<close>

theorem dnnotify_exact:
  assumes "ports s p = Some port" "\<not> ip_active port" "port_requests_inv port xs"
  shows "ipc_port_dnnotify s p = Some (s\<lparr>events := events s @ dead_name_events port\<rparr>) \<and>
    (\<forall>i n r. slots_view port i = Some (n, r) \<and> MACH_PORT_VALID n \<and> IP_VALID r \<longrightarrow>
       Mach_notify_dead_name r n \<in> set (dead_name_events port))"
  using dnnotify_eq [OF assms] registered_event [OF assms(3)] by blast

theorem dnnotify_exact_witness:
  "ipc_port_dnnotify (demo_state\<lparr>ports := (ports demo_state)(demo_port \<mapsto> demo_asked\<lparr>io_bits := 0\<rparr>)\<rparr>) demo_port =
   Some (demo_state\<lparr>ports := (ports demo_state)(demo_port \<mapsto> demo_asked\<lparr>io_bits := 0\<rparr>),
     events := [Mach_notify_dead_name demo_watcher 0x303, Mach_notify_dead_name demo_peer 0x403]\<rparr>)"
proof -
  let ?port = "demo_asked\<lparr>io_bits := 0\<rparr>"
  let ?s = "demo_state\<lparr>ports := (ports demo_state)(demo_port \<mapsto> ?port)\<rparr>"
  have "ports ?s demo_port = Some ?port" "\<not> ip_active ?port" "port_requests_inv ?port [3]"
    using demo_requests_inv by (simp_all add: io_active_def port_requests_inv_def)
  moreover have "dead_name_events ?port = [Mach_notify_dead_name demo_watcher 0x303, Mach_notify_dead_name demo_peer 0x403]"
    by (simp add: dead_name_events_def demo_requests_def dn_pending_def dn_event_def MACH_PORT_VALID_def mach_consts
        IPR_SOR_PORT_def IPR_SOR_SPBIT_MASK_def demo_addrs IO_VALID_def)
  ultimately show ?thesis using dnnotify_exact [of ?s demo_port ?port "[3]"] by simp
qed



end
