(* ===== verification/Ipc_Right.thy ===== *)
theory Ipc_Right
imports Ipc_Port
begin

text \<open>
  Rights in a space: \<^verbatim>\<open>osfmk/ipc/ipc_right.c\<close>.  Each operation works on the entry at an index of the
  table of a space, on the port the entry denotes and on the reverse hash, the way the C code does
  while it holds the space and port locks.  The cases of the big switch statements are definitions
  of their own.  A space pointer is an address of the store; \<open>None\<close> is a panic.
\<close>

type_synonym mach_msg_type_name_t = "32 word"
type_synonym mach_msg_guard_flags_t = "32 word"

abbreviation sp_entry_dealloc ::
    "ipc_state \<Rightarrow> ipc_space_t \<Rightarrow> ipc_object_t \<Rightarrow> mach_port_name_t \<Rightarrow> nat \<Rightarrow> ipc_state option" where
  "sp_entry_dealloc s space obj name entry \<equiv> on_space s space (\<lambda>sp. ipc_entry_dealloc sp obj name entry)"

abbreviation sp_entry_modified ::
    "ipc_state \<Rightarrow> ipc_space_t \<Rightarrow> mach_port_name_t \<Rightarrow> nat \<Rightarrow> ipc_state option" where
  "sp_entry_modified s space name entry \<equiv> on_space s space (\<lambda>sp. ipc_entry_modified sp name entry)"

abbreviation sp_hash_insert ::
    "ipc_state \<Rightarrow> ipc_space_t \<Rightarrow> ipc_object_t \<Rightarrow> mach_port_name_t \<Rightarrow> nat \<Rightarrow> ipc_state option" where
  "sp_hash_insert s space obj name entry \<equiv> on_space s space (\<lambda>sp. ipc_hash_insert sp obj name entry)"

abbreviation sp_hash_delete ::
    "ipc_state \<Rightarrow> ipc_space_t \<Rightarrow> ipc_object_t \<Rightarrow> mach_port_name_t \<Rightarrow> nat \<Rightarrow> ipc_state option" where
  "sp_hash_delete s space obj name entry \<equiv> on_space s space (\<lambda>sp. ipc_hash_delete sp obj name entry)"

abbreviation set_ie_bits :: "ipc_state \<Rightarrow> ipc_space_t \<Rightarrow> nat \<Rightarrow> ipc_entry_bits_t \<Rightarrow> ipc_state option" where
  "set_ie_bits s space entry b \<equiv> mod_entry s space entry (\<lambda>e. e\<lparr>ie_bits := b\<rparr>)"

abbreviation set_ie_request :: "ipc_state \<Rightarrow> ipc_space_t \<Rightarrow> nat \<Rightarrow> 32 word \<Rightarrow> ipc_state option" where
  "set_ie_request s space entry r \<equiv> mod_entry s space entry (\<lambda>e. e\<lparr>ie_request := r\<rparr>)"


section \<open>Constants\<close>

definition MACH_MSG_TYPE_MOVE_RECEIVE :: mach_msg_type_name_t where
  "MACH_MSG_TYPE_MOVE_RECEIVE = 16"

definition MACH_MSG_TYPE_MOVE_SEND :: mach_msg_type_name_t where
  "MACH_MSG_TYPE_MOVE_SEND = 17"

definition MACH_MSG_TYPE_MOVE_SEND_ONCE :: mach_msg_type_name_t where
  "MACH_MSG_TYPE_MOVE_SEND_ONCE = 18"

definition MACH_MSG_TYPE_COPY_SEND :: mach_msg_type_name_t where
  "MACH_MSG_TYPE_COPY_SEND = 19"

definition MACH_MSG_TYPE_MAKE_SEND :: mach_msg_type_name_t where
  "MACH_MSG_TYPE_MAKE_SEND = 20"

definition MACH_MSG_TYPE_MAKE_SEND_ONCE :: mach_msg_type_name_t where
  "MACH_MSG_TYPE_MAKE_SEND_ONCE = 21"

definition MACH_MSG_TYPE_PORT_RECEIVE :: mach_msg_type_name_t where
  "MACH_MSG_TYPE_PORT_RECEIVE = MACH_MSG_TYPE_MOVE_RECEIVE"

definition MACH_MSG_TYPE_PORT_SEND :: mach_msg_type_name_t where
  "MACH_MSG_TYPE_PORT_SEND = MACH_MSG_TYPE_MOVE_SEND"

definition MACH_MSG_TYPE_PORT_SEND_ONCE :: mach_msg_type_name_t where
  "MACH_MSG_TYPE_PORT_SEND_ONCE = MACH_MSG_TYPE_MOVE_SEND_ONCE"

definition MACH_MSG_TYPE_PORT_ANY_SEND :: "mach_msg_type_name_t \<Rightarrow> bool" where
  "MACH_MSG_TYPE_PORT_ANY_SEND x \<longleftrightarrow> x \<ge> MACH_MSG_TYPE_MOVE_SEND \<and> x \<le> MACH_MSG_TYPE_MAKE_SEND_ONCE"

definition MACH_MSG_GUARD_FLAGS_IMMOVABLE_RECEIVE :: mach_msg_guard_flags_t where
  "MACH_MSG_GUARD_FLAGS_IMMOVABLE_RECEIVE = 0x0001"

definition MACH_MSG_GUARD_FLAGS_UNGUARDED_ON_SEND :: mach_msg_guard_flags_t where
  "MACH_MSG_GUARD_FLAGS_UNGUARDED_ON_SEND = 0x0002"

definition IPC_OBJECT_COPYIN_FLAGS_NONE :: "16 word" where
  "IPC_OBJECT_COPYIN_FLAGS_NONE = 0x0"

definition IPC_OBJECT_COPYIN_FLAGS_ALLOW_IMMOVABLE_SEND :: "16 word" where
  "IPC_OBJECT_COPYIN_FLAGS_ALLOW_IMMOVABLE_SEND = 0x1"

definition IPC_OBJECT_COPYIN_FLAGS_ALLOW_DEAD_SEND_ONCE :: "16 word" where
  "IPC_OBJECT_COPYIN_FLAGS_ALLOW_DEAD_SEND_ONCE = 0x2"

definition IPC_OBJECT_COPYIN_FLAGS_DEADOK :: "16 word" where
  "IPC_OBJECT_COPYIN_FLAGS_DEADOK = 0x4"

definition IPC_OBJECT_COPYOUT_FLAGS_PINNED :: "32 word" where
  "IPC_OBJECT_COPYOUT_FLAGS_PINNED = 0x1"

definition kGUARD_EXC_DESTROY :: "32 word" where
  "kGUARD_EXC_DESTROY = 0x1"

definition kGUARD_EXC_MOD_REFS :: "32 word" where
  "kGUARD_EXC_MOD_REFS = 0x2"

definition kGUARD_EXC_INCORRECT_GUARD :: "32 word" where
  "kGUARD_EXC_INCORRECT_GUARD = 0x10"

definition kGUARD_EXC_IMMOVABLE :: "32 word" where
  "kGUARD_EXC_IMMOVABLE = 0x20"

definition kGUARD_EXC_INVALID_RIGHT :: "32 word" where
  "kGUARD_EXC_INVALID_RIGHT = 0x100"

definition kGUARD_EXC_INVALID_NAME :: "32 word" where
  "kGUARD_EXC_INVALID_NAME = 0x200"

definition kGUARD_EXC_INVALID_VALUE :: "32 word" where
  "kGUARD_EXC_INVALID_VALUE = 0x400"

definition kGUARD_EXC_MOD_REFS_NON_FATAL :: "32 word" where
  "kGUARD_EXC_MOD_REFS_NON_FATAL = 0x200000"

definition kGUARD_EXC_IMMOVABLE_NON_FATAL :: "32 word" where
  "kGUARD_EXC_IMMOVABLE_NON_FATAL = 0x400000"

definition MPG_FLAGS_NONE :: "64 word" where
  "MPG_FLAGS_NONE = 0"

definition MPG_FLAGS_MOD_REFS_PINNED_DEALLOC :: "64 word" where
  "MPG_FLAGS_MOD_REFS_PINNED_DEALLOC = push_bit 56 1"

definition MPG_FLAGS_MOD_REFS_PINNED_DESTROY :: "64 word" where
  "MPG_FLAGS_MOD_REFS_PINNED_DESTROY = push_bit 56 2"

definition MPG_FLAGS_MOD_REFS_PINNED_COPYIN :: "64 word" where
  "MPG_FLAGS_MOD_REFS_PINNED_COPYIN = push_bit 56 4"

definition IKOT_THREAD_CONTROL :: "32 word" where
  "IKOT_THREAD_CONTROL = 1"

definition IKOT_TASK_CONTROL :: "32 word" where
  "IKOT_TASK_CONTROL = 2"

definition ip_is_control :: "ipc_port \<Rightarrow> bool" where
  "ip_is_control port \<longleftrightarrow>
     ip_is_kobject port \<and> (ip_kotype port = IKOT_TASK_CONTROL \<or> ip_kotype port = IKOT_THREAD_CONTROL)"


section \<open>Guard exceptions\<close>

definition mach_port_guard_exception ::
    "ipc_state \<Rightarrow> mach_port_name_t \<Rightarrow> 64 word \<Rightarrow> 64 word \<Rightarrow> 32 word \<Rightarrow> ipc_state" where
  "mach_port_guard_exception s name inguard portguard reason =
     event s (Guard_exception name inguard portguard reason)"

definition mach_port_guard_exception_immovable ::
    "ipc_state \<Rightarrow> ipc_space_t \<Rightarrow> mach_port_name_t \<Rightarrow> ipc_port \<Rightarrow> 64 word \<Rightarrow> ipc_state option" where
  "mach_port_guard_exception_immovable s space name port portguard =
     (if space = current_space (env s)
      then do {
        kassert (ip_immovable_send port);
        if ip_is_control port
        then do {
          kassert (task_is_immovable (env s) (current_space (env s)));
          Some (mach_port_guard_exception s name 0 portguard
                  (if task_immovable_hard (env s) then kGUARD_EXC_IMMOVABLE else kGUARD_EXC_IMMOVABLE_NON_FATAL))
        }
        else Some (mach_port_guard_exception s name 0 portguard kGUARD_EXC_IMMOVABLE)
      }
      else Some s)"

definition mach_port_guard_exception_pinned ::
    "ipc_state \<Rightarrow> ipc_space_t \<Rightarrow> mach_port_name_t \<Rightarrow> ipc_port \<Rightarrow> 64 word \<Rightarrow> ipc_state option" where
  "mach_port_guard_exception_pinned s space name port portguard =
     (if space = current_space (env s)
      then do {
        kassert (ip_immovable_send port);
        kassert (ip_is_control port);
        kassert (task_is_pinned (env s) (current_space (env s)));
        Some (mach_port_guard_exception s name 0 portguard
                (if task_pinned_hard (env s) then kGUARD_EXC_MOD_REFS else kGUARD_EXC_MOD_REFS_NON_FATAL))
      }
      else Some s)"


section \<open>Looking rights up\<close>

text \<open>Locking an object succeeds as long as its wait queue is valid; a freed address never is.\<close>

definition ipc_object_lock_allow_invalid :: "ipc_state \<Rightarrow> ipc_object_t \<Rightarrow> bool" where
  "ipc_object_lock_allow_invalid s io =
     (case ports s io of
        Some port \<Rightarrow> ip_waitq_valid port
      | None \<Rightarrow> (case psets s io of Some pset \<Rightarrow> ips_waitq_valid pset | None \<Rightarrow> False))"

definition ipc_right_lookup_read ::
    "ipc_state \<Rightarrow> ipc_space_t \<Rightarrow> mach_port_name_t \<Rightarrow> (kern_return_t \<times> ipc_entry_bits_t \<times> ipc_object_t) option" where
  "ipc_right_lookup_read s space name = do {
     sp \<leftarrow> spaces s space;
     let index = unat (MACH_PORT_INDEX name);
     if index = 0 then Some (KERN_INVALID_NAME, 0, IO_NULL)
     else case is_table sp of
       None \<Rightarrow> Some (KERN_INVALID_TASK, 0, IO_NULL)
     | Some table \<Rightarrow> do {
         head \<leftarrow> nth_opt table 0;
         if index \<ge> unat (ie_size head) then Some (KERN_INVALID_NAME, 0, IO_NULL)
         else do {
           e \<leftarrow> nth_opt table index;
           let object = ie_object e;
           if object = IO_NULL \<or> \<not> ipc_object_lock_allow_invalid s object
           then Some (KERN_INVALID_NAME, 0, IO_NULL)
           else let b = ie_bits e
             in if IE_BITS_GEN b \<noteq> MACH_PORT_GEN name \<or>
                   IE_BITS_TYPE (if b = MACH_PORT_TYPE_NONE then 1 else 0) \<noteq> 0
                then Some (KERN_INVALID_NAME, 0, IO_NULL)
                else Some (KERN_SUCCESS, b, object)
         }
       }
   }"

definition ipc_right_lookup_write ::
    "ipc_state \<Rightarrow> ipc_space_t \<Rightarrow> mach_port_name_t \<Rightarrow> (kern_return_t \<times> nat) option" where
  "ipc_right_lookup_write s space name = do {
     sp \<leftarrow> spaces s space;
     if \<not> is_active sp then Some (KERN_INVALID_TASK, 0)
     else do {
       entry \<leftarrow> ipc_entry_lookup sp name;
       case entry of
         None \<Rightarrow> Some (KERN_INVALID_NAME, 0)
       | Some i \<Rightarrow> Some (KERN_SUCCESS, i)
     }
   }"

definition ipc_right_lookup_two_write ::
    "ipc_state \<Rightarrow> ipc_space_t \<Rightarrow> mach_port_name_t \<Rightarrow> mach_port_name_t \<Rightarrow>
     (ipc_state \<times> kern_return_t \<times> nat \<times> nat) option" where
  "ipc_right_lookup_two_write s space name1 name2 = do {
     sp \<leftarrow> spaces s space;
     if \<not> is_active sp then Some (s, KERN_INVALID_TASK, 0, 0)
     else do {
       entry1 \<leftarrow> ipc_entry_lookup sp name1;
       case entry1 of
         None \<Rightarrow> Some (mach_port_guard_exception s name1 0 0 kGUARD_EXC_INVALID_NAME, KERN_INVALID_NAME, 0, 0)
       | Some i1 \<Rightarrow> do {
           entry2 \<leftarrow> ipc_entry_lookup sp name2;
           case entry2 of
             None \<Rightarrow> Some (mach_port_guard_exception s name2 0 0 kGUARD_EXC_INVALID_NAME, KERN_INVALID_NAME, 0, 0)
           | Some i2 \<Rightarrow> Some (s, KERN_SUCCESS, i1, i2)
         }
     }
   }"

definition ipc_right_reverse ::
    "ipc_state \<Rightarrow> ipc_space_t \<Rightarrow> ipc_object_t \<Rightarrow> (mach_port_name_t \<times> nat) option option" where
  "ipc_right_reverse s space p = do {
     sp \<leftarrow> spaces s space;
     kassert (is_active sp);
     port \<leftarrow> ports s p;
     kassert (io_otype port = IOT_PORT);
     require_ip_active port;
     if ip_in_space port space
     then do {
       let name = ip_get_receiver_name port;
       kassert (name \<noteq> MACH_PORT_NULL);
       entry \<leftarrow> ipc_entry_lookup sp name;
       i \<leftarrow> entry;
       e \<leftarrow> get_entry s space i;
       kassert (ie_bits e AND MACH_PORT_TYPE_RECEIVE \<noteq> 0);
       kassert (ie_object e = p);
       Some (Some (name, i))
     }
     else do {
       found \<leftarrow> ipc_hash_lookup sp p;
       case found of
         None \<Rightarrow> Some None
       | Some (name, i) \<Rightarrow> do {
           e \<leftarrow> get_entry s space i;
           kassert (IE_BITS_TYPE (ie_bits e) = MACH_PORT_TYPE_SEND);
           kassert (ie_object e = p);
           Some (Some (name, i))
         }
     }
   }"

definition ipc_right_inuse :: "ipc_entry \<Rightarrow> bool" where
  "ipc_right_inuse e \<longleftrightarrow> IE_BITS_TYPE (ie_bits e) \<noteq> MACH_PORT_TYPE_NONE"


section \<open>Dead ports and requests\<close>

text \<open>
  The result of \<open>ipc_right_check\<close> is true when the port had died and the entry was turned into a dead
  name; the caller then owns the reference the entry held.
\<close>

definition ipc_right_check ::
    "ipc_state \<Rightarrow> ipc_space_t \<Rightarrow> ipc_port_t \<Rightarrow> mach_port_name_t \<Rightarrow> nat \<Rightarrow> 16 word \<Rightarrow>
     (ipc_state \<times> bool) option" where
  "ipc_right_check s space p name entry flags = do {
     e \<leftarrow> get_entry s space entry;
     kassert (ie_object e = p);
     port \<leftarrow> ports s p;
     if ip_active port \<or>
        (flags AND IPC_OBJECT_COPYIN_FLAGS_ALLOW_DEAD_SEND_ONCE \<noteq> 0 \<and> ie_request e = IE_REQ_NONE \<and>
         ie_bits e AND MACH_PORT_TYPE_SEND_ONCE \<noteq> 0)
     then Some (s, False)
     else do {
       let b = ie_bits e;
       kassert (b AND MACH_PORT_TYPE_RECEIVE = 0);
       kassert (IE_BITS_UREFS b > 0);
       s \<leftarrow> (if b AND MACH_PORT_TYPE_SEND \<noteq> 0
            then do {
              kassert (IE_BITS_TYPE b = MACH_PORT_TYPE_SEND);
              kassert (ip_srights port > 0);
              s \<leftarrow> mod_port s p (\<lambda>port. port\<lparr>ip_srights := ip_srights port - 1\<rparr>);
              sp_hash_delete s space p name entry
            }
            else do {
              kassert (IE_BITS_TYPE b = MACH_PORT_TYPE_SEND_ONCE);
              kassert (IE_BITS_UREFS b = 1);
              kassert (ip_sorights port > 0);
              mod_port s p (\<lambda>port. port\<lparr>ip_sorights := ip_sorights port - 1\<rparr>)
            });
       let b = (b AND NOT IE_BITS_TYPE_MASK) OR MACH_PORT_TYPE_DEAD_NAME;
       b \<leftarrow> (if ie_request e \<noteq> IE_REQ_NONE
            then do {
              type \<leftarrow> ipc_port_request_type port name (ie_request e);
              Some (if type \<noteq> 0 \<and> IE_BITS_UREFS b < MACH_PORT_UREFS_MAX then b + 1 else b)
            }
            else Some b);
       s \<leftarrow> mod_entry s space entry (\<lambda>e. e\<lparr>ie_request := IE_REQ_NONE, ie_bits := b, ie_object := IO_NULL\<rparr>);
       s \<leftarrow> sp_entry_modified s space name entry;
       Some (s, True)
     }
   }"

definition ipc_right_request_cancel ::
    "ipc_state \<Rightarrow> ipc_space_t \<Rightarrow> ipc_port_t \<Rightarrow> mach_port_name_t \<Rightarrow> nat \<Rightarrow> (ipc_state \<times> ipc_port_t) option" where
  "ipc_right_request_cancel s space p name entry = do {
     port \<leftarrow> ports s p;
     require_ip_active port;
     e \<leftarrow> get_entry s space entry;
     kassert (ie_object e = p);
     if ie_request e = IE_REQ_NONE then Some (s, IP_NULL)
     else do {
       (port, previous) \<leftarrow> ipc_port_request_cancel port name (ie_request e);
       s \<leftarrow> set_ie_request (set_port s p port) space entry IE_REQ_NONE;
       s \<leftarrow> sp_entry_modified s space name entry;
       Some (s, previous)
     }
   }"

definition ipc_right_request_cancel_macro ::
    "ipc_state \<Rightarrow> ipc_space_t \<Rightarrow> ipc_port_t \<Rightarrow> mach_port_name_t \<Rightarrow> nat \<Rightarrow> (ipc_state \<times> ipc_port_t) option" where
  "ipc_right_request_cancel_macro s space p name entry = do {
     e \<leftarrow> get_entry s space entry;
     if ie_request e = IE_REQ_NONE then Some (s, IP_NULL)
     else ipc_right_request_cancel s space p name entry
   }"

text \<open>
  One round of the loop of \<open>ipc_right_request_alloc\<close>, by what the entry denotes: a live port, or
  something else once the port has been checked (\<open>relport\<close> is the port to release then).  The result
  carries no return code when the request table had to grow and the round is to be repeated.
\<close>

definition ipc_right_request_alloc_live ::
    "(nat \<Rightarrow> bool) \<Rightarrow> ipc_state \<Rightarrow> ipc_space_t \<Rightarrow> mach_port_name_t \<Rightarrow> nat \<Rightarrow> ipc_port_t \<Rightarrow>
     bool \<Rightarrow> bool \<Rightarrow> ipc_port_t \<Rightarrow> (ipc_state \<times> (kern_return_t \<times> ipc_port_t) option) option" where
  "ipc_right_request_alloc_live mem s space name entry p immediate send_possible notify = do {
     e \<leftarrow> get_entry s space entry;
     port \<leftarrow> ports s p;
     let prev_request = ie_request e;
     if notify = IP_NULL \<or>
        send_possible \<and> immediate \<and>
        (ie_bits e AND MACH_PORT_TYPE_SEND_ONCE \<noteq> 0 \<or> ip_in_space port (ipc_space_kernel (env s)) \<or>
         \<not> imq_full port)
     then do {
       (s, previous) \<leftarrow>
         (if prev_request \<noteq> IE_REQ_NONE
          then do {
            (port, previous) \<leftarrow> ipc_port_request_cancel port name prev_request;
            s \<leftarrow> set_ie_request (set_port s p port) space entry IE_REQ_NONE;
            Some (s, previous)
          }
          else Some (s, IP_NULL));
       s \<leftarrow> sp_entry_modified s space name entry;
       Some (if notify = IP_NULL then s else ipc_notify_send_possible s notify name,
             Some (KERN_SUCCESS, previous))
     }
     else do {
       (port, previous) \<leftarrow>
         (if prev_request \<noteq> IE_REQ_NONE then ipc_port_request_cancel port name prev_request
          else Some (port, IP_NULL));
       (port, kr, new_request, needboost) \<leftarrow>
         ipc_port_request_alloc (is_importance_donor (env s)) port name notify send_possible immediate;
       let s = set_port s p port;
       if kr \<noteq> KERN_SUCCESS
       then do {
         kassert (previous = IP_NULL);
         (port, kr) \<leftarrow> ipc_port_request_grow mem port None;
         Some (set_port s p port, if kr \<noteq> KERN_SUCCESS then Some (kr, IP_NULL) else None)
       }
       else do {
         kassert (new_request \<noteq> IE_REQ_NONE);
         s \<leftarrow> set_ie_request s space entry new_request;
         s \<leftarrow> sp_entry_modified s space name entry;
         s \<leftarrow> (if needboost
              then do { (s, _) \<leftarrow> ipc_port_importance_delta s p IPID_OPTION_SENDPOSSIBLE 1; Some s }
              else Some s);
         Some (s, Some (KERN_SUCCESS, previous))
       }
     }
   }"

definition ipc_right_request_alloc_dead ::
    "ipc_state \<Rightarrow> ipc_space_t \<Rightarrow> mach_port_name_t \<Rightarrow> nat \<Rightarrow> ipc_port_t \<Rightarrow> bool \<Rightarrow> bool \<Rightarrow> ipc_port_t \<Rightarrow>
     (ipc_state \<times> (kern_return_t \<times> ipc_port_t) option) option" where
  "ipc_right_request_alloc_dead s space name entry relport immediate send_possible notify = do {
     e \<leftarrow> get_entry s space entry;
     if (send_possible \<or> immediate) \<and> notify \<noteq> IP_NULL \<and> ie_bits e AND MACH_PORT_TYPE_DEAD_NAME \<noteq> 0
     then do {
       let urefs = IE_BITS_UREFS (ie_bits e);
       kassert (urefs > 0);
       s \<leftarrow> (if urefs < MACH_PORT_UREFS_MAX then set_ie_bits s space entry (ie_bits e + 1) else Some s);
       s \<leftarrow> sp_entry_modified s space name entry;
       s \<leftarrow> (if relport \<noteq> IP_NULL then ip_release s relport else Some s);
       Some (ipc_notify_dead_name s notify name, Some (KERN_SUCCESS, IP_NULL))
     }
     else do {
       let kr = (if ie_bits e AND MACH_PORT_TYPE_PORT_OR_DEAD \<noteq> 0 then KERN_INVALID_ARGUMENT
                 else KERN_INVALID_RIGHT);
       s \<leftarrow> (if relport \<noteq> IP_NULL then ip_release s relport else Some s);
       Some (s, Some (kr, IP_NULL))
     }
   }"

definition ipc_right_request_alloc_round ::
    "(nat \<Rightarrow> bool) \<Rightarrow> ipc_state \<Rightarrow> ipc_space_t \<Rightarrow> mach_port_name_t \<Rightarrow> bool \<Rightarrow> bool \<Rightarrow> ipc_port_t \<Rightarrow>
     (ipc_state \<times> (kern_return_t \<times> ipc_port_t) option) option" where
  "ipc_right_request_alloc_round mem s space name immediate send_possible notify = do {
     (kr, entry) \<leftarrow> ipc_right_lookup_write s space name;
     if kr \<noteq> KERN_SUCCESS then Some (s, Some (kr, IP_NULL))
     else do {
       e \<leftarrow> get_entry s space entry;
       if notify = IP_NULL \<and> ie_request e = IE_REQ_NONE then Some (s, Some (KERN_SUCCESS, IP_NULL))
       else if ie_bits e AND MACH_PORT_TYPE_PORT_RIGHTS \<noteq> 0
       then do {
         let p = ie_object e;
         kassert (p \<noteq> IP_NULL);
         (s, dead) \<leftarrow> ipc_right_check s space p name entry IPC_OBJECT_COPYIN_FLAGS_NONE;
         if dead then ipc_right_request_alloc_dead s space name entry p immediate send_possible notify
         else ipc_right_request_alloc_live mem s space name entry p immediate send_possible notify
       }
       else ipc_right_request_alloc_dead s space name entry IP_NULL immediate send_possible notify
     }
   }"

partial_function (option) ipc_right_request_alloc ::
    "(nat \<Rightarrow> bool) \<Rightarrow> ipc_state \<Rightarrow> ipc_space_t \<Rightarrow> mach_port_name_t \<Rightarrow> bool \<Rightarrow> bool \<Rightarrow> ipc_port_t \<Rightarrow>
     (ipc_state \<times> kern_return_t \<times> ipc_port_t) option" where
  "ipc_right_request_alloc mem s space name immediate send_possible notify = do {
     (s, r) \<leftarrow> ipc_right_request_alloc_round mem s space name immediate send_possible notify;
     case r of
       Some (kr, previous) \<Rightarrow> Some (s, kr, previous)
     | None \<Rightarrow> ipc_right_request_alloc mem s space name immediate send_possible notify
   }"


section \<open>Port sets\<close>

definition ipc_port_set_init :: "ipc_pset \<Rightarrow> mach_port_name_t \<Rightarrow> ipc_pset" where
  "ipc_port_set_init pset name = pset\<lparr>ips_waitq_valid := True, ips_wqset_index := MACH_PORT_INDEX name\<rparr>"

text \<open>Unlinking a set takes it out of the list of sets of every port.\<close>

definition waitq_set_unlink_all :: "ipc_state \<Rightarrow> ipc_pset_t \<Rightarrow> ipc_state" where
  "waitq_set_unlink_all s ps =
     s\<lparr>ports := (\<lambda>p. map_option (\<lambda>port. port\<lparr>ip_psets := filter (\<lambda>q. q \<noteq> ps) (ip_psets port)\<rparr>) (ports s p))\<rparr>"

definition ipc_pset_destroy :: "ipc_state \<Rightarrow> ipc_space_t \<Rightarrow> ipc_pset_t \<Rightarrow> ipc_state option" where
  "ipc_pset_destroy s space ps = do {
     pset \<leftarrow> psets s ps;
     kassert (ips_active pset);
     s \<leftarrow> mod_pset s ps (\<lambda>pset. io_bits_andnot pset IO_BITS_ACTIVE);
     let s = event s (Mqueue_changed space ps);
     s \<leftarrow> mod_pset s ps (\<lambda>pset. pset\<lparr>ips_waitq_valid := False\<rparr>);
     ipc_object_release (waitq_set_unlink_all s ps) ps
   }"


section \<open>Termination and destruction of an entry\<close>

text \<open>
  What \<open>ipc_right_terminate\<close> and \<open>ipc_right_destroy\<close> do to the port of an entry that has gone, with the
  type the entry had: the send right is given up, then the right with the greatest effect.
\<close>

definition ipc_right_drop_send ::
    "ipc_state \<Rightarrow> ipc_port_t \<Rightarrow> mach_port_type_t \<Rightarrow> (ipc_state \<times> ipc_notify_nsenders) option" where
  "ipc_right_drop_send s p type =
     (if type AND MACH_PORT_TYPE_SEND \<noteq> 0
      then do {
        port \<leftarrow> ports s p;
        kassert (ip_srights port > 0);
        s \<leftarrow> mod_port s p (\<lambda>port. port\<lparr>ip_srights := ip_srights port - 1\<rparr>);
        if ip_srights port - 1 = 0 then ipc_notify_no_senders_prepare s p else Some (s, nsenders_none)
      }
      else Some (s, nsenders_none))"

definition ipc_right_terminate_port ::
    "ipc_state \<Rightarrow> ipc_space_t \<Rightarrow> mach_port_name_t \<Rightarrow> ipc_entry \<Rightarrow> ipc_port_t \<Rightarrow> mach_port_type_t \<Rightarrow>
     (ipc_state \<times> ipc_entry) option" where
  "ipc_right_terminate_port s space name e p type = do {
     port \<leftarrow> ports s p;
     if \<not> ip_active port then do { s \<leftarrow> ip_release s p; Some (s, e) }
     else do {
       (port, request) \<leftarrow>
         (if ie_request e \<noteq> IE_REQ_NONE then ipc_port_request_cancel port name (ie_request e)
          else Some (port, IP_NULL));
       let e = e\<lparr>ie_request := IE_REQ_NONE\<rparr>;
       (s, nsrequest) \<leftarrow> ipc_right_drop_send (set_port s p port) p type;
       port \<leftarrow> ports s p;
       s \<leftarrow> (if type AND MACH_PORT_TYPE_RECEIVE \<noteq> 0
            then do {
              kassert (ip_get_receiver_name port = name);
              kassert (ip_in_space port space);
              ipc_port_destroy s p
            }
            else if type AND MACH_PORT_TYPE_SEND_ONCE \<noteq> 0
            then do {
              kassert (ip_sorights port > 0);
              s \<leftarrow> mod_port s p (\<lambda>port. port\<lparr>ip_reply_context := 0\<rparr>);
              ipc_notify_send_once_and_unlock s p
            }
            else do { kassert (\<not> ip_in_space port space); ip_release s p });
       s \<leftarrow> (if ns_notify nsrequest \<noteq> IP_NULL
            then do {
              np \<leftarrow> ports s (ns_notify nsrequest);
              if ip_active np then ipc_notify_no_senders_emit s nsrequest
              else ipc_notify_no_senders_consume s nsrequest
            }
            else Some s);
       s \<leftarrow> (if request \<noteq> IP_NULL
            then do {
              rp \<leftarrow> ports s request;
              if ip_active rp then Some (ipc_notify_port_deleted s request name)
              else ipc_port_release_sonce s request
            }
            else Some s);
       Some (s, e)
     }
   }"

definition ipc_right_terminate ::
    "ipc_state \<Rightarrow> ipc_space_t \<Rightarrow> mach_port_name_t \<Rightarrow> ipc_entry \<Rightarrow> (ipc_state \<times> ipc_entry) option" where
  "ipc_right_terminate s space name e = do {
     sp \<leftarrow> spaces s space;
     kassert (\<not> is_active sp);
     let type = IE_BITS_TYPE (ie_bits e);
     let object = ie_object e;
     kassert (type \<noteq> MACH_PORT_TYPE_DEAD_NAME \<longrightarrow> object \<noteq> IO_NULL);
     let e = e\<lparr>ie_object := IO_NULL, ie_bits := ie_bits e AND (IE_BITS_GEN_MASK OR IE_BITS_ROLL_MASK)\<rparr>;
     if type = MACH_PORT_TYPE_DEAD_NAME
     then do {
       kassert (ie_request e = IE_REQ_NONE);
       kassert (object = IO_NULL);
       Some (s, e)
     }
     else if type = MACH_PORT_TYPE_PORT_SET
     then do {
       kassert (ie_request e = IE_REQ_NONE);
       s \<leftarrow> ipc_pset_destroy s space object;
       Some (s, e)
     }
     else do {
       kassert (type = MACH_PORT_TYPE_SEND \<or> type = MACH_PORT_TYPE_RECEIVE \<or>
                type = MACH_PORT_TYPE_SEND_RECEIVE \<or> type = MACH_PORT_TYPE_SEND_ONCE);
       ipc_right_terminate_port s space name e object type
     }
   }"

text \<open>The port cases of \<open>ipc_right_destroy\<close>; the type bits of the entry are already cleared.\<close>

definition ipc_right_destroy_live ::
    "ipc_state \<Rightarrow> ipc_space_t \<Rightarrow> mach_port_name_t \<Rightarrow> nat \<Rightarrow> ipc_port_t \<Rightarrow> mach_port_type_t \<Rightarrow> ipc_state option" where
  "ipc_right_destroy_live s space name entry p type = do {
     (s, request) \<leftarrow> ipc_right_request_cancel_macro s space p name entry;
     port \<leftarrow> ports s p;
     kassert (\<not> ip_pinned port);
     s \<leftarrow> sp_entry_dealloc s space p name entry;
     (s, nsrequest) \<leftarrow> ipc_right_drop_send s p type;
     port \<leftarrow> ports s p;
     s \<leftarrow> (if type AND MACH_PORT_TYPE_RECEIVE \<noteq> 0
          then do {
            require_ip_active port;
            kassert (ip_in_space port space);
            ipc_port_destroy s p
          }
          else if type AND MACH_PORT_TYPE_SEND_ONCE \<noteq> 0
          then do {
            kassert (ip_sorights port > 0);
            s \<leftarrow> mod_port s p (\<lambda>port. port\<lparr>ip_reply_context := 0\<rparr>);
            ipc_notify_send_once_and_unlock s p
          }
          else do { kassert (\<not> ip_in_space port space); ip_release s p });
     s \<leftarrow> ipc_notify_no_senders_emit s nsrequest;
     Some (if request \<noteq> IP_NULL then ipc_notify_port_deleted s request name else s)
   }"

definition ipc_right_destroy_port ::
    "ipc_state \<Rightarrow> ipc_space_t \<Rightarrow> mach_port_name_t \<Rightarrow> nat \<Rightarrow> mach_port_type_t \<Rightarrow> bool \<Rightarrow> 64 word \<Rightarrow>
     (ipc_state \<times> kern_return_t) option" where
  "ipc_right_destroy_port s space name entry type check_guard guard = do {
     e \<leftarrow> get_entry s space entry;
     let p = ie_object e;
     kassert (p \<noteq> IP_NULL);
     port \<leftarrow> ports s p;
     if type = MACH_PORT_TYPE_SEND \<and> ip_pinned port
     then do {
       kassert (ip_active port);
       s \<leftarrow> mach_port_guard_exception_pinned s space name port MPG_FLAGS_MOD_REFS_PINNED_DESTROY;
       Some (s, KERN_INVALID_CAPABILITY)
     }
     else do {
       s \<leftarrow> (if type = MACH_PORT_TYPE_SEND then sp_hash_delete s space p name entry else Some s);
       if \<not> ip_active port
       then do {
         kassert (type AND MACH_PORT_TYPE_RECEIVE = 0);
         s \<leftarrow> set_ie_request s space entry IE_REQ_NONE;
         kassert (\<not> ip_pinned port);
         s \<leftarrow> sp_entry_dealloc s space p name entry;
         s \<leftarrow> ip_release s p;
         Some (s, KERN_SUCCESS)
       }
       else if type AND MACH_PORT_TYPE_RECEIVE \<noteq> 0 \<and> check_guard \<and> ip_guarded port \<and> guard \<noteq> ip_context port
       then Some (mach_port_guard_exception s name 0 (ip_context port) kGUARD_EXC_DESTROY, KERN_INVALID_RIGHT)
       else do {
         s \<leftarrow> ipc_right_destroy_live s space name entry p type;
         Some (s, KERN_SUCCESS)
       }
     }
   }"

definition ipc_right_destroy ::
    "ipc_state \<Rightarrow> ipc_space_t \<Rightarrow> mach_port_name_t \<Rightarrow> nat \<Rightarrow> bool \<Rightarrow> 64 word \<Rightarrow>
     (ipc_state \<times> kern_return_t) option" where
  "ipc_right_destroy s space name entry check_guard guard = do {
     e \<leftarrow> get_entry s space entry;
     let b = ie_bits e;
     s \<leftarrow> set_ie_bits s space entry (b AND NOT IE_BITS_TYPE_MASK);
     let type = IE_BITS_TYPE b;
     if type = MACH_PORT_TYPE_DEAD_NAME
     then do {
       kassert (ie_request e = IE_REQ_NONE);
       kassert (ie_object e = IO_NULL);
       s \<leftarrow> sp_entry_dealloc s space IO_NULL name entry;
       Some (s, KERN_SUCCESS)
     }
     else if type = MACH_PORT_TYPE_PORT_SET
     then do {
       kassert (ie_request e = IE_REQ_NONE);
       kassert (ie_object e \<noteq> IO_NULL);
       pset \<leftarrow> psets s (ie_object e);
       kassert (ips_active pset);
       s \<leftarrow> sp_entry_dealloc s space (ie_object e) name entry;
       s \<leftarrow> ipc_pset_destroy s space (ie_object e);
       Some (s, KERN_SUCCESS)
     }
     else do {
       kassert (type = MACH_PORT_TYPE_SEND \<or> type = MACH_PORT_TYPE_RECEIVE \<or>
                type = MACH_PORT_TYPE_SEND_RECEIVE \<or> type = MACH_PORT_TYPE_SEND_ONCE);
       ipc_right_destroy_port s space name entry type check_guard guard
     }
   }"


section \<open>Releasing one user reference\<close>

definition ipc_right_dealloc_pset ::
    "ipc_state \<Rightarrow> ipc_space_t \<Rightarrow> mach_port_name_t \<Rightarrow> nat \<Rightarrow> ipc_state option" where
  "ipc_right_dealloc_pset s space name entry = do {
     e \<leftarrow> get_entry s space entry;
     kassert (IE_BITS_UREFS (ie_bits e) = 0);
     kassert (ie_request e = IE_REQ_NONE);
     pset \<leftarrow> psets s (ie_object e);
     kassert (ips_active pset);
     s \<leftarrow> sp_entry_dealloc s space (ie_object e) name entry;
     ipc_pset_destroy s space (ie_object e)
   }"

text \<open>\<open>relport\<close> is a port whose right was converted to this dead name, or \<open>IP_NULL\<close>.\<close>

definition ipc_right_dealloc_dead ::
    "ipc_state \<Rightarrow> ipc_space_t \<Rightarrow> mach_port_name_t \<Rightarrow> nat \<Rightarrow> ipc_port_t \<Rightarrow> ipc_state option" where
  "ipc_right_dealloc_dead s space name entry relport = do {
     e \<leftarrow> get_entry s space entry;
     let b = ie_bits e;
     kassert (IE_BITS_TYPE b = MACH_PORT_TYPE_DEAD_NAME);
     kassert (IE_BITS_UREFS b > 0);
     kassert (ie_request e = IE_REQ_NONE);
     kassert (ie_object e = IO_NULL);
     s \<leftarrow> (if IE_BITS_UREFS b = 1 then sp_entry_dealloc s space IO_NULL name entry
          else do {
            s \<leftarrow> (if IE_BITS_UREFS b < MACH_PORT_UREFS_MAX then set_ie_bits s space entry (b - 1) else Some s);
            sp_entry_modified s space name entry
          });
     if relport \<noteq> IP_NULL then ip_release s relport else Some s
   }"

definition ipc_right_dealloc_send_once ::
    "ipc_state \<Rightarrow> ipc_space_t \<Rightarrow> mach_port_name_t \<Rightarrow> nat \<Rightarrow> ipc_state option" where
  "ipc_right_dealloc_send_once s space name entry = do {
     e \<leftarrow> get_entry s space entry;
     kassert (IE_BITS_UREFS (ie_bits e) = 1);
     let p = ie_object e;
     kassert (p \<noteq> IP_NULL);
     (s, dead) \<leftarrow> ipc_right_check s space p name entry IPC_OBJECT_COPYIN_FLAGS_NONE;
     if dead then ipc_right_dealloc_dead s space name entry p
     else do {
       port \<leftarrow> ports s p;
       kassert (ip_sorights port > 0);
       s \<leftarrow> mod_port s p (\<lambda>port. port\<lparr>ip_reply_context := 0\<rparr>);
       (s, request) \<leftarrow> ipc_right_request_cancel_macro s space p name entry;
       kassert (\<not> ip_pinned port);
       s \<leftarrow> sp_entry_dealloc s space p name entry;
       s \<leftarrow> ipc_notify_send_once_and_unlock s p;
       Some (if request \<noteq> IP_NULL then ipc_notify_port_deleted s request name else s)
     }
   }"

definition ipc_right_dealloc_send ::
    "ipc_state \<Rightarrow> ipc_space_t \<Rightarrow> mach_port_name_t \<Rightarrow> nat \<Rightarrow> (ipc_state \<times> kern_return_t) option" where
  "ipc_right_dealloc_send s space name entry = do {
     e \<leftarrow> get_entry s space entry;
     let b = ie_bits e;
     kassert (IE_BITS_UREFS b > 0);
     let p = ie_object e;
     kassert (p \<noteq> IP_NULL);
     (s, dead) \<leftarrow> ipc_right_check s space p name entry IPC_OBJECT_COPYIN_FLAGS_NONE;
     if dead then do { s \<leftarrow> ipc_right_dealloc_dead s space name entry p; Some (s, KERN_SUCCESS) }
     else do {
       port \<leftarrow> ports s p;
       kassert (ip_srights port > 0);
       if IE_BITS_UREFS b = 1
       then if ip_pinned port
         then do {
           s \<leftarrow> mach_port_guard_exception_pinned s space name port MPG_FLAGS_MOD_REFS_PINNED_DEALLOC;
           Some (s, KERN_INVALID_CAPABILITY)
         }
         else do {
           (s, nsrequest) \<leftarrow> ipc_right_drop_send s p MACH_PORT_TYPE_SEND;
           (s, request) \<leftarrow> ipc_right_request_cancel_macro s space p name entry;
           s \<leftarrow> sp_hash_delete s space p name entry;
           s \<leftarrow> sp_entry_dealloc s space p name entry;
           s \<leftarrow> ip_release s p;
           s \<leftarrow> ipc_notify_no_senders_emit s nsrequest;
           Some (if request \<noteq> IP_NULL then ipc_notify_port_deleted s request name else s, KERN_SUCCESS)
         }
       else do {
         s \<leftarrow> (if IE_BITS_UREFS b < MACH_PORT_UREFS_MAX then set_ie_bits s space entry (b - 1) else Some s);
         s \<leftarrow> sp_entry_modified s space name entry;
         Some (s, KERN_SUCCESS)
       }
     }
   }"

definition ipc_right_dealloc_send_receive ::
    "ipc_state \<Rightarrow> ipc_space_t \<Rightarrow> mach_port_name_t \<Rightarrow> nat \<Rightarrow> ipc_state option" where
  "ipc_right_dealloc_send_receive s space name entry = do {
     e \<leftarrow> get_entry s space entry;
     let b = ie_bits e;
     kassert (IE_BITS_UREFS b > 0);
     let p = ie_object e;
     kassert (p \<noteq> IP_NULL);
     port \<leftarrow> ports s p;
     require_ip_active port;
     kassert (ip_get_receiver_name port = name);
     kassert (ip_in_space port space);
     kassert (ip_srights port > 0);
     (s, nsrequest) \<leftarrow>
       (if IE_BITS_UREFS b = 1
        then do {
          (s, nsrequest) \<leftarrow> ipc_right_drop_send s p MACH_PORT_TYPE_SEND;
          s \<leftarrow> set_ie_bits s space entry (b AND NOT (IE_BITS_UREFS_MASK OR MACH_PORT_TYPE_SEND));
          Some (s, nsrequest)
        }
        else do {
          s \<leftarrow> (if IE_BITS_UREFS b < MACH_PORT_UREFS_MAX then set_ie_bits s space entry (b - 1) else Some s);
          Some (s, nsenders_none)
        });
     s \<leftarrow> sp_entry_modified s space name entry;
     ipc_notify_no_senders_emit s nsrequest
   }"

definition ipc_right_dealloc ::
    "ipc_state \<Rightarrow> ipc_space_t \<Rightarrow> mach_port_name_t \<Rightarrow> nat \<Rightarrow> (ipc_state \<times> kern_return_t) option" where
  "ipc_right_dealloc s space name entry = do {
     e \<leftarrow> get_entry s space entry;
     let type = IE_BITS_TYPE (ie_bits e);
     if type = MACH_PORT_TYPE_PORT_SET
     then do { s \<leftarrow> ipc_right_dealloc_pset s space name entry; Some (s, KERN_SUCCESS) }
     else if type = MACH_PORT_TYPE_DEAD_NAME
     then do { s \<leftarrow> ipc_right_dealloc_dead s space name entry IP_NULL; Some (s, KERN_SUCCESS) }
     else if type = MACH_PORT_TYPE_SEND_ONCE
     then do { s \<leftarrow> ipc_right_dealloc_send_once s space name entry; Some (s, KERN_SUCCESS) }
     else if type = MACH_PORT_TYPE_SEND then ipc_right_dealloc_send s space name entry
     else if type = MACH_PORT_TYPE_SEND_RECEIVE
     then do { s \<leftarrow> ipc_right_dealloc_send_receive s space name entry; Some (s, KERN_SUCCESS) }
     else Some (mach_port_guard_exception s name 0 0 kGUARD_EXC_INVALID_RIGHT, KERN_INVALID_RIGHT)
   }"


section \<open>Changing the user references of a right\<close>

definition ipc_right_invalid_value :: "ipc_state \<Rightarrow> mach_port_name_t \<Rightarrow> ipc_state \<times> kern_return_t" where
  "ipc_right_invalid_value s name =
     (mach_port_guard_exception s name 0 0 kGUARD_EXC_INVALID_VALUE, KERN_INVALID_VALUE)"

definition ipc_right_invalid_right :: "ipc_state \<Rightarrow> mach_port_name_t \<Rightarrow> ipc_state \<times> kern_return_t" where
  "ipc_right_invalid_right s name =
     (mach_port_guard_exception s name 0 0 kGUARD_EXC_INVALID_RIGHT, KERN_INVALID_RIGHT)"

text \<open>
  The change that \<open>delta\<close> makes to a count of user references: \<open>None\<close> when it is out of range or takes
  away more than there is, otherwise the change after pegging.
\<close>

definition ipc_right_urefs_delta :: "mach_port_urefs_t \<Rightarrow> mach_port_delta_t \<Rightarrow> mach_port_delta_t option" where
  "ipc_right_urefs_delta urefs delta =
     (if sint delta > sint MACH_PORT_UREFS_MAX \<or> sint delta < - sint MACH_PORT_UREFS_MAX then None
      else if urefs = MACH_PORT_UREFS_MAX
      then Some (if delta \<noteq> - MACH_PORT_UREFS_MAX then 0 else delta)
      else if MACH_PORT_UREFS_UNDERFLOW urefs delta then None
      else if MACH_PORT_UREFS_OVERFLOW urefs delta then Some (MACH_PORT_UREFS_MAX - urefs)
      else Some delta)"

definition ipc_right_delta_pset ::
    "ipc_state \<Rightarrow> ipc_space_t \<Rightarrow> mach_port_name_t \<Rightarrow> nat \<Rightarrow> mach_port_delta_t \<Rightarrow>
     (ipc_state \<times> kern_return_t) option" where
  "ipc_right_delta_pset s space name entry delta = do {
     e \<leftarrow> get_entry s space entry;
     let b = ie_bits e;
     if b AND MACH_PORT_TYPE_PORT_SET = 0 then Some (ipc_right_invalid_right s name)
     else do {
       kassert (IE_BITS_TYPE b = MACH_PORT_TYPE_PORT_SET);
       kassert (IE_BITS_UREFS b = 0);
       kassert (ie_request e = IE_REQ_NONE);
       if delta = 0 then Some (s, KERN_SUCCESS)
       else if delta \<noteq> - 1 then Some (ipc_right_invalid_value s name)
       else do {
         pset \<leftarrow> psets s (ie_object e);
         kassert (ips_active pset);
         s \<leftarrow> sp_entry_dealloc s space (ie_object e) name entry;
         s \<leftarrow> ipc_pset_destroy s space (ie_object e);
         Some (s, KERN_SUCCESS)
       }
     }
   }"

text \<open>
  Giving up a receive right whose entry also holds send rights: the entry keeps them when the port
  goes to its backup, and turns into a dead name when the port dies.
\<close>

definition ipc_right_lose_receive ::
    "ipc_state \<Rightarrow> ipc_space_t \<Rightarrow> mach_port_name_t \<Rightarrow> nat \<Rightarrow> ipc_port_t \<Rightarrow> ipc_state option" where
  "ipc_right_lose_receive s space name entry p = do {
     e \<leftarrow> get_entry s space entry;
     port \<leftarrow> ports s p;
     let b = ie_bits e;
     has_pdrequest \<leftarrow> ipc_port_has_prdrequest s port;
     s \<leftarrow> (if has_pdrequest
          then do {
            s \<leftarrow> sp_hash_insert s space p name entry;
            s \<leftarrow> ip_reference s p;
            set_ie_bits s space entry ((b AND NOT MACH_PORT_TYPE_RECEIVE) OR MACH_PORT_TYPE_EX_RECEIVE)
          }
          else do {
            let b = (b AND NOT IE_BITS_TYPE_MASK) OR (MACH_PORT_TYPE_DEAD_NAME OR MACH_PORT_TYPE_EX_RECEIVE);
            let b = (if ie_request e \<noteq> 0 \<and> IE_BITS_UREFS b < MACH_PORT_UREFS_MAX then b + 1 else b);
            mod_entry s space entry (\<lambda>e. e\<lparr>ie_request := IE_REQ_NONE, ie_object := IO_NULL, ie_bits := b\<rparr>)
          });
     sp_entry_modified s space name entry
   }"

definition ipc_right_delta_receive ::
    "ipc_state \<Rightarrow> ipc_space_t \<Rightarrow> mach_port_name_t \<Rightarrow> nat \<Rightarrow> mach_port_delta_t \<Rightarrow>
     (ipc_state \<times> kern_return_t) option" where
  "ipc_right_delta_receive s space name entry delta = do {
     e \<leftarrow> get_entry s space entry;
     let b = ie_bits e;
     if b AND MACH_PORT_TYPE_RECEIVE = 0
     then Some (if b AND MACH_PORT_TYPE_EX_RECEIVE = 0 then ipc_right_invalid_right s name
                else (s, KERN_INVALID_RIGHT))
     else if delta = 0 then Some (s, KERN_SUCCESS)
     else if delta \<noteq> - 1 then Some (ipc_right_invalid_value s name)
     else do {
       let p = ie_object e;
       kassert (p \<noteq> IP_NULL);
       port \<leftarrow> ports s p;
       require_ip_active port;
       kassert (ip_get_receiver_name port = name);
       kassert (ip_in_space port space);
       if ip_guarded port
       then Some (mach_port_guard_exception s name 0 (ip_context port) kGUARD_EXC_MOD_REFS, KERN_INVALID_RIGHT)
       else do {
         (s, request) \<leftarrow>
           (if b AND MACH_PORT_TYPE_SEND \<noteq> 0
            then do {
              kassert (IE_BITS_TYPE b = MACH_PORT_TYPE_SEND_RECEIVE);
              kassert (IE_BITS_UREFS b > 0);
              kassert (ip_srights port > 0);
              s \<leftarrow> ipc_right_lose_receive s space name entry p;
              Some (s, IP_NULL)
            }
            else do {
              kassert (IE_BITS_TYPE b = MACH_PORT_TYPE_RECEIVE);
              kassert (IE_BITS_UREFS b = 0);
              (s, request) \<leftarrow> ipc_right_request_cancel_macro s space p name entry;
              kassert (\<not> ip_pinned port);
              s \<leftarrow> sp_entry_dealloc s space p name entry;
              Some (s, request)
            });
         s \<leftarrow> ipc_port_destroy s p;
         Some (if request \<noteq> IP_NULL then ipc_notify_port_deleted s request name else s, KERN_SUCCESS)
       }
     }
   }"

definition ipc_right_delta_send_once ::
    "ipc_state \<Rightarrow> ipc_space_t \<Rightarrow> mach_port_name_t \<Rightarrow> nat \<Rightarrow> mach_port_delta_t \<Rightarrow>
     (ipc_state \<times> kern_return_t) option" where
  "ipc_right_delta_send_once s space name entry delta = do {
     e \<leftarrow> get_entry s space entry;
     let b = ie_bits e;
     if b AND MACH_PORT_TYPE_SEND_ONCE = 0 then Some (s, KERN_INVALID_RIGHT)
     else do {
       kassert (IE_BITS_TYPE b = MACH_PORT_TYPE_SEND_ONCE);
       kassert (IE_BITS_UREFS b = 1);
       let p = ie_object e;
       kassert (p \<noteq> IP_NULL);
       (s, dead) \<leftarrow> ipc_right_check s space p name entry IPC_OBJECT_COPYIN_FLAGS_NONE;
       if dead
       then do {
         e \<leftarrow> get_entry s space entry;
         kassert (ie_bits e AND MACH_PORT_TYPE_SEND_ONCE = 0);
         let (s, kr) = ipc_right_invalid_right s name;
         s \<leftarrow> ip_release s p;
         Some (s, kr)
       }
       else do {
         port \<leftarrow> ports s p;
         kassert (ip_sorights port > 0);
         if sint delta > 0 \<or> sint delta < - 1 then Some (ipc_right_invalid_value s name)
         else if delta = 0 then Some (s, KERN_SUCCESS)
         else do {
           s \<leftarrow> mod_port s p (\<lambda>port. port\<lparr>ip_reply_context := 0\<rparr>);
           (s, request) \<leftarrow> ipc_right_request_cancel_macro s space p name entry;
           kassert (\<not> ip_pinned port);
           s \<leftarrow> sp_entry_dealloc s space p name entry;
           s \<leftarrow> ipc_notify_send_once_and_unlock s p;
           Some (if request \<noteq> IP_NULL then ipc_notify_port_deleted s request name else s, KERN_SUCCESS)
         }
       }
     }
   }"

definition ipc_right_delta_dead_name ::
    "ipc_state \<Rightarrow> ipc_space_t \<Rightarrow> mach_port_name_t \<Rightarrow> nat \<Rightarrow> mach_port_delta_t \<Rightarrow>
     (ipc_state \<times> kern_return_t) option" where
  "ipc_right_delta_dead_name s space name entry delta = do {
     e \<leftarrow> get_entry s space entry;
     let b = ie_bits e;
     let p = ie_object e;
     let live = (b AND MACH_PORT_TYPE_SEND_RIGHTS \<noteq> 0);
     (s, dead) \<leftarrow> (if live
                   then do {
                     kassert (p \<noteq> IP_NULL);
                     ipc_right_check s space p name entry IPC_OBJECT_COPYIN_FLAGS_NONE
                   }
                   else Some (s, b AND MACH_PORT_TYPE_DEAD_NAME \<noteq> 0));
     if \<not> dead then Some (ipc_right_invalid_right s name)
     else do {
       e \<leftarrow> get_entry s space entry;
       let b = ie_bits e;
       kassert (IE_BITS_TYPE b = MACH_PORT_TYPE_DEAD_NAME);
       kassert (IE_BITS_UREFS b > 0);
       kassert (ie_object e = IO_NULL);
       kassert (ie_request e = IE_REQ_NONE);
       let urefs = IE_BITS_UREFS b;
       case ipc_right_urefs_delta urefs delta of
         None \<Rightarrow> Some (ipc_right_invalid_value s name)
       | Some delta \<Rightarrow> do {
           s \<leftarrow> (if urefs + delta = 0 then sp_entry_dealloc s space IO_NULL name entry
                else if delta \<noteq> 0
                then do {
                  s \<leftarrow> set_ie_bits s space entry (b + delta);
                  sp_entry_modified s space name entry
                }
                else Some s);
           s \<leftarrow> (if live then ip_release s p else Some s);
           Some (s, KERN_SUCCESS)
         }
     }
   }"

definition ipc_right_delta_send_gone ::
    "ipc_state \<Rightarrow> ipc_space_t \<Rightarrow> mach_port_name_t \<Rightarrow> nat \<Rightarrow> ipc_port_t \<Rightarrow> ipc_state option" where
  "ipc_right_delta_send_gone s space name entry p = do {
     e \<leftarrow> get_entry s space entry;
     let b = ie_bits e;
     (s, nsrequest) \<leftarrow> ipc_right_drop_send s p MACH_PORT_TYPE_SEND;
     port \<leftarrow> ports s p;
     (s, request) \<leftarrow>
       (if b AND MACH_PORT_TYPE_RECEIVE \<noteq> 0
        then do {
          kassert (ip_get_receiver_name port = name);
          kassert (ip_in_space port space);
          kassert (IE_BITS_TYPE b = MACH_PORT_TYPE_SEND_RECEIVE);
          s \<leftarrow> set_ie_bits s space entry (b AND NOT (IE_BITS_UREFS_MASK OR MACH_PORT_TYPE_SEND));
          s \<leftarrow> sp_entry_modified s space name entry;
          Some (s, IP_NULL)
        }
        else do {
          kassert (IE_BITS_TYPE b = MACH_PORT_TYPE_SEND);
          (s, request) \<leftarrow> ipc_right_request_cancel_macro s space p name entry;
          s \<leftarrow> sp_hash_delete s space p name entry;
          kassert (\<not> ip_pinned port);
          s \<leftarrow> sp_entry_dealloc s space p name entry;
          s \<leftarrow> ip_release s p;
          Some (s, request)
        });
     s \<leftarrow> ipc_notify_no_senders_emit s nsrequest;
     Some (if request \<noteq> IP_NULL then ipc_notify_port_deleted s request name else s)
   }"

definition ipc_right_delta_send ::
    "ipc_state \<Rightarrow> ipc_space_t \<Rightarrow> mach_port_name_t \<Rightarrow> nat \<Rightarrow> mach_port_delta_t \<Rightarrow>
     (ipc_state \<times> kern_return_t) option" where
  "ipc_right_delta_send s space name entry delta = do {
     e \<leftarrow> get_entry s space entry;
     let b = ie_bits e;
     if b AND MACH_PORT_TYPE_SEND = 0
     then Some (if b AND MACH_PORT_TYPE_DEAD_NAME = 0 \<and> (b AND MACH_PORT_TYPE_RECEIVE = 0 \<or> delta \<noteq> 1)
                then ipc_right_invalid_right s name else (s, KERN_INVALID_RIGHT))
     else do {
       let p = ie_object e;
       kassert (p \<noteq> IP_NULL);
       (s, dead) \<leftarrow> ipc_right_check s space p name entry IPC_OBJECT_COPYIN_FLAGS_NONE;
       if dead
       then do {
         e \<leftarrow> get_entry s space entry;
         kassert (ie_bits e AND MACH_PORT_TYPE_SEND = 0);
         s \<leftarrow> ip_release s p;
         Some (s, KERN_INVALID_RIGHT)
       }
       else do {
         port \<leftarrow> ports s p;
         kassert (ip_srights port > 0);
         let urefs = IE_BITS_UREFS b;
         case ipc_right_urefs_delta urefs delta of
           None \<Rightarrow> Some (ipc_right_invalid_value s name)
         | Some delta \<Rightarrow>
             if urefs + delta = 0
             then if ip_pinned port
               then do {
                 s \<leftarrow> mach_port_guard_exception_pinned s space name port MPG_FLAGS_MOD_REFS_PINNED_DEALLOC;
                 Some (s, KERN_INVALID_CAPABILITY)
               }
               else do { s \<leftarrow> ipc_right_delta_send_gone s space name entry p; Some (s, KERN_SUCCESS) }
             else if delta \<noteq> 0
             then do {
               s \<leftarrow> set_ie_bits s space entry (b + delta);
               s \<leftarrow> sp_entry_modified s space name entry;
               Some (s, KERN_SUCCESS)
             }
             else Some (s, KERN_SUCCESS)
       }
     }
   }"

definition ipc_right_delta ::
    "ipc_state \<Rightarrow> ipc_space_t \<Rightarrow> mach_port_name_t \<Rightarrow> nat \<Rightarrow> mach_port_right_t \<Rightarrow> mach_port_delta_t \<Rightarrow>
     (ipc_state \<times> kern_return_t) option" where
  "ipc_right_delta s space name entry right delta = do {
     e \<leftarrow> get_entry s space entry;
     kassert (right < MACH_PORT_RIGHT_NUMBER);
     if right = MACH_PORT_RIGHT_PORT_SET then ipc_right_delta_pset s space name entry delta
     else if right = MACH_PORT_RIGHT_RECEIVE then ipc_right_delta_receive s space name entry delta
     else if right = MACH_PORT_RIGHT_SEND_ONCE then ipc_right_delta_send_once s space name entry delta
     else if right = MACH_PORT_RIGHT_DEAD_NAME then ipc_right_delta_dead_name s space name entry delta
     else if right = MACH_PORT_RIGHT_SEND then ipc_right_delta_send s space name entry delta
     else Some (s, KERN_INVALID_RIGHT)
   }"


section \<open>Destruct\<close>

text \<open>The first part of \<open>ipc_right_destruct\<close>: the send rights are reduced; \<open>None\<close> inside when there are too few.\<close>

definition ipc_right_destruct_sends ::
    "ipc_state \<Rightarrow> ipc_space_t \<Rightarrow> nat \<Rightarrow> ipc_port_t \<Rightarrow> mach_port_delta_t \<Rightarrow>
     (ipc_state \<times> ipc_notify_nsenders) option option" where
  "ipc_right_destruct_sends s space entry p srdelta = do {
     e \<leftarrow> get_entry s space entry;
     port \<leftarrow> ports s p;
     kassert (ip_srights port > 0);
     let b = ie_bits e;
     let urefs = IE_BITS_UREFS b;
     if MACH_PORT_UREFS_UNDERFLOW urefs srdelta then Some None
     else do {
       let srdelta = (if urefs = MACH_PORT_UREFS_MAX \<and> srdelta \<noteq> - MACH_PORT_UREFS_MAX then 0 else srdelta);
       if urefs + srdelta = 0
       then do {
         (s, nsrequest) \<leftarrow> ipc_right_drop_send s p MACH_PORT_TYPE_SEND;
         kassert (IE_BITS_TYPE b = MACH_PORT_TYPE_SEND_RECEIVE);
         s \<leftarrow> set_ie_bits s space entry (b AND NOT (IE_BITS_UREFS_MASK OR MACH_PORT_TYPE_SEND));
         Some (Some (s, nsrequest))
       }
       else do {
         s \<leftarrow> set_ie_bits s space entry (b + srdelta);
         Some (Some (s, nsenders_none))
       }
     }
   }"

definition ipc_right_destruct ::
    "ipc_state \<Rightarrow> ipc_space_t \<Rightarrow> mach_port_name_t \<Rightarrow> nat \<Rightarrow> mach_port_delta_t \<Rightarrow> 64 word \<Rightarrow>
     (ipc_state \<times> kern_return_t) option" where
  "ipc_right_destruct s space name entry srdelta guard = do {
     e \<leftarrow> get_entry s space entry;
     let b = ie_bits e;
     if b AND MACH_PORT_TYPE_RECEIVE = 0
     then Some (if b AND MACH_PORT_TYPE_EX_RECEIVE = 0 then ipc_right_invalid_right s name
                else (s, KERN_INVALID_RIGHT))
     else if srdelta \<noteq> 0 \<and> b AND MACH_PORT_TYPE_SEND = 0 then Some (ipc_right_invalid_right s name)
     else if sint srdelta > 0 then Some (ipc_right_invalid_value s name)
     else do {
       let p = ie_object e;
       kassert (p \<noteq> IP_NULL);
       port \<leftarrow> ports s p;
       require_ip_active port;
       kassert (ip_get_receiver_name port = name);
       kassert (ip_in_space port space);
       if ip_guarded port \<and> guard \<noteq> ip_context port
       then Some (mach_port_guard_exception s name 0 (ip_context port) kGUARD_EXC_DESTROY, KERN_INVALID_ARGUMENT)
       else do {
         sent \<leftarrow> (if srdelta \<noteq> 0 then ipc_right_destruct_sends s space entry p srdelta
                 else Some (Some (s, nsenders_none)));
         case sent of
           None \<Rightarrow> Some (ipc_right_invalid_value s name)
         | Some (s, nsrequest) \<Rightarrow> do {
             e \<leftarrow> get_entry s space entry;
             let b = ie_bits e;
             (s, request) \<leftarrow>
               (if b AND MACH_PORT_TYPE_SEND \<noteq> 0
                then do {
                  kassert (IE_BITS_UREFS b > 0);
                  kassert (IE_BITS_UREFS b \<le> MACH_PORT_UREFS_MAX);
                  s \<leftarrow> ipc_right_lose_receive s space name entry p;
                  Some (s, IP_NULL)
                }
                else do {
                  kassert (IE_BITS_TYPE b = MACH_PORT_TYPE_RECEIVE);
                  kassert (IE_BITS_UREFS b = 0);
                  (s, request) \<leftarrow> ipc_right_request_cancel_macro s space p name entry;
                  kassert (\<not> ip_pinned port);
                  s \<leftarrow> sp_entry_dealloc s space p name entry;
                  Some (s, request)
                });
             s \<leftarrow> ipc_notify_no_senders_emit s nsrequest;
             s \<leftarrow> ipc_port_destroy s p;
             Some (if request \<noteq> IP_NULL then ipc_notify_port_deleted s request name else s, KERN_SUCCESS)
           }
       }
     }
   }"

definition ipc_right_info ::
    "ipc_state \<Rightarrow> ipc_space_t \<Rightarrow> mach_port_name_t \<Rightarrow> nat \<Rightarrow>
     (ipc_state \<times> mach_port_type_t \<times> mach_port_urefs_t) option" where
  "ipc_right_info s space name entry = do {
     e \<leftarrow> get_entry s space entry;
     let b = ie_bits e;
     let request = ie_request e;
     let p = ie_object e;
     if b AND MACH_PORT_TYPE_RECEIVE \<noteq> 0
     then do {
       kassert (IP_VALID p);
       type \<leftarrow> (if request \<noteq> IE_REQ_NONE
                then do {
                  port \<leftarrow> ports s p;
                  require_ip_active port;
                  ipc_port_request_type port name request
                }
                else Some 0);
       Some (s, type OR IE_BITS_TYPE b, IE_BITS_UREFS b)
     }
     else if b AND MACH_PORT_TYPE_SEND_RIGHTS \<noteq> 0
     then do {
       (s, dead) \<leftarrow> ipc_right_check s space p name entry IPC_OBJECT_COPYIN_FLAGS_NONE;
       if \<not> dead
       then do {
         port \<leftarrow> ports s p;
         type \<leftarrow> (if request \<noteq> IE_REQ_NONE then ipc_port_request_type port name request else Some 0);
         Some (s, type OR IE_BITS_TYPE b, IE_BITS_UREFS b)
       }
       else do {
         e \<leftarrow> get_entry s space entry;
         kassert (IE_BITS_TYPE (ie_bits e) = MACH_PORT_TYPE_DEAD_NAME);
         s \<leftarrow> ip_release s p;
         Some (s, IE_BITS_TYPE (ie_bits e), IE_BITS_UREFS (ie_bits e))
       }
     }
     else Some (s, IE_BITS_TYPE b, IE_BITS_UREFS b)
   }"


section \<open>Copying rights in\<close>

record copyin_result =
  ci_object :: ipc_object_t
  ci_soright :: ipc_port_t
  ci_release :: ipc_port_t
  ci_assertcnt :: "32 word"
  ci_guard_flags :: mach_msg_guard_flags_t

definition copyin_none :: copyin_result where
  "copyin_none = \<lparr>ci_object = IO_NULL, ci_soright = IP_NULL, ci_release = IP_NULL, ci_assertcnt = 0,
                  ci_guard_flags = 0\<rparr>"

text \<open>The result says whether a later copyin of the reply port would succeed.\<close>

definition ipc_right_copyin_check_reply ::
    "ipc_state \<Rightarrow> ipc_space_t \<Rightarrow> mach_port_name_t \<Rightarrow> nat \<Rightarrow> mach_msg_type_name_t \<Rightarrow>
     (ipc_state \<times> bool) option" where
  "ipc_right_copyin_check_reply s space reply_name reply_entry reply_type = do {
     e \<leftarrow> get_entry s space reply_entry;
     let b = ie_bits e;
     if reply_type = MACH_MSG_TYPE_MAKE_SEND \<or> reply_type = MACH_MSG_TYPE_MAKE_SEND_ONCE
     then Some (s, b AND MACH_PORT_TYPE_RECEIVE \<noteq> 0)
     else if reply_type = MACH_MSG_TYPE_MOVE_RECEIVE then Some (s, False)
     else do {
       kassert (reply_type = MACH_MSG_TYPE_COPY_SEND \<or> reply_type = MACH_MSG_TYPE_MOVE_SEND \<or>
                reply_type = MACH_MSG_TYPE_MOVE_SEND_ONCE);
       if b AND MACH_PORT_TYPE_DEAD_NAME \<noteq> 0 then Some (s, True)
       else if b AND MACH_PORT_TYPE_SEND_RIGHTS = 0 then Some (s, False)
       else do {
         kassert (ie_object e \<noteq> IP_NULL);
         port \<leftarrow> ports s (ie_object e);
         if \<not> ip_active port then Some (s, True)
         else if ip_immovable_send port
         then do {
           s \<leftarrow> mach_port_guard_exception_immovable s space reply_name port MPG_FLAGS_NONE;
           Some (s, False)
         }
         else Some (s, if reply_type = MACH_MSG_TYPE_MOVE_SEND_ONCE then b AND MACH_PORT_TYPE_SEND_ONCE \<noteq> 0
                       else b AND MACH_PORT_TYPE_SEND \<noteq> 0)
       }
     }
   }"

definition ipc_right_copyin_check_guard_locked ::
    "ipc_state \<Rightarrow> mach_port_name_t \<Rightarrow> ipc_port \<Rightarrow> 64 word \<Rightarrow> mach_msg_guard_flags_t \<Rightarrow>
     ipc_state \<times> kern_return_t" where
  "ipc_right_copyin_check_guard_locked s name port context flags =
     (if flags AND MACH_MSG_GUARD_FLAGS_UNGUARDED_ON_SEND \<noteq> 0 \<and> \<not> ip_guarded port \<and> context = 0
      then (s, KERN_SUCCESS)
      else if ip_guarded port \<and> ip_context port = context then (s, KERN_SUCCESS)
      else (mach_port_guard_exception s name context (ip_context port) kGUARD_EXC_INCORRECT_GUARD,
            KERN_INVALID_ARGUMENT))"

text \<open>Copying a dead name: \<open>release\<close> is the port whose right has just become this dead name.\<close>

definition ipc_right_copy_dead ::
    "ipc_state \<Rightarrow> ipc_space_t \<Rightarrow> nat \<Rightarrow> bool \<Rightarrow> ipc_port_t \<Rightarrow>
     (ipc_state \<times> kern_return_t \<times> copyin_result) option" where
  "ipc_right_copy_dead s space entry deadok release = do {
     e \<leftarrow> get_entry s space entry;
     kassert (IE_BITS_TYPE (ie_bits e) = MACH_PORT_TYPE_DEAD_NAME);
     kassert (IE_BITS_UREFS (ie_bits e) > 0);
     kassert (ie_request e = IE_REQ_NONE);
     kassert (ie_object e = IO_NULL);
     Some (if deadok then (s, KERN_SUCCESS, copyin_none\<lparr>ci_object := IO_DEAD, ci_release := release\<rparr>)
           else (s, KERN_INVALID_RIGHT, copyin_none\<lparr>ci_release := release\<rparr>))
   }"

definition ipc_right_move_dead ::
    "ipc_state \<Rightarrow> ipc_space_t \<Rightarrow> mach_port_name_t \<Rightarrow> nat \<Rightarrow> bool \<Rightarrow> ipc_port_t \<Rightarrow>
     (ipc_state \<times> kern_return_t \<times> copyin_result) option" where
  "ipc_right_move_dead s space name entry deadok release = do {
     e \<leftarrow> get_entry s space entry;
     let b = ie_bits e;
     kassert (IE_BITS_TYPE b = MACH_PORT_TYPE_DEAD_NAME);
     kassert (IE_BITS_UREFS b > 0);
     kassert (ie_request e = IE_REQ_NONE);
     kassert (ie_object e = IO_NULL);
     if \<not> deadok then Some (s, KERN_INVALID_RIGHT, copyin_none\<lparr>ci_release := release\<rparr>)
     else do {
       s \<leftarrow> (if IE_BITS_UREFS b = 1 then sp_entry_dealloc s space IO_NULL name entry
            else do {
              s \<leftarrow> (if IE_BITS_UREFS b < MACH_PORT_UREFS_MAX then set_ie_bits s space entry (b - 1) else Some s);
              sp_entry_modified s space name entry
            });
       Some (s, KERN_SUCCESS, copyin_none\<lparr>ci_object := IO_DEAD, ci_release := release\<rparr>)
     }
   }"

definition ipc_right_copyin_make ::
    "ipc_state \<Rightarrow> ipc_space_t \<Rightarrow> mach_port_name_t \<Rightarrow> nat \<Rightarrow> bool \<Rightarrow>
     (ipc_state \<times> kern_return_t \<times> copyin_result) option" where
  "ipc_right_copyin_make s space name entry once = do {
     e \<leftarrow> get_entry s space entry;
     if ie_bits e AND MACH_PORT_TYPE_RECEIVE = 0 then Some (s, KERN_INVALID_RIGHT, copyin_none)
     else do {
       let p = ie_object e;
       kassert (p \<noteq> IP_NULL);
       port \<leftarrow> ports s p;
       kassert (ip_get_receiver_name port = name);
       kassert (ip_in_space port space);
       s \<leftarrow> (if once then ipc_port_make_sonce_locked s p else ipc_port_make_send_locked s p);
       Some (s, KERN_SUCCESS, copyin_none\<lparr>ci_object := p\<rparr>)
     }
   }"

text \<open>\<open>guard_flags\<close> is \<open>None\<close> when the caller passes no flags.\<close>

definition ipc_right_copyin_move_receive ::
    "ipc_state \<Rightarrow> ipc_space_t \<Rightarrow> mach_port_name_t \<Rightarrow> nat \<Rightarrow> 64 word \<Rightarrow> mach_msg_guard_flags_t option \<Rightarrow>
     (ipc_state \<times> kern_return_t \<times> copyin_result) option" where
  "ipc_right_copyin_move_receive s space name entry context guard_flags = do {
     e \<leftarrow> get_entry s space entry;
     let b = ie_bits e;
     if b AND MACH_PORT_TYPE_RECEIVE = 0 then Some (s, KERN_INVALID_RIGHT, copyin_none)
     else do {
       let p = ie_object e;
       kassert (p \<noteq> IP_NULL);
       port \<leftarrow> ports s p;
       require_ip_active port;
       kassert (ip_get_receiver_name port = name);
       kassert (ip_in_space port space);
       if ip_is_kobject port \<or> ip_is_kolabeled port
       then Some (mach_port_guard_exception s name 0 0 kGUARD_EXC_IMMOVABLE, KERN_INVALID_CAPABILITY, copyin_none)
       else if ip_immovable_receive port \<or> ip_specialreply port
       then do {
         kassert (\<not> ip_in_space port (ipc_space_kernel (env s)));
         Some (mach_port_guard_exception s name 0 0 kGUARD_EXC_IMMOVABLE, KERN_INVALID_CAPABILITY, copyin_none)
       }
       else do {
         let (s, kr) = (case guard_flags of None \<Rightarrow> (s, KERN_SUCCESS)
                        | Some flags \<Rightarrow> ipc_right_copyin_check_guard_locked s name port context flags);
         if kr \<noteq> KERN_SUCCESS then Some (s, kr, copyin_none)
         else do {
           (s, request) \<leftarrow>
             (if b AND MACH_PORT_TYPE_SEND \<noteq> 0
              then do {
                kassert (IE_BITS_TYPE b = MACH_PORT_TYPE_SEND_RECEIVE);
                kassert (IE_BITS_UREFS b > 0);
                kassert (ip_srights port > 0);
                s \<leftarrow> set_ie_bits s space entry ((b AND NOT MACH_PORT_TYPE_RECEIVE) OR MACH_PORT_TYPE_EX_RECEIVE);
                s \<leftarrow> sp_hash_insert s space p name entry;
                s \<leftarrow> ip_reference s p;
                s \<leftarrow> sp_entry_modified s space name entry;
                Some (s, IP_NULL)
              }
              else do {
                kassert (IE_BITS_TYPE b = MACH_PORT_TYPE_RECEIVE);
                kassert (IE_BITS_UREFS b = 0);
                (s, request) \<leftarrow> ipc_right_request_cancel_macro s space p name entry;
                kassert (\<not> ip_pinned port);
                s \<leftarrow> sp_entry_dealloc s space p name entry;
                Some (s, request)
              });
           (s, _) \<leftarrow> ipc_port_clear_receiver s p False;
           port \<leftarrow> ports s p;
           (s, assertcnt) \<leftarrow>
             (if \<not> ip_tempowner port
              then do {
                kassert (ip_get_imp_task port = 0);
                s \<leftarrow> mod_port s p (\<lambda>port. port\<lparr>ip_tempowner := True\<rparr>);
                Some (s, ip_impcount port)
              }
              else Some (s, 0));
           Some (s, KERN_SUCCESS, copyin_none\<lparr>ci_object := p, ci_soright := request, ci_assertcnt := assertcnt,
             ci_guard_flags := (case guard_flags of None \<Rightarrow> 0
                                | Some flags \<Rightarrow> flags OR MACH_MSG_GUARD_FLAGS_UNGUARDED_ON_SEND)\<rparr>)
         }
       }
     }
   }"

definition ipc_right_copyin_copy_send ::
    "ipc_state \<Rightarrow> ipc_space_t \<Rightarrow> mach_port_name_t \<Rightarrow> nat \<Rightarrow> bool \<Rightarrow> bool \<Rightarrow>
     (ipc_state \<times> kern_return_t \<times> copyin_result) option" where
  "ipc_right_copyin_copy_send s space name entry deadok allow_imm_send = do {
     e \<leftarrow> get_entry s space entry;
     let b = ie_bits e;
     if b AND MACH_PORT_TYPE_DEAD_NAME \<noteq> 0 then ipc_right_copy_dead s space entry deadok IP_NULL
     else if b AND MACH_PORT_TYPE_SEND_RIGHTS = 0 then Some (s, KERN_INVALID_RIGHT, copyin_none)
     else do {
       kassert (IE_BITS_UREFS b > 0);
       let p = ie_object e;
       kassert (p \<noteq> IP_NULL);
       (s, dead) \<leftarrow> ipc_right_check s space p name entry IPC_OBJECT_COPYIN_FLAGS_NONE;
       if dead then ipc_right_copy_dead s space entry deadok p
       else do {
         port \<leftarrow> ports s p;
         if b AND MACH_PORT_TYPE_SEND = 0
         then do {
           kassert (IE_BITS_TYPE b = MACH_PORT_TYPE_SEND_ONCE);
           kassert (ip_sorights port > 0);
           Some (s, KERN_INVALID_RIGHT, copyin_none)
         }
         else if \<not> allow_imm_send \<and> ip_immovable_send port
         then do {
           s \<leftarrow> mach_port_guard_exception_immovable s space name port MPG_FLAGS_NONE;
           Some (s, KERN_INVALID_CAPABILITY, copyin_none)
         }
         else do {
           s \<leftarrow> ipc_port_copy_send_locked s p;
           Some (s, KERN_SUCCESS, copyin_none\<lparr>ci_object := p\<rparr>)
         }
       }
     }
   }"

text \<open>Moving the last user reference of a send right out of its entry; the port is live.\<close>

definition ipc_right_copyin_move_last ::
    "ipc_state \<Rightarrow> ipc_space_t \<Rightarrow> mach_port_name_t \<Rightarrow> nat \<Rightarrow> ipc_port_t \<Rightarrow>
     (ipc_state \<times> kern_return_t \<times> copyin_result) option" where
  "ipc_right_copyin_move_last s space name entry p = do {
     e \<leftarrow> get_entry s space entry;
     let b = ie_bits e;
     port \<leftarrow> ports s p;
     kassert (ip_srights port > 0);
     if b AND MACH_PORT_TYPE_RECEIVE \<noteq> 0
     then do {
       kassert (ip_get_receiver_name port = name);
       kassert (ip_in_space port space);
       kassert (IE_BITS_TYPE b = MACH_PORT_TYPE_SEND_RECEIVE);
       kassert (\<not> ip_pinned port);
       s \<leftarrow> set_ie_bits s space entry (b AND NOT (IE_BITS_UREFS_MASK OR MACH_PORT_TYPE_SEND));
       s \<leftarrow> sp_entry_modified s space name entry;
       s \<leftarrow> ip_reference s p;
       Some (s, KERN_SUCCESS, copyin_none\<lparr>ci_object := p\<rparr>)
     }
     else do {
       kassert (IE_BITS_TYPE b = MACH_PORT_TYPE_SEND);
       if ip_pinned port
       then do {
         s \<leftarrow> mach_port_guard_exception_pinned s space name port MPG_FLAGS_MOD_REFS_PINNED_COPYIN;
         Some (s, KERN_INVALID_CAPABILITY, copyin_none)
       }
       else do {
         (s, request) \<leftarrow> ipc_right_request_cancel_macro s space p name entry;
         s \<leftarrow> sp_hash_delete s space p name entry;
         s \<leftarrow> sp_entry_dealloc s space p name entry;
         Some (s, KERN_SUCCESS, copyin_none\<lparr>ci_object := p, ci_soright := request\<rparr>)
       }
     }
   }"

definition ipc_right_copyin_move_send ::
    "ipc_state \<Rightarrow> ipc_space_t \<Rightarrow> mach_port_name_t \<Rightarrow> nat \<Rightarrow> bool \<Rightarrow> bool \<Rightarrow>
     (ipc_state \<times> kern_return_t \<times> copyin_result) option" where
  "ipc_right_copyin_move_send s space name entry deadok allow_imm_send = do {
     e \<leftarrow> get_entry s space entry;
     let b = ie_bits e;
     if b AND MACH_PORT_TYPE_DEAD_NAME \<noteq> 0 then ipc_right_move_dead s space name entry deadok IP_NULL
     else if b AND MACH_PORT_TYPE_SEND_RIGHTS = 0 then Some (s, KERN_INVALID_RIGHT, copyin_none)
     else do {
       kassert (IE_BITS_UREFS b > 0);
       let p = ie_object e;
       kassert (p \<noteq> IP_NULL);
       (s, dead) \<leftarrow> ipc_right_check s space p name entry IPC_OBJECT_COPYIN_FLAGS_NONE;
       if dead then ipc_right_move_dead s space name entry deadok p
       else do {
         port \<leftarrow> ports s p;
         if b AND MACH_PORT_TYPE_SEND = 0
         then do {
           kassert (IE_BITS_TYPE b = MACH_PORT_TYPE_SEND_ONCE);
           kassert (ip_sorights port > 0);
           Some (s, KERN_INVALID_RIGHT, copyin_none)
         }
         else if \<not> allow_imm_send \<and> ip_immovable_send port
         then do {
           s \<leftarrow> mach_port_guard_exception_immovable s space name port MPG_FLAGS_NONE;
           Some (s, KERN_INVALID_CAPABILITY, copyin_none)
         }
         else if IE_BITS_UREFS b = 1 then ipc_right_copyin_move_last s space name entry p
         else do {
           s \<leftarrow> ipc_port_copy_send_locked s p;
           s \<leftarrow> (if IE_BITS_UREFS b < MACH_PORT_UREFS_MAX then set_ie_bits s space entry (b - 1) else Some s);
           s \<leftarrow> sp_entry_modified s space name entry;
           Some (s, KERN_SUCCESS, copyin_none\<lparr>ci_object := p\<rparr>)
         }
       }
     }
   }"

definition ipc_right_copyin_move_send_once ::
    "ipc_state \<Rightarrow> ipc_space_t \<Rightarrow> mach_port_name_t \<Rightarrow> nat \<Rightarrow> 16 word \<Rightarrow>
     (ipc_state \<times> kern_return_t \<times> copyin_result) option" where
  "ipc_right_copyin_move_send_once s space name entry flags = do {
     e \<leftarrow> get_entry s space entry;
     let b = ie_bits e;
     let deadok = (flags AND IPC_OBJECT_COPYIN_FLAGS_DEADOK \<noteq> 0);
     let allow_imm_send = (flags AND IPC_OBJECT_COPYIN_FLAGS_ALLOW_IMMOVABLE_SEND \<noteq> 0);
     if b AND MACH_PORT_TYPE_DEAD_NAME \<noteq> 0 then ipc_right_move_dead s space name entry deadok IP_NULL
     else if b AND MACH_PORT_TYPE_SEND_RIGHTS = 0 then Some (s, KERN_INVALID_RIGHT, copyin_none)
     else do {
       kassert (IE_BITS_UREFS b > 0);
       let p = ie_object e;
       kassert (p \<noteq> IP_NULL);
       (s, dead) \<leftarrow> ipc_right_check s space p name entry flags;
       if dead then ipc_right_move_dead s space name entry deadok p
       else do {
         port \<leftarrow> ports s p;
         if b AND MACH_PORT_TYPE_SEND_ONCE = 0
         then do {
           kassert (b AND MACH_PORT_TYPE_SEND \<noteq> 0);
           kassert (ip_srights port > 0);
           Some (s, KERN_INVALID_RIGHT, copyin_none)
         }
         else if \<not> allow_imm_send \<and> ip_immovable_send port
         then do {
           s \<leftarrow> mach_port_guard_exception_immovable s space name port MPG_FLAGS_NONE;
           Some (s, KERN_INVALID_CAPABILITY, copyin_none)
         }
         else do {
           kassert (IE_BITS_TYPE b = MACH_PORT_TYPE_SEND_ONCE);
           kassert (IE_BITS_UREFS b = 1);
           kassert (ip_sorights port > 0);
           (s, request) \<leftarrow> ipc_right_request_cancel_macro s space p name entry;
           kassert (\<not> ip_pinned port);
           s \<leftarrow> sp_entry_dealloc s space p name entry;
           Some (s, KERN_SUCCESS, copyin_none\<lparr>ci_object := p, ci_soright := request\<rparr>)
         }
       }
     }
   }"

definition ipc_right_copyin ::
    "ipc_state \<Rightarrow> ipc_space_t \<Rightarrow> mach_port_name_t \<Rightarrow> nat \<Rightarrow> mach_msg_type_name_t \<Rightarrow> 16 word \<Rightarrow> 64 word \<Rightarrow>
     mach_msg_guard_flags_t option \<Rightarrow> (ipc_state \<times> kern_return_t \<times> copyin_result) option" where
  "ipc_right_copyin s space name entry msgt_name flags context guard_flags = do {
     e \<leftarrow> get_entry s space entry;
     let deadok = (flags AND IPC_OBJECT_COPYIN_FLAGS_DEADOK \<noteq> 0);
     let allow_imm_send = (flags AND IPC_OBJECT_COPYIN_FLAGS_ALLOW_IMMOVABLE_SEND \<noteq> 0);
     if msgt_name = MACH_MSG_TYPE_MAKE_SEND then ipc_right_copyin_make s space name entry False
     else if msgt_name = MACH_MSG_TYPE_MAKE_SEND_ONCE then ipc_right_copyin_make s space name entry True
     else if msgt_name = MACH_MSG_TYPE_MOVE_RECEIVE
     then ipc_right_copyin_move_receive s space name entry context guard_flags
     else if msgt_name = MACH_MSG_TYPE_COPY_SEND
     then ipc_right_copyin_copy_send s space name entry deadok allow_imm_send
     else if msgt_name = MACH_MSG_TYPE_MOVE_SEND
     then ipc_right_copyin_move_send s space name entry deadok allow_imm_send
     else if msgt_name = MACH_MSG_TYPE_MOVE_SEND_ONCE
     then ipc_right_copyin_move_send_once s space name entry flags
     else Some (s, KERN_INVALID_RIGHT, copyin_none)
   }"

text \<open>Two send rights moved at once.\<close>

definition ipc_right_copyin_two_move_sends ::
    "ipc_state \<Rightarrow> ipc_space_t \<Rightarrow> mach_port_name_t \<Rightarrow> nat \<Rightarrow>
     (ipc_state \<times> kern_return_t \<times> copyin_result) option" where
  "ipc_right_copyin_two_move_sends s space name entry = do {
     e \<leftarrow> get_entry s space entry;
     let b = ie_bits e;
     let urefs = IE_BITS_UREFS b;
     if b AND MACH_PORT_TYPE_SEND = 0 \<or> urefs < 2 then Some (s, KERN_INVALID_RIGHT, copyin_none)
     else do {
       let p = ie_object e;
       kassert (p \<noteq> IP_NULL);
       (s, dead) \<leftarrow> ipc_right_check s space p name entry IPC_OBJECT_COPYIN_FLAGS_NONE;
       if dead then Some (s, KERN_INVALID_RIGHT, copyin_none\<lparr>ci_release := p\<rparr>)
       else do {
         port \<leftarrow> ports s p;
         kassert (\<not> ip_immovable_send port);
         kassert (\<not> ip_pinned port);
         (s, request) \<leftarrow>
           (if urefs > 2
            then do {
              s \<leftarrow> ipc_port_copy_send_locked s p;
              s \<leftarrow> ipc_port_copy_send_locked s p;
              s \<leftarrow> (if urefs < MACH_PORT_UREFS_MAX then set_ie_bits s space entry (b - 2) else Some s);
              s \<leftarrow> sp_entry_modified s space name entry;
              Some (s, IP_NULL)
            }
            else do {
              s \<leftarrow> ipc_port_copy_send_locked s p;
              if b AND MACH_PORT_TYPE_RECEIVE \<noteq> 0
              then do {
                kassert (ip_get_receiver_name port = name);
                kassert (ip_in_space port space);
                kassert (IE_BITS_TYPE b = MACH_PORT_TYPE_SEND_RECEIVE);
                s \<leftarrow> set_ie_bits s space entry (b AND NOT (IE_BITS_UREFS_MASK OR MACH_PORT_TYPE_SEND));
                s \<leftarrow> sp_entry_modified s space name entry;
                s \<leftarrow> ip_reference s p;
                Some (s, IP_NULL)
              }
              else do {
                kassert (IE_BITS_TYPE b = MACH_PORT_TYPE_SEND);
                (s, request) \<leftarrow> ipc_right_request_cancel_macro s space p name entry;
                s \<leftarrow> sp_hash_delete s space p name entry;
                s \<leftarrow> sp_entry_dealloc s space p name entry;
                Some (s, request)
              }
            });
         Some (s, KERN_SUCCESS, copyin_none\<lparr>ci_object := p, ci_soright := request\<rparr>)
       }
     }
   }"

definition ipc_right_copyin_two ::
    "ipc_state \<Rightarrow> ipc_space_t \<Rightarrow> mach_port_name_t \<Rightarrow> nat \<Rightarrow> mach_msg_type_name_t \<Rightarrow> mach_msg_type_name_t \<Rightarrow>
     (ipc_state \<times> kern_return_t \<times> copyin_result) option" where
  "ipc_right_copyin_two s space name entry msgt_one msgt_two = do {
     kassert (MACH_MSG_TYPE_PORT_ANY_SEND msgt_one);
     kassert (MACH_MSG_TYPE_PORT_ANY_SEND msgt_two);
     if msgt_one = MACH_MSG_TYPE_MOVE_SEND_ONCE \<or> msgt_two = MACH_MSG_TYPE_MOVE_SEND_ONCE
     then Some (s, KERN_INVALID_RIGHT, copyin_none)
     else if msgt_one = MACH_MSG_TYPE_MAKE_SEND \<or> msgt_one = MACH_MSG_TYPE_MAKE_SEND_ONCE \<or>
             msgt_two = MACH_MSG_TYPE_MAKE_SEND \<or> msgt_two = MACH_MSG_TYPE_MAKE_SEND_ONCE
     then do {
       (s, kr, r1) \<leftarrow> ipc_right_copyin s space name entry msgt_one
                       IPC_OBJECT_COPYIN_FLAGS_ALLOW_IMMOVABLE_SEND 0 None;
       kassert (ci_assertcnt r1 = 0);
       if kr \<noteq> KERN_SUCCESS then Some (s, kr, r1)
       else do {
         kassert (IO_VALID (ci_object r1));
         kassert (ci_soright r1 = IP_NULL);
         kassert (ci_release r1 = IP_NULL);
         (s, kr, r2) \<leftarrow> ipc_right_copyin s space name entry msgt_two IPC_OBJECT_COPYIN_FLAGS_NONE 0 None;
         kassert (ci_assertcnt r2 = 0);
         kassert (kr = KERN_SUCCESS);
         kassert (ci_soright r2 = IP_NULL);
         kassert (ci_release r2 = IP_NULL);
         kassert (ci_object r2 = ci_object r1);
         e \<leftarrow> get_entry s space entry;
         kassert (ie_bits e AND MACH_PORT_TYPE_RECEIVE \<noteq> 0);
         Some (s, KERN_SUCCESS, r1)
       }
     }
     else if msgt_one = MACH_MSG_TYPE_MOVE_SEND \<and> msgt_two = MACH_MSG_TYPE_MOVE_SEND
     then ipc_right_copyin_two_move_sends s space name entry
     else do {
       let msgt_name = (if msgt_one = MACH_MSG_TYPE_MOVE_SEND \<or> msgt_two = MACH_MSG_TYPE_MOVE_SEND
                        then MACH_MSG_TYPE_MOVE_SEND else MACH_MSG_TYPE_COPY_SEND);
       (s, kr, r) \<leftarrow> ipc_right_copyin s space name entry msgt_name
                      IPC_OBJECT_COPYIN_FLAGS_ALLOW_IMMOVABLE_SEND 0 None;
       kassert (ci_assertcnt r = 0);
       if kr \<noteq> KERN_SUCCESS then Some (s, kr, r)
       else do {
         s \<leftarrow> ipc_port_copy_send_locked s (ci_object r);
         Some (s, KERN_SUCCESS, r)
       }
     }
   }"


section \<open>Copying rights out\<close>

definition ipc_right_copyout_send_once ::
    "ipc_state \<Rightarrow> ipc_space_t \<Rightarrow> mach_port_name_t \<Rightarrow> nat \<Rightarrow> ipc_port_t \<Rightarrow> ipc_state option" where
  "ipc_right_copyout_send_once s space name entry p = do {
     e \<leftarrow> get_entry s space entry;
     let b = ie_bits e;
     port \<leftarrow> ports s p;
     kassert (IE_BITS_TYPE b = MACH_PORT_TYPE_NONE);
     kassert (IE_BITS_UREFS b = 0);
     kassert (ip_sorights port > 0);
     s \<leftarrow> (if ip_specialreply port then ipc_port_adjust_special_reply_port s p False else Some s);
     s \<leftarrow> set_ie_bits s space entry (b OR (MACH_PORT_TYPE_SEND_ONCE OR 1));
     sp_entry_modified s space name entry
   }"

definition ipc_right_copyout_send ::
    "ipc_state \<Rightarrow> ipc_space_t \<Rightarrow> mach_port_name_t \<Rightarrow> nat \<Rightarrow> ipc_port_t \<Rightarrow> ipc_state option" where
  "ipc_right_copyout_send s space name entry p = do {
     e \<leftarrow> get_entry s space entry;
     let b = ie_bits e;
     port \<leftarrow> ports s p;
     kassert (ip_srights port > 0);
     if b AND MACH_PORT_TYPE_SEND \<noteq> 0
     then do {
       let urefs = IE_BITS_UREFS b;
       kassert (ip_srights port > 1);
       kassert (urefs > 0);
       kassert (urefs \<le> MACH_PORT_UREFS_MAX);
       s \<leftarrow> mod_port s p (\<lambda>port. port\<lparr>ip_srights := ip_srights port - 1\<rparr>);
       s \<leftarrow> ip_release_live s p;
       if urefs = MACH_PORT_UREFS_MAX then Some s
       else do {
         s \<leftarrow> set_ie_bits s space entry ((b OR MACH_PORT_TYPE_SEND) + 1);
         sp_entry_modified s space name entry
       }
     }
     else if b AND MACH_PORT_TYPE_RECEIVE \<noteq> 0
     then do {
       kassert (IE_BITS_TYPE b = MACH_PORT_TYPE_RECEIVE);
       kassert (IE_BITS_UREFS b = 0);
       s \<leftarrow> ip_release_live s p;
       s \<leftarrow> set_ie_bits s space entry ((b OR MACH_PORT_TYPE_SEND) + 1);
       sp_entry_modified s space name entry
     }
     else do {
       kassert (IE_BITS_TYPE b = MACH_PORT_TYPE_NONE);
       kassert (IE_BITS_UREFS b = 0);
       s \<leftarrow> sp_hash_insert s space p name entry;
       s \<leftarrow> set_ie_bits s space entry ((b OR MACH_PORT_TYPE_SEND) + 1);
       sp_entry_modified s space name entry
     }
   }"

text \<open>The guard of a service port is restored when its receive right comes back to \<open>launchd\<close>.\<close>

definition ipc_right_copyout_service ::
    "ipc_state \<Rightarrow> mach_port_name_t \<Rightarrow> ipc_port_t \<Rightarrow> ipc_state option" where
  "ipc_right_copyout_service s name p = do {
     port \<leftarrow> ports s p;
     if \<not> ip_service_port port then Some s
     else do {
       let label = ip_splabel port;
       kassert (label \<noteq> 0);
       if \<not> ipc_service_port_label_is_pd_notification s label then Some s
       else do {
         let s = ipc_service_port_label_clear_flag s label ISPL_FLAGS_SEND_PD_NOTIFICATION;
         if \<not> current_is_initproc (env s) then Some s
         else do {
           let (sp_name, sp_context) = ispl_attr s label;
           kassert (sp_name \<noteq> MACH_PORT_NULL);
           kassert (name = sp_name);
           if sp_context \<noteq> 0
           then mod_port s p (\<lambda>port. port\<lparr>ip_guarded := True, ip_strict_guard := True, ip_context := sp_context\<rparr>)
           else Some s
         }
       }
     }
   }"

text \<open>What is stored through \<open>context\<close> and \<open>guard_flags\<close>, \<open>None\<close> when nothing is.\<close>

type_synonym copyout_outputs = "(64 word \<times> mach_msg_guard_flags_t) option"

definition ipc_right_copyout_receive ::
    "ipc_state \<Rightarrow> ipc_space_t \<Rightarrow> mach_port_name_t \<Rightarrow> nat \<Rightarrow> mach_msg_guard_flags_t option \<Rightarrow> ipc_port_t \<Rightarrow>
     (ipc_state \<times> copyout_outputs) option" where
  "ipc_right_copyout_receive s space name entry guard_flags p = do {
     e \<leftarrow> get_entry s space entry;
     let b = ie_bits e;
     port \<leftarrow> ports s p;
     let assertcnt = ip_impcount port;
     kassert (ip_mscount port = 0);
     kassert (\<not> ip_in_a_space port);
     kassert (\<not> (ip_is_kobject port \<or> ip_is_kolabeled port));
     let dest = ip_get_destination port;
     let guard = (guard_flags \<noteq> None \<and> the guard_flags AND MACH_MSG_GUARD_FLAGS_IMMOVABLE_RECEIVE \<noteq> 0);
     let outputs = (if guard then Some (ith_msg_addr (env s),
                      the guard_flags AND NOT MACH_MSG_GUARD_FLAGS_UNGUARDED_ON_SEND) else None);
     s \<leftarrow> mod_port s p (\<lambda>port. port\<lparr>ip_receiver_name := name, ip_receiver := space\<rparr>);
     s \<leftarrow> (if guard
          then do {
            kassert (\<not> ip_immovable_receive port);
            mod_port s p (\<lambda>port. port\<lparr>ip_guarded := True, ip_strict_guard := False,
              ip_immovable_receive := ith_knote (env s) \<noteq> ITH_KNOTE_PSEUDO, ip_context := ith_msg_addr (env s)\<rparr>)
          }
          else Some s);
     s \<leftarrow> ipc_right_copyout_service s name p;
     port \<leftarrow> ports s p;
     kassert (b AND MACH_PORT_TYPE_RECEIVE = 0);
     kassert (if b AND MACH_PORT_TYPE_SEND \<noteq> 0
              then IE_BITS_TYPE b = MACH_PORT_TYPE_SEND \<and> IE_BITS_UREFS b > 0 \<and> ip_srights port > 0
              else IE_BITS_TYPE b = MACH_PORT_TYPE_NONE \<and> IE_BITS_UREFS b = 0);
     s \<leftarrow> set_ie_bits s space entry (b OR MACH_PORT_TYPE_RECEIVE);
     s \<leftarrow> sp_entry_modified s space name entry;
     kassert (\<not> ip_specialreply port);
     let checkin = (ith_knote (env s) \<noteq> ITH_KNOTE_PSEUDO \<and> ip_sync_bootstrap_checkin port);
     s \<leftarrow> mod_port (event s (Sync_link_adjust p checkin)) p (\<lambda>port. port\<lparr>ip_sync_bootstrap_checkin := False\<rparr>);
     let s = event s (Turnstile_recompute_push p);
     s \<leftarrow> (if b AND MACH_PORT_TYPE_SEND \<noteq> 0
          then do { s \<leftarrow> ip_release_live s p; sp_hash_delete s space p name entry }
          else Some s);
     s \<leftarrow> (if dest \<noteq> IP_NULL
          then do {
            (s, _) \<leftarrow> ipc_port_impcount_delta s dest (0 - assertcnt);
            ip_release (event s (Turnstile_complete dest)) dest
          }
          else Some s);
     Some (s, outputs)
   }"

text \<open>
  \<open>ipc_right_copyout\<close> always succeeds.  The thread is not receiving directly through a knote, so that
  a special reply port or a receive right is not stashed in one.
\<close>

definition ipc_right_copyout ::
    "ipc_state \<Rightarrow> ipc_space_t \<Rightarrow> mach_port_name_t \<Rightarrow> nat \<Rightarrow> mach_msg_type_name_t \<Rightarrow> 32 word \<Rightarrow>
     mach_msg_guard_flags_t option \<Rightarrow> ipc_object_t \<Rightarrow> (ipc_state \<times> copyout_outputs) option" where
  "ipc_right_copyout s space name entry msgt_name flags guard_flags p = do {
     e \<leftarrow> get_entry s space entry;
     kassert (IO_VALID p);
     port \<leftarrow> ports s p;
     kassert (io_otype port = IOT_PORT);
     kassert (ip_active port);
     kassert (ie_object e = p);
     s \<leftarrow> (if flags AND IPC_OBJECT_COPYOUT_FLAGS_PINNED \<noteq> 0
          then do {
            kassert (\<not> ip_pinned port);
            kassert (ip_immovable_send port);
            kassert (task_is_immovable (env s) space);
            kassert (task_is_pinned (env s) space);
            mod_port s p (\<lambda>port. port\<lparr>ip_pinned := True\<rparr>)
          }
          else Some s);
     if msgt_name = MACH_MSG_TYPE_PORT_SEND_ONCE
     then do { s \<leftarrow> ipc_right_copyout_send_once s space name entry p; Some (s, None) }
     else if msgt_name = MACH_MSG_TYPE_PORT_SEND
     then do { s \<leftarrow> ipc_right_copyout_send s space name entry p; Some (s, None) }
     else if msgt_name = MACH_MSG_TYPE_PORT_RECEIVE
     then ipc_right_copyout_receive s space name entry guard_flags p
     else None
   }"

end
