(* ===== verification/Right_Bits.thy ===== *)
theory Right_Bits
imports Ipc_Entry_Bits
begin

text \<open>
  The fields of \<open>ie_bits\<close> under the updates of \<^verbatim>\<open>ipc_right.c\<close>: adding to the user references,
  replacing the type, setting and clearing single rights.
\<close>

section \<open>User references\<close>

lemma UREFS_take_bit: "IE_BITS_UREFS b = take_bit 16 b"
  by (simp add: IE_BITS_UREFS_def mach_consts take_bit_eq_mask mask_eq_exp_minus_1)

lemma UREFS_le: "IE_BITS_UREFS b \<le> MACH_PORT_UREFS_MAX"
  by (simp add: IE_BITS_UREFS_def mach_consts word_and_le1)

text \<open>A change that stays between 0 and the maximum leaves the upper half of the word alone.\<close>

lemma UREFS_add:
  assumes "IE_BITS_UREFS b + d \<le> MACH_PORT_UREFS_MAX"
  shows "IE_BITS_UREFS (b + d) = IE_BITS_UREFS b + d"
    and "(b + d) AND 0xffff0000 = b AND 0xffff0000"
proof -
  have mask: "(0xffff0000 :: 32 word) = NOT (mask 16)" by (simp add: mask_eq_exp_minus_1)
  have h: "(b AND NOT (mask 16)) AND mask 16 = 0"
    by (rule bit_word_eqI) (auto simp: bit_simps)
  have "unat (take_bit 16 b + d) < 2 ^ 16"
    using assms by (simp add: UREFS_take_bit mach_consts word_le_nat_alt)
  then have s: "take_bit 16 (take_bit 16 b + d) = take_bit 16 b + d"
    by (simp add: word_unat_eq_iff unat_take_bit_mod)
  have eq: "b + d = (b AND NOT (mask 16)) + (take_bit 16 b + d)"
    by (subst low_field_split [of b 16]) (simp add: add.assoc)
  show "IE_BITS_UREFS (b + d) = IE_BITS_UREFS b + d" "(b + d) AND 0xffff0000 = b AND 0xffff0000"
    unfolding UREFS_take_bit mask eq using high_plus_low [OF h s] by simp_all
qed

lemma UREFS_add1:
  assumes "IE_BITS_UREFS b < MACH_PORT_UREFS_MAX"
  shows "IE_BITS_UREFS (b + 1) = IE_BITS_UREFS b + 1" "(b + 1) AND 0xffff0000 = b AND 0xffff0000"
proof -
  have "IE_BITS_UREFS b + 1 \<le> MACH_PORT_UREFS_MAX"
    using assms by (simp add: inc_le)
  from UREFS_add [OF this] show "IE_BITS_UREFS (b + 1) = IE_BITS_UREFS b + 1"
    "(b + 1) AND 0xffff0000 = b AND 0xffff0000" .
qed

lemma UREFS_sub1:
  assumes "IE_BITS_UREFS b \<noteq> 0"
  shows "IE_BITS_UREFS (b - 1) = IE_BITS_UREFS b - 1" "(b - 1) AND 0xffff0000 = b AND 0xffff0000"
proof -
  have "IE_BITS_UREFS b - 1 \<le> IE_BITS_UREFS b" using assms by (simp add: word_le_nat_alt unat_minus_one)
  then have "IE_BITS_UREFS b + - 1 \<le> MACH_PORT_UREFS_MAX" using UREFS_le [of b] by simp
  from UREFS_add [OF this] show "IE_BITS_UREFS (b - 1) = IE_BITS_UREFS b - 1"
    "(b - 1) AND 0xffff0000 = b AND 0xffff0000" by simp_all
qed


section \<open>Types\<close>

text \<open>Testing the word for a right is testing its type; the upper half of the word decides.\<close>

lemma type_test: "ty AND 0x1f0000 = ty \<Longrightarrow> b AND ty = IE_BITS_TYPE b AND ty"
  unfolding IE_BITS_TYPE_def IE_BITS_TYPE_MASK_def and.assoc by (subst and.commute [of "0x1f0000"]) simp

lemma high_fields:
  assumes "c AND 0xffff0000 = b AND 0xffff0000"
  shows "IE_BITS_TYPE c = IE_BITS_TYPE b" "IE_BITS_GEN c = IE_BITS_GEN b" "gen_ok c = gen_ok b"
    "c AND 0x200000 = b AND 0x200000"
proof -
  have m: "c AND m = b AND m" if "0xffff0000 AND m = m" for m
    using arg_cong [OF assms, of "\<lambda>w. w AND m"] that by (simp only: and.assoc)
  show "IE_BITS_TYPE c = IE_BITS_TYPE b" "IE_BITS_GEN c = IE_BITS_GEN b"
    "c AND 0x200000 = b AND 0x200000"
    by (simp_all add: IE_BITS_TYPE_def IE_BITS_GEN_def mach_consts m)
  show "gen_ok c = gen_ok b" by (rule gen_ok_cong) (rule m, simp)
qed

text \<open>Replacing bits below the generation keeps the generation.\<close>

lemma low_update:
  assumes "m AND 0xffc00000 = 0" "v AND 0xffc00000 = 0"
  shows "gen_ok ((b AND NOT m) OR v) = gen_ok b" "IE_BITS_GEN ((b AND NOT m) OR v) = IE_BITS_GEN b"
proof -
  have "NOT m AND 0xffc00000 = 0xffc00000"
  proof (rule bit_word_eqI)
    fix n assume "n < LENGTH(32)"
    then show "bit (NOT m AND 0xffc00000) n = bit (0xffc00000 :: 32 word) n"
      using arg_cong [OF assms(1), of "\<lambda>w. bit w n"] by (auto simp: bit_and_iff bit_not_iff)
  qed
  then have "((b AND NOT m) OR v) AND 0xffc00000 = b AND 0xffc00000"
    using assms(2) by (simp add: bit.conj_disj_distrib2 and.assoc)
  then show "gen_ok ((b AND NOT m) OR v) = gen_ok b" "IE_BITS_GEN ((b AND NOT m) OR v) = IE_BITS_GEN b"
    by (rule gen_ok_cong)+
qed

lemma retype:
  "IE_BITS_TYPE ((b AND NOT IE_BITS_TYPE_MASK) OR ty) = ty AND IE_BITS_TYPE_MASK"
  "ty AND 0xffff = 0 \<Longrightarrow> IE_BITS_UREFS ((b AND NOT IE_BITS_TYPE_MASK) OR ty) = IE_BITS_UREFS b"
  by (simp_all add: IE_BITS_TYPE_def IE_BITS_UREFS_def mach_consts bit.conj_disj_distrib2 and.assoc)

lemma clear_send:
  "IE_BITS_TYPE (b AND NOT (IE_BITS_UREFS_MASK OR MACH_PORT_TYPE_SEND)) = IE_BITS_TYPE b AND NOT MACH_PORT_TYPE_SEND"
  "IE_BITS_UREFS (b AND NOT (IE_BITS_UREFS_MASK OR MACH_PORT_TYPE_SEND)) = 0"
  by (simp_all add: IE_BITS_TYPE_def IE_BITS_UREFS_def mach_consts and.assoc)

end
