(* ===== verification/Right_Space.thy ===== *)
theory Right_Space
imports Ipc_Right Ipc_Logic Cap_Table Right_Bits
begin

text \<open>
  The operations of a space as the right layer uses them, on the whole state: what each does to the
  table, the free list and the reverse hash of the space, and that it touches nothing else.
  \<open>space_at s a t xs H\<close> says that the space at \<open>a\<close> has table \<open>t\<close>, free list \<open>xs\<close> and hashes the
  entries \<open>H\<close>; it is well formed (\<open>wf_at\<close>) when \<open>H\<close> are its pure send rights and \<open>xs\<close> its untyped entries.
\<close>

definition space_at :: "ipc_state \<Rightarrow> ipc_space_t \<Rightarrow> ipc_entry list \<Rightarrow> nat list \<Rightarrow> nat set \<Rightarrow> bool" where
  "space_at s a t xs H \<longleftrightarrow> (\<exists>sp. spaces s a = Some sp \<and> space_inv sp t xs H)"

definition wf_at :: "ipc_state \<Rightarrow> ipc_space_t \<Rightarrow> ipc_entry list \<Rightarrow> nat list \<Rightarrow> bool" where
  "wf_at s a t xs \<longleftrightarrow> space_at s a t xs (sends t) \<and> set xs = frees t"

definition only_space :: "ipc_space_t \<Rightarrow> ipc_state \<Rightarrow> ipc_state \<Rightarrow> bool" where
  "only_space a s s' \<longleftrightarrow> s' = s\<lparr>spaces := spaces s'\<rparr> \<and> (\<forall>b. b \<noteq> a \<longrightarrow> spaces s' b = spaces s b)"

lemma only_space_refl [simp]: "only_space a s s"
  by (simp add: only_space_def)

lemma only_space_trans:
  assumes "only_space a s s'" "only_space a s' s''"
  shows "only_space a s s''"
proof -
  obtain f where f: "s' = s\<lparr>spaces := f\<rparr>" "\<forall>b. b \<noteq> a \<longrightarrow> f b = spaces s b"
    using assms(1) by (metis only_space_def)
  obtain g where "s'' = s'\<lparr>spaces := g\<rparr>" "\<forall>b. b \<noteq> a \<longrightarrow> g b = spaces s' b"
    using assms(2) by (metis only_space_def)
  then show ?thesis using f by (simp add: only_space_def)
qed

lemma only_space_upd: "only_space a s (s\<lparr>spaces := (spaces s)(a \<mapsto> sp)\<rparr>)"
  by (simp add: only_space_def)

lemma only_space_fields:
  assumes "only_space a s s'"
  shows "ports s' = ports s" "psets s' = psets s" "env s' = env s" "events s' = events s"
    "twe_pdrequest s' = twe_pdrequest s" "ith_assertions s' = ith_assertions s"
    "b \<noteq> a \<Longrightarrow> spaces s' b = spaces s b"
proof -
  have eq: "s' = s\<lparr>spaces := spaces s'\<rparr>" and b: "b \<noteq> a \<Longrightarrow> spaces s' b = spaces s b"
    using assms by (simp_all add: only_space_def)
  show "ports s' = ports s" "psets s' = psets s" "env s' = env s" "events s' = events s"
    "twe_pdrequest s' = twe_pdrequest s" "ith_assertions s' = ith_assertions s"
    by (subst eq, simp)+
  show "b \<noteq> a \<Longrightarrow> spaces s' b = spaces s b" by (rule b)
qed

lemma space_at_cong: "spaces s' a = spaces s a \<Longrightarrow> space_at s' a t xs H = space_at s a t xs H"
  by (simp add: space_at_def)

lemma wf_at_cong: "spaces s' a = spaces s a \<Longrightarrow> wf_at s' a t xs = wf_at s a t xs"
  by (simp add: wf_at_def space_at_def)

lemma space_atD:
  assumes "space_at s a t xs H"
  obtains sp where "spaces s a = Some sp" "space_inv sp t xs H" "is_active_table sp = Some t" "is_active sp"
    "table_inv t xs"
proof -
  obtain sp where sp: "spaces s a = Some sp" "space_inv sp t xs H" using assms by (auto simp: space_at_def)
  then show thesis using space_invD [OF sp(2)] by (intro that)
qed

lemma space_at_table: "space_at s a t xs H \<Longrightarrow> table_inv t xs"
  by (erule space_atD)

lemma get_entry_at:
  assumes "space_at s a t xs H" "i < length t"
  shows "get_entry s a i = Some (t ! i)"
  by (rule space_atD [OF assms(1)]) (simp add: get_entry_def nth_opt_in assms(2))


section \<open>One entry at a time\<close>

lemma table_inv_set_entry:
  assumes "table_inv t xs" "0 < i" "i < length t" "i \<notin> set xs" "gen_ok (ie_bits e)"
  shows "table_inv (t[i := e]) xs"
proof -
  have "fl_path (t[i := e]) 0 xs = fl_path t 0 xs"
    by (rule fl_path_cong) (use assms in \<open>auto simp: nth_list_update\<close>)
  then show ?thesis
    using assms by (auto simp: table_inv_def nth_list_update intro!: table_sized_upd)
qed

lemma mod_entry_at:
  assumes at: "space_at s a t xs H" and i: "0 < i" "i < length t" "i \<notin> set xs"
    and e: "gen_ok (ie_bits (f (t ! i)))" "i \<in> H \<Longrightarrow> ie_object (f (t ! i)) = ie_object (t ! i)"
      "ie_index (f (t ! i)) = ie_index (t ! i)" "ie_dist (f (t ! i)) = ie_dist (t ! i)"
  obtains s' where "mod_entry s a i f = Some s'" "only_space a s s'" "space_at s' a (t[i := f (t ! i)]) xs H"
proof -
  obtain sp where sp: "spaces s a = Some sp" "space_inv sp t xs H" "is_active_table sp = Some t"
    using at by (rule space_atD)
  note D = space_invD [OF sp(2)]
  let ?t = "t[i := f (t ! i)]"
  have "hash_inv ?t H" "hash_exact ?t"
    using hash_inv_set_entry [OF D(5) i(2) _ e(3,4)] e(2) D(8) by blast+
  then have "space_inv (sp\<lparr>is_table := Some ?t\<rparr>) ?t xs H"
    using sp(2) table_inv_set_entry [OF D(3) i e(1)] by (simp add: space_inv_def)
  then show thesis
    using that [of "s\<lparr>spaces := (spaces s)(a \<mapsto> sp\<lparr>is_table := Some ?t\<rparr>)\<rparr>"] sp i(2) only_space_upd
    by (simp add: mod_entry_def on_space_def nth_opt_in space_at_def)
qed

lemma modified_at:
  assumes at: "space_at s a t xs H" and i: "i < length t" "unat (MACH_PORT_INDEX name) = i"
  obtains s' where "sp_entry_modified s a name i = Some s'" "only_space a s s'" "space_at s' a t xs H"
proof -
  obtain sp where sp: "spaces s a = Some sp" "space_inv sp t xs H" using at by (rule space_atD)
  have inv: "is_table sp = Some t" "table_sized t" "unat (is_low_mod sp) \<le> length t" "unat (is_high_mod sp) < length t"
    using sp(2) by (auto simp: space_inv_def table_inv_def)
  obtain l h where lh: "ipc_entry_modified sp name i = Some (sp\<lparr>is_low_mod := l, is_high_mod := h\<rparr>)"
    "unat l \<le> i" "unat h < length t"
    using ipc_entry_modified_spec [OF inv i] by metis
  then have "space_inv (sp\<lparr>is_low_mod := l, is_high_mod := h\<rparr>) t xs H"
    using sp(2) i(1) by (simp add: space_inv_def)
  then show thesis
    using that [of "s\<lparr>spaces := (spaces s)(a \<mapsto> sp\<lparr>is_low_mod := l, is_high_mod := h\<rparr>)\<rparr>"] sp lh(1) only_space_upd
    by (simp add: on_space_def space_at_def)
qed

lemma dealloc_at:
  assumes at: "space_at s a t xs H" and i: "0 < i" "i < length t" "i \<notin> set xs" "i \<notin> H"
    and req: "ie_request (t ! i) = IE_REQ_NONE"
  obtains s' where "sp_entry_dealloc s a (ie_object (t ! i)) (entry_name t i) i = Some s'" "only_space a s s'"
    "space_at s' a (dealloc_table t i) (i # xs) H"
proof -
  obtain sp where sp: "spaces s a = Some sp" "space_inv sp t xs H" using at by (rule space_atD)
  obtain sp' where "ipc_entry_dealloc sp (ie_object (t ! i)) (entry_name t i) i = Some sp'"
    "space_inv sp' (dealloc_table t i) (i # xs) H"
    using ipc_entry_dealloc_spec [OF sp(2) i req] by blast
  then show thesis
    using that [of "s\<lparr>spaces := (spaces s)(a \<mapsto> sp')\<rparr>"] sp only_space_upd by (simp add: on_space_def space_at_def)
qed

lemma hash_delete_at:
  assumes at: "space_at s a t xs H" and i: "i \<in> H" "unat (MACH_PORT_INDEX name) = i"
  obtains s' t' where "sp_hash_delete s a (ie_object (t ! i)) name i = Some s'" "only_space a s s'" "same_caps t t'"
    "space_at s' a t' xs (H - {i})"
proof -
  obtain sp where sp: "spaces s a = Some sp" "space_inv sp t xs H" using at by (rule space_atD)
  obtain sp' t' where "ipc_hash_delete sp (ie_object (t ! i)) name i = Some sp'" "same_caps t t'"
    "space_inv sp' t' xs (H - {i})"
    using ipc_hash_delete_spec [OF sp(2) i] by metis
  then show thesis
    using that [of "s\<lparr>spaces := (spaces s)(a \<mapsto> sp')\<rparr>"] sp only_space_upd by (simp add: on_space_def space_at_def)
qed

lemma hash_insert_at:
  assumes at: "space_at s a t xs H" and i: "0 < i" "i < length t" "i \<notin> H"
    and obj: "ie_object (t ! i) \<noteq> IO_NULL" "\<forall>j\<in>H. ie_object (t ! j) \<noteq> ie_object (t ! i)"
    and card: "card H \<le> IPC_ENTRY_DIST_MAX" and index: "unat (MACH_PORT_INDEX name) = i"
  obtains s' t' where "sp_hash_insert s a (ie_object (t ! i)) name i = Some s'" "only_space a s s'" "same_caps t t'"
    "space_at s' a t' xs (insert i H)"
proof -
  obtain sp where sp: "spaces s a = Some sp" "space_inv sp t xs H" using at by (rule space_atD)
  obtain sp' t' where "ipc_hash_insert sp (ie_object (t ! i)) name i = Some sp'" "same_caps t t'"
    "space_inv sp' t' xs (insert i H)"
    using ipc_hash_insert_spec [OF sp(2) i obj card index] by metis
  then show thesis
    using that [of "s\<lparr>spaces := (spaces s)(a \<mapsto> sp')\<rparr>"] sp only_space_upd by (simp add: on_space_def space_at_def)
qed

lemma lookup_write_at:
  assumes "space_at s a t xs H" "caps t name = Some c"
  shows "ipc_right_lookup_write s a name = Some (KERN_SUCCESS, unat (MACH_PORT_INDEX name))"
proof -
  obtain sp where sp: "spaces s a = Some sp" "space_inv sp t xs H" "is_active_table sp = Some t" "is_active sp"
    using assms(1) by (rule space_atD)
  obtain i where i: "0 < i" "i < length t" "name = entry_name t i" "IE_BITS_TYPE (ie_bits (t ! i)) \<noteq> 0"
    using assms(2) by (rule caps_SomeE)
  have "ipc_entry_lookup sp name = Some (Some i)"
    using i by (simp add: ipc_entry_lookup_Some_iff [OF sp(2)] mach_consts)
  then show ?thesis
    using sp entry_name_facts(1) [OF space_invD(3) [OF sp(2)] i(1,2)] i(3) by (simp add: ipc_right_lookup_write_def)
qed

end
