(* ===== verification/Right_Caps.thy ===== *)
theory Right_Caps
imports Right_Space
begin

text \<open>
  What the right layer does to one name, in terms of the capabilities of a well-formed space: changing
  the user references of an entry, taking a send right out of the table, and that these steps do not
  depend on the ports.
\<close>

section \<open>One capability\<close>

lemma wf_atD:
  assumes "wf_at s a t xs"
  shows "space_at s a t xs (sends t)" "set xs = frees t" "table_inv t xs"
  using assms space_at_table by (auto simp: wf_at_def)

lemma caps_used:
  assumes "wf_at s a t xs" "caps t name = Some (obj, ty, n)"
  obtains i where "0 < i" "i < length t" "name = entry_name t i" "unat (MACH_PORT_INDEX name) = i" "i \<notin> set xs"
    "ie_object (t ! i) = obj" "IE_BITS_TYPE (ie_bits (t ! i)) = ty" "IE_BITS_UREFS (ie_bits (t ! i)) = n" "ty \<noteq> 0"
proof -
  obtain i where i: "0 < i" "i < length t" "name = entry_name t i" "IE_BITS_TYPE (ie_bits (t ! i)) \<noteq> 0"
    "(obj, ty, n) = cap_of (t ! i)" using assms(2) by (rule caps_SomeE)
  show thesis
    using i that entry_name_facts(1) [OF wf_atD(3) [OF assms(1)] i(1,2)] wf_atD(2) [OF assms(1)]
    by (auto simp: cap_of_def frees_def)
qed

lemma caps_upd:
  assumes inv: "table_inv t xs" and i: "0 < i" "i < length t"
    and e: "IE_BITS_GEN (ie_bits e) = IE_BITS_GEN (ie_bits (t ! i))" "IE_BITS_TYPE (ie_bits e) \<noteq> 0"
  shows "caps (t[i := e]) = (caps t)(entry_name t i \<mapsto> cap_of e)"
proof
  fix name
  have name: "entry_name (t[i := e]) j = entry_name t j" for j
    using e(1) i by (cases "j = i") (simp_all add: entry_name_def)
  show "caps (t[i := e]) name = ((caps t)(entry_name t i \<mapsto> cap_of e)) name"
  proof (cases "unat (MACH_PORT_INDEX name) = i")
    case True
    then show ?thesis using i e(2) entry_name_facts(1) [OF inv i] by (auto simp: caps_def Let_def name)
  next
    case False
    then have "name \<noteq> entry_name t i" using entry_name_facts(1) [OF inv i] by auto
    then show ?thesis using False by (simp add: caps_def Let_def name)
  qed
qed

lemma sends_upd:
  assumes "0 < i" "i < length t" "IE_BITS_TYPE (ie_bits e) = IE_BITS_TYPE (ie_bits (t ! i))" "ie_object e = ie_object (t ! i)"
  shows "sends (t[i := e]) = sends t" "frees (t[i := e]) = frees t"
  using assms by (auto simp: sends_def frees_def nth_list_update)

text \<open>New bits with the same generation and type: the user references change, nothing else.\<close>

lemma set_bits_at:
  assumes wf: "wf_at s a t xs" and i: "0 < i" "i < length t" "i \<notin> set xs"
    and b: "b AND 0xffff0000 = ie_bits (t ! i) AND 0xffff0000"
  obtains s' t' where "set_ie_bits s a i b = Some s'" "only_space a s s'" "wf_at s' a t' xs" "length t' = length t"
    "sends t' = sends t"
    "caps t' = (caps t)(entry_name t i \<mapsto> (ie_object (t ! i), IE_BITS_TYPE (ie_bits (t ! i)), IE_BITS_UREFS b))"
proof -
  note D = wf_atD [OF wf]
  let ?e = "(t ! i)\<lparr>ie_bits := b\<rparr>"
  have ok: "gen_ok (ie_bits (t ! i))" using D(3) i by (simp add: table_inv_def)
  have ty: "IE_BITS_TYPE (ie_bits (t ! i)) \<noteq> 0" using i D(2) by (auto simp: frees_def)
  obtain s' where s': "set_ie_bits s a i b = Some s'" "only_space a s s'" "space_at s' a (t[i := ?e]) xs (sends t)"
    using mod_entry_at [OF D(1) i, of "\<lambda>e. e\<lparr>ie_bits := b\<rparr>"] high_fields(3) [OF b] ok by auto
  have "caps (t[i := ?e]) = (caps t)(entry_name t i \<mapsto> cap_of ?e)"
    using high_fields [OF b] ty by (intro caps_upd [OF D(3) i(1,2)]) simp_all
  moreover have "wf_at s' a (t[i := ?e]) xs"
    using s'(3) sends_upd [OF i(1,2), of ?e] high_fields(1) [OF b] D(2) by (simp add: wf_at_def)
  moreover have "sends (t[i := ?e]) = sends t"
    by (rule sends_upd(1) [OF i(1,2)]) (simp_all add: high_fields(1) [OF b])
  ultimately show thesis using that [OF s'(1,2)] high_fields(1) [OF b] by (simp add: cap_of_def)
qed

text \<open>A pure send right leaves the hash and the table.\<close>

lemma sends_dealloc:
  assumes "table_inv t xs" "0 < i" "i < length t" "i \<notin> set xs"
  shows "sends (dealloc_table t i) = sends t - {i}" "frees (dealloc_table t i) = insert i (frees t)"
proof -
  let ?t = "dealloc_table t i"
  have len: "length ?t = length t" by (simp add: dealloc_table_def)
  have other: "ie_bits (?t ! j) = ie_bits (t ! j) \<and> ie_object (?t ! j) = ie_object (t ! j)" if "j \<noteq> i" for j
    using that assms(2,3) less_trans [OF assms(2,3)] by (auto simp: dealloc_table_def nth_list_update)
  have ty: "IE_BITS_TYPE (ie_bits (?t ! i)) = 0"
    using fl_entry(3) [OF table_inv_dealloc [OF assms], of i] entry_unused_type by simp
  have i: "i \<notin> sends ?t" "i \<in> frees ?t" using assms(2,3) ty len by (simp_all add: sends_def frees_def mach_consts)
  have "sends ?t - {i} = sends t - {i}" "frees ?t - {i} = frees t - {i}" by (rule sends_frees_set [OF len other], assumption)+
  then show "sends ?t = sends t - {i}" "frees ?t = insert i (frees t)" using i by blast+
qed

lemma dealloc_wf_at:
  assumes at: "space_at s a t xs (sends t - {i})" and free: "set xs = frees t"
    and i: "0 < i" "i < length t" "i \<notin> set xs" and req: "ie_request (t ! i) = IE_REQ_NONE"
  obtains s' t' where "sp_entry_dealloc s a (ie_object (t ! i)) (entry_name t i) i = Some s'" "only_space a s s'"
    "wf_at s' a t' (i # xs)" "caps t' = (caps t)(entry_name t i := None)"
proof -
  note inv = space_at_table [OF at]
  obtain s' where s': "sp_entry_dealloc s a (ie_object (t ! i)) (entry_name t i) i = Some s'" "only_space a s s'"
    "space_at s' a (dealloc_table t i) (i # xs) (sends t - {i})"
    using dealloc_at [OF at i _ req] by auto
  then have "wf_at s' a (dealloc_table t i) (i # xs)"
    using sends_dealloc [OF inv i] free by (simp add: wf_at_def)
  then show thesis using that s'(1,2) caps_dealloc [OF inv i] by blast
qed

lemma remove_send_at:
  assumes wf: "wf_at s a t xs" and i: "0 < i" "i < length t" and req: "ie_request (t ! i) = IE_REQ_NONE"
    and send: "IE_BITS_TYPE (ie_bits (t ! i)) = MACH_PORT_TYPE_SEND" "ie_object (t ! i) \<noteq> IO_NULL"
  obtains s1 s' t' where "sp_hash_delete s a (ie_object (t ! i)) (entry_name t i) i = Some s1"
    "sp_entry_dealloc s1 a (ie_object (t ! i)) (entry_name t i) i = Some s'" "only_space a s s'"
    "wf_at s' a t' (i # xs)" "caps t' = (caps t)(entry_name t i := None)"
proof -
  note D = wf_atD [OF wf]
  have mem: "i \<in> sends t" using i send by (simp add: sends_def)
  have used: "i \<notin> set xs" using send(1) D(2) by (auto simp: frees_def mach_consts)
  obtain s1 t1 where s1: "sp_hash_delete s a (ie_object (t ! i)) (entry_name t i) i = Some s1" "only_space a s s1"
    "same_caps t t1" "space_at s1 a t1 xs (sends t - {i})"
    using hash_delete_at [OF D(1) mem entry_name_facts(1) [OF D(3) i]] by blast
  have same: "length t1 = length t" "ie_object (t1 ! i) = ie_object (t ! i)" "ie_bits (t1 ! i) = ie_bits (t ! i)"
    "ie_request (t1 ! i) = IE_REQ_NONE" "sends t1 = sends t" "frees t1 = frees t" "entry_name t1 i = entry_name t i"
    using s1(3) i(2) sends_same_caps [OF s1(3)] req by (auto simp: same_caps_def frees_def entry_name_def)
  have c: "caps t1 = caps t"
    by (rule caps_eqI [OF D(3) space_at_table [OF s1(4)]]) (use s1(3) in \<open>auto simp: same_caps_def same_cap_def\<close>)
  obtain s' t' where "sp_entry_dealloc s1 a (ie_object (t1 ! i)) (entry_name t1 i) i = Some s'" "only_space a s1 s'"
    "wf_at s' a t' (i # xs)" "caps t' = (caps t1)(entry_name t1 i := None)"
    using dealloc_wf_at [of s1 a t1 xs i] s1(4) D(2) i used same by metis
  then show thesis using that [OF s1(1)] only_space_trans [OF s1(2)] by (simp add: same c)
qed


section \<open>Space steps and ports\<close>

text \<open>A step on a space neither reads nor writes the ports.\<close>

lemma on_space_ports: "on_space (s\<lparr>ports := P\<rparr>) a f = map_option (\<lambda>s'. s'\<lparr>ports := P\<rparr>) (on_space s a f)"
  by (cases "spaces s a"; cases "f (the (spaces s a))") (simp_all add: on_space_def)

lemma get_entry_ports [simp]: "get_entry (s\<lparr>ports := P\<rparr>) a i = get_entry s a i"
  by (simp add: get_entry_def)

lemma get_entry_events [simp]: "get_entry (s\<lparr>events := E\<rparr>) a i = get_entry s a i"
  by (simp add: get_entry_def)

lemma only_space_eq: "only_space a s s' \<Longrightarrow> s' = s\<lparr>spaces := spaces s'\<rparr>"
  by (simp add: only_space_def)

text \<open>Dropping a send right of a live port only writes the ports, and neither reads nor writes the spaces.\<close>

lemma drop_send_spaces:
  assumes "ports s p = Some port" "ip_active port"
  shows "ipc_right_drop_send (s\<lparr>spaces := X\<rparr>) p ty =
    map_option (\<lambda>(s', n). (s'\<lparr>spaces := X\<rparr>, n)) (ipc_right_drop_send s p ty)"
  using assms
  by (simp add: ipc_right_drop_send_def mod_port_def ipc_notify_no_senders_prepare_def kassert_def io_active_def)

lemma drop_send_ports:
  assumes "ports s p = Some port" "ip_active port" "ipc_right_drop_send s p ty = Some (s', n)"
  obtains P where "s' = s\<lparr>ports := P\<rparr>"
proof -
  have "\<exists>P. s' = s\<lparr>ports := P\<rparr>"
    using assms
    by (auto simp: ipc_right_drop_send_def mod_port_def ipc_notify_no_senders_prepare_def kassert_def io_active_def
        split: if_splits intro: exI [of _ "ports s"])
  then show thesis using that by blast
qed

lemma release_drop:
  assumes "ports s p = Some port" "ip_active port"
  shows "ipc_port_release_send_and_unlock s p = do {
    (s, n) \<leftarrow> ipc_right_drop_send s p MACH_PORT_TYPE_SEND;
    s \<leftarrow> ip_release s p;
    ipc_notify_no_senders_emit s n
  }"
  using assms
  by (simp add: ipc_port_release_send_and_unlock_def ipc_right_drop_send_def mod_port_def kassert_def word_gt_0 mach_consts)

end
