(* ===== verification/Ipc_Object.thy ===== *)
theory Ipc_Object
imports Ipc_Right
begin

text \<open>
  Objects and capabilities: \<^verbatim>\<open>osfmk/ipc/ipc_object.c\<close>, the allocation of ports and port sets in a space
  (\<^verbatim>\<open>ipc_port.c\<close>, \<^verbatim>\<open>ipc_pset.c\<close>), the label check of \<^verbatim>\<open>kern/ipc_kobject.c\<close> and the copyout of naked send
  rights.  \<open>addr\<close> is the address the zone allocator returns; \<open>mem\<close> says whether there is memory for a
  table of a given size.  Where a function fails, an output name is \<open>MACH_PORT_NULL\<close>.
\<close>

section \<open>Translation\<close>

definition ipc_object_translate ::
    "ipc_state \<Rightarrow> ipc_space_t \<Rightarrow> mach_port_name_t \<Rightarrow> mach_port_right_t \<Rightarrow>
     (kern_return_t \<times> ipc_object_t) option" where
  "ipc_object_translate s space name right =
     (if \<not> MACH_PORT_RIGHT_VALID_TRANSLATE right then Some (KERN_INVALID_RIGHT, IO_NULL)
      else do {
        (kr, b, object) \<leftarrow> ipc_right_lookup_read s space name;
        if kr \<noteq> KERN_SUCCESS then Some (kr, IO_NULL)
        else if b AND MACH_PORT_TYPE right = MACH_PORT_TYPE_NONE then Some (KERN_INVALID_RIGHT, IO_NULL)
        else Some (KERN_SUCCESS, object)
      })"

definition io_object_active :: "ipc_state \<Rightarrow> ipc_object_t \<Rightarrow> bool option" where
  "io_object_active s io =
     (case ports s io of
        Some port \<Rightarrow> Some (ip_active port)
      | None \<Rightarrow> do { pset \<leftarrow> psets s io; Some (ips_active pset) })"

text \<open>A missing right raises a guard exception unless a receive right was asked for that the entry had.\<close>

definition translate_two_invalid ::
    "ipc_state \<Rightarrow> mach_port_name_t \<Rightarrow> mach_port_right_t \<Rightarrow> ipc_entry_bits_t \<Rightarrow> ipc_state" where
  "translate_two_invalid s name right b =
     (if right AND MACH_PORT_RIGHT_RECEIVE = MACH_PORT_RIGHT_RECEIVE \<and>
         b AND MACH_PORT_TYPE_EX_RECEIVE = MACH_PORT_TYPE_EX_RECEIVE
      then s else mach_port_guard_exception s name 0 0 kGUARD_EXC_INVALID_RIGHT)"

definition ipc_object_translate_two ::
    "ipc_state \<Rightarrow> ipc_space_t \<Rightarrow> mach_port_name_t \<Rightarrow> mach_port_right_t \<Rightarrow> mach_port_name_t \<Rightarrow>
     mach_port_right_t \<Rightarrow> (ipc_state \<times> kern_return_t \<times> ipc_object_t \<times> ipc_object_t) option" where
  "ipc_object_translate_two s space name1 right1 name2 right2 = do {
     (s, kr, i1, i2) \<leftarrow> ipc_right_lookup_two_write s space name1 name2;
     if kr \<noteq> KERN_SUCCESS then Some (s, kr, IO_NULL, IO_NULL)
     else do {
       e1 \<leftarrow> get_entry s space i1;
       e2 \<leftarrow> get_entry s space i2;
       if ie_bits e1 AND MACH_PORT_TYPE right1 = MACH_PORT_TYPE_NONE
       then Some (translate_two_invalid s name1 right1 (ie_bits e1), KERN_INVALID_RIGHT, IO_NULL, IO_NULL)
       else if ie_bits e2 AND MACH_PORT_TYPE right2 = MACH_PORT_TYPE_NONE
       then Some (translate_two_invalid s name2 right2 (ie_bits e2), KERN_INVALID_RIGHT, IO_NULL, IO_NULL)
       else do {
         kassert (ie_object e1 \<noteq> IO_NULL);
         active1 \<leftarrow> io_object_active s (ie_object e1);
         if \<not> active1 then Some (s, KERN_INVALID_NAME, IO_NULL, IO_NULL)
         else do {
           kassert (ie_object e2 \<noteq> IO_NULL);
           active2 \<leftarrow> io_object_active s (ie_object e2);
           if \<not> active2 then Some (s, KERN_INVALID_NAME, IO_NULL, IO_NULL)
           else Some (s, KERN_SUCCESS, ie_object e1, ie_object e2)
         }
       }
     }
   }"

definition ipc_port_translate_send ::
    "ipc_state \<Rightarrow> ipc_space_t \<Rightarrow> mach_port_name_t \<Rightarrow> (kern_return_t \<times> ipc_port_t) option" where
  "ipc_port_translate_send s space name = ipc_object_translate s space name MACH_PORT_RIGHT_SEND"

definition ipc_port_translate_receive ::
    "ipc_state \<Rightarrow> ipc_space_t \<Rightarrow> mach_port_name_t \<Rightarrow> (kern_return_t \<times> ipc_port_t) option" where
  "ipc_port_translate_receive s space name = do {
     (kr, object) \<leftarrow> ipc_object_translate s space name MACH_PORT_RIGHT_RECEIVE;
     if kr = KERN_SUCCESS
     then do {
       port \<leftarrow> ports s object;
       kassert (ip_in_space port space);
       Some (kr, object)
     }
     else Some (kr, IP_NULL)
   }"


section \<open>Allocation\<close>

definition sp_entry_alloc ::
    "(nat \<Rightarrow> bool) \<Rightarrow> ipc_state \<Rightarrow> ipc_space_t \<Rightarrow> ipc_object_t \<Rightarrow>
     (ipc_state \<times> kern_return_t \<times> (mach_port_name_t \<times> nat) option) option" where
  "sp_entry_alloc mem s space object = do {
     sp \<leftarrow> spaces s space;
     (sp, kr, r) \<leftarrow> ipc_entry_alloc mem sp object;
     Some (s\<lparr>spaces := (spaces s)(space \<mapsto> sp)\<rparr>, kr, r)
   }"

definition sp_entry_alloc_name ::
    "(nat \<Rightarrow> bool) \<Rightarrow> ipc_state \<Rightarrow> ipc_space_t \<Rightarrow> mach_port_name_t \<Rightarrow>
     (ipc_state \<times> kern_return_t \<times> nat option) option" where
  "sp_entry_alloc_name mem s space name = do {
     sp \<leftarrow> spaces s space;
     (sp, kr, r) \<leftarrow> ipc_entry_alloc_name mem sp name;
     Some (s\<lparr>spaces := (spaces s)(space \<mapsto> sp)\<rparr>, kr, r)
   }"

definition ipc_object_alloc_dead ::
    "(nat \<Rightarrow> bool) \<Rightarrow> ipc_state \<Rightarrow> ipc_space_t \<Rightarrow> (ipc_state \<times> kern_return_t \<times> mach_port_name_t) option" where
  "ipc_object_alloc_dead mem s space = do {
     (s, kr, r) \<leftarrow> sp_entry_alloc mem s space IO_NULL;
     if kr \<noteq> KERN_SUCCESS then Some (s, kr, MACH_PORT_NULL)
     else do {
       (name, entry) \<leftarrow> r;
       s \<leftarrow> mod_entry s space entry (\<lambda>e. e\<lparr>ie_bits := ie_bits e OR (MACH_PORT_TYPE_DEAD_NAME OR 1)\<rparr>);
       s \<leftarrow> sp_entry_modified s space name entry;
       Some (s, KERN_SUCCESS, name)
     }
   }"

definition ipc_object_alloc_dead_name ::
    "(nat \<Rightarrow> bool) \<Rightarrow> ipc_state \<Rightarrow> ipc_space_t \<Rightarrow> mach_port_name_t \<Rightarrow> (ipc_state \<times> kern_return_t) option" where
  "ipc_object_alloc_dead_name mem s space name = do {
     (s, kr, r) \<leftarrow> sp_entry_alloc_name mem s space name;
     if kr \<noteq> KERN_SUCCESS then Some (s, kr)
     else do {
       entry \<leftarrow> r;
       e \<leftarrow> get_entry s space entry;
       if ipc_right_inuse e then Some (s, KERN_NAME_EXISTS)
       else do {
         kassert (ie_object e = IO_NULL);
         s \<leftarrow> mod_entry s space entry (\<lambda>e. e\<lparr>ie_bits := ie_bits e OR (MACH_PORT_TYPE_DEAD_NAME OR 1)\<rparr>);
         s \<leftarrow> sp_entry_modified s space name entry;
         Some (s, KERN_SUCCESS)
       }
     }
   }"

definition io_alloc_port :: ipc_port where
  "io_alloc_port = ipc_port_zero\<lparr>io_bits := io_makebits True IOT_PORT 0, io_references := 1\<rparr>"

definition io_alloc_pset :: ipc_pset where
  "io_alloc_pset = \<lparr>io_bits = io_makebits True IOT_PORT_SET 0, io_references = 1, ips_waitq_valid = False,
                    ips_wqset_index = 0\<rparr>"

definition io_new :: "ipc_state \<Rightarrow> 32 word \<Rightarrow> ipc_object_t \<Rightarrow> ipc_state" where
  "io_new s otype addr =
     (if otype = IOT_PORT then s\<lparr>ports := (ports s)(addr \<mapsto> io_alloc_port)\<rparr>
      else s\<lparr>psets := (psets s)(addr \<mapsto> io_alloc_pset)\<rparr>)"

definition io_unalloc :: "ipc_state \<Rightarrow> 32 word \<Rightarrow> ipc_object_t \<Rightarrow> ipc_state" where
  "io_unalloc s otype addr =
     (if otype = IOT_PORT then s\<lparr>ports := (ports s)(addr := None)\<rparr>
      else s\<lparr>psets := (psets s)(addr := None)\<rparr>)"

definition ipc_object_alloc ::
    "(nat \<Rightarrow> bool) \<Rightarrow> ipc_object_t \<Rightarrow> ipc_state \<Rightarrow> ipc_space_t \<Rightarrow> 32 word \<Rightarrow> mach_port_type_t \<Rightarrow>
     mach_port_urefs_t \<Rightarrow> (ipc_state \<times> kern_return_t \<times> mach_port_name_t) option" where
  "ipc_object_alloc mem addr s space otype type urefs = do {
     kassert (otype < IOT_NUMBER);
     kassert (type AND MACH_PORT_TYPE_ALL_RIGHTS = type);
     kassert (type \<noteq> MACH_PORT_TYPE_NONE);
     kassert (urefs \<le> MACH_PORT_UREFS_MAX);
     (s, kr, r) \<leftarrow> sp_entry_alloc mem (io_new s otype addr) space addr;
     if kr \<noteq> KERN_SUCCESS then Some (io_unalloc s otype addr, kr, MACH_PORT_NULL)
     else do {
       (name, entry) \<leftarrow> r;
       s \<leftarrow> mod_entry s space entry (\<lambda>e. e\<lparr>ie_bits := ie_bits e OR (type OR urefs)\<rparr>);
       s \<leftarrow> sp_entry_modified s space name entry;
       Some (s, KERN_SUCCESS, name)
     }
   }"

text \<open>\<open>finish_init\<close> completes the object once it is in its entry.\<close>

definition ipc_object_alloc_name ::
    "(nat \<Rightarrow> bool) \<Rightarrow> ipc_object_t \<Rightarrow> ipc_state \<Rightarrow> ipc_space_t \<Rightarrow> 32 word \<Rightarrow> mach_port_type_t \<Rightarrow>
     mach_port_urefs_t \<Rightarrow> mach_port_name_t \<Rightarrow> (ipc_state \<Rightarrow> ipc_state option) \<Rightarrow>
     (ipc_state \<times> kern_return_t) option" where
  "ipc_object_alloc_name mem addr s space otype type urefs name finish_init = do {
     kassert (otype < IOT_NUMBER);
     kassert (type AND MACH_PORT_TYPE_ALL_RIGHTS = type);
     kassert (type \<noteq> MACH_PORT_TYPE_NONE);
     kassert (urefs \<le> MACH_PORT_UREFS_MAX);
     (s, kr, r) \<leftarrow> sp_entry_alloc_name mem (io_new s otype addr) space name;
     if kr \<noteq> KERN_SUCCESS then Some (io_unalloc s otype addr, kr)
     else do {
       entry \<leftarrow> r;
       e \<leftarrow> get_entry s space entry;
       if ipc_right_inuse e then Some (io_unalloc s otype addr, KERN_NAME_EXISTS)
       else do {
         s \<leftarrow> mod_entry s space entry (\<lambda>e. e\<lparr>ie_bits := ie_bits e OR (type OR urefs), ie_object := addr\<rparr>);
         s \<leftarrow> finish_init s;
         s \<leftarrow> sp_entry_modified s space name entry;
         Some (s, KERN_SUCCESS)
       }
     }
   }"

definition ipc_port_alloc ::
    "(nat \<Rightarrow> bool) \<Rightarrow> ipc_object_t \<Rightarrow> ipc_state \<Rightarrow> ipc_space_t \<Rightarrow> 32 word \<Rightarrow>
     (ipc_state \<times> kern_return_t \<times> mach_port_name_t) option" where
  "ipc_port_alloc mem addr s space flags = do {
     let send = (flags AND IPC_PORT_INIT_MAKE_SEND_RIGHT \<noteq> 0);
     (s, kr, name) \<leftarrow> ipc_object_alloc mem addr s space IOT_PORT
       (if send then MACH_PORT_TYPE_RECEIVE OR MACH_PORT_TYPE_SEND else MACH_PORT_TYPE_RECEIVE)
       (if send then 1 else 0);
     if kr \<noteq> KERN_SUCCESS then Some (s, kr, MACH_PORT_NULL)
     else do {
       s \<leftarrow> mod_port s addr (\<lambda>port. ipc_port_init port space flags name);
       Some (s, KERN_SUCCESS, name)
     }
   }"

definition ipc_port_alloc_name ::
    "(nat \<Rightarrow> bool) \<Rightarrow> ipc_object_t \<Rightarrow> ipc_state \<Rightarrow> ipc_space_t \<Rightarrow> 32 word \<Rightarrow> mach_port_name_t \<Rightarrow>
     (ipc_state \<times> kern_return_t) option" where
  "ipc_port_alloc_name mem addr s space flags name =
     (let send = (flags AND IPC_PORT_INIT_MAKE_SEND_RIGHT \<noteq> 0)
      in ipc_object_alloc_name mem addr s space IOT_PORT
           (if send then MACH_PORT_TYPE_RECEIVE OR MACH_PORT_TYPE_SEND else MACH_PORT_TYPE_RECEIVE)
           (if send then 1 else 0) name
           (\<lambda>s. mod_port s addr (\<lambda>port. ipc_port_init port space flags name)))"

definition ipc_pset_alloc ::
    "(nat \<Rightarrow> bool) \<Rightarrow> ipc_object_t \<Rightarrow> ipc_state \<Rightarrow> ipc_space_t \<Rightarrow>
     (ipc_state \<times> kern_return_t \<times> mach_port_name_t) option" where
  "ipc_pset_alloc mem addr s space = do {
     (s, kr, name) \<leftarrow> ipc_object_alloc mem addr s space IOT_PORT_SET MACH_PORT_TYPE_PORT_SET 0;
     if kr \<noteq> KERN_SUCCESS then Some (s, kr, MACH_PORT_NULL)
     else do {
       s \<leftarrow> mod_pset s addr (\<lambda>pset. ipc_port_set_init pset name);
       Some (s, KERN_SUCCESS, name)
     }
   }"

definition ipc_pset_alloc_name ::
    "(nat \<Rightarrow> bool) \<Rightarrow> ipc_object_t \<Rightarrow> ipc_state \<Rightarrow> ipc_space_t \<Rightarrow> mach_port_name_t \<Rightarrow>
     (ipc_state \<times> kern_return_t) option" where
  "ipc_pset_alloc_name mem addr s space name =
     ipc_object_alloc_name mem addr s space IOT_PORT_SET MACH_PORT_TYPE_PORT_SET 0 name
       (\<lambda>s. mod_pset s addr (\<lambda>pset. ipc_port_set_init pset name))"


section \<open>Copying capabilities in\<close>

definition MACH_MSG_TYPE_PORT_NONE :: mach_msg_type_name_t where
  "MACH_MSG_TYPE_PORT_NONE = 0"

definition ipc_object_copyin_type :: "mach_msg_type_name_t \<Rightarrow> mach_msg_type_name_t" where
  "ipc_object_copyin_type msgt_name =
     (if msgt_name = MACH_MSG_TYPE_MOVE_RECEIVE then MACH_MSG_TYPE_PORT_RECEIVE
      else if msgt_name = MACH_MSG_TYPE_MOVE_SEND_ONCE \<or> msgt_name = MACH_MSG_TYPE_MAKE_SEND_ONCE
      then MACH_MSG_TYPE_PORT_SEND_ONCE
      else if msgt_name = MACH_MSG_TYPE_MOVE_SEND \<or> msgt_name = MACH_MSG_TYPE_MAKE_SEND \<or>
              msgt_name = MACH_MSG_TYPE_COPY_SEND
      then MACH_MSG_TYPE_PORT_SEND
      else MACH_MSG_TYPE_PORT_NONE)"

definition ipc_object_copyin ::
    "ipc_state \<Rightarrow> ipc_space_t \<Rightarrow> mach_port_name_t \<Rightarrow> mach_msg_type_name_t \<Rightarrow> 64 word \<Rightarrow>
     mach_msg_guard_flags_t option \<Rightarrow> 16 word \<Rightarrow> (ipc_state \<times> kern_return_t \<times> ipc_object_t) option" where
  "ipc_object_copyin s space name msgt_name context guard_flags copyin_flags = do {
     let irc_flags = (copyin_flags AND IPC_OBJECT_COPYIN_FLAGS_ALLOW_IMMOVABLE_SEND)
                     OR IPC_OBJECT_COPYIN_FLAGS_DEADOK;
     (kr, entry) \<leftarrow> ipc_right_lookup_write s space name;
     if kr \<noteq> KERN_SUCCESS then Some (s, kr, IO_NULL)
     else do {
       (s, kr, r) \<leftarrow> ipc_right_copyin s space name entry msgt_name irc_flags context guard_flags;
       let imp = current_imp_base (env s);
       let s = (if sint (ci_assertcnt r) > 0 \<and> is_any_receiver_type (env s) imp
                then event s (Importance_drop imp (ci_assertcnt r)) else s);
       s \<leftarrow> (if ci_release r \<noteq> IP_NULL then ip_release s (ci_release r) else Some s);
       let s = (if kr = KERN_SUCCESS \<and> ci_soright r \<noteq> IP_NULL
                then ipc_notify_port_deleted s (ci_soright r) name else s);
       Some (s, kr, ci_object r)
     }
   }"

definition ipc_object_copyin_from_kernel ::
    "ipc_state \<Rightarrow> ipc_object_t \<Rightarrow> mach_msg_type_name_t \<Rightarrow> ipc_state option" where
  "ipc_object_copyin_from_kernel s p msgt_name = do {
     kassert (IO_VALID p);
     port \<leftarrow> ports s p;
     if msgt_name = MACH_MSG_TYPE_MOVE_RECEIVE
     then do {
       require_ip_active port;
       if ip_in_a_space port
       then do {
         kassert (ip_in_space port (ipc_space_kernel (env s)));
         kassert (\<not> ip_immovable_receive port);
         mod_port s p (\<lambda>port. port\<lparr>ip_mscount := 0, ip_receiver_name := MACH_PORT_NULL, ip_receiver := IP_NULL\<rparr>)
       }
       else Some s
     }
     else if msgt_name = MACH_MSG_TYPE_COPY_SEND
     then do {
       kassert (ip_active port \<longrightarrow> ip_srights port > 0);
       s \<leftarrow> mod_port s p (\<lambda>port. port\<lparr>ip_srights := ip_srights port + 1\<rparr>);
       ip_reference s p
     }
     else if msgt_name = MACH_MSG_TYPE_MAKE_SEND
     then do {
       kassert (ip_active port \<longrightarrow> ip_in_a_space port \<and>
                (ip_in_space port (ipc_space_kernel (env s)) \<or> is_remote_node (env s) (ip_receiver port)));
       s \<leftarrow> (if ip_active port
            then mod_port s p (\<lambda>port. port\<lparr>ip_mscount := ip_mscount port + 1\<rparr>) else Some s);
       s \<leftarrow> mod_port s p (\<lambda>port. port\<lparr>ip_srights := ip_srights port + 1\<rparr>);
       ip_reference s p
     }
     else if msgt_name = MACH_MSG_TYPE_MOVE_SEND
     then do { kassert (ip_srights port \<noteq> 0); Some s }
     else if msgt_name = MACH_MSG_TYPE_MAKE_SEND_ONCE
     then do {
       kassert (ip_active port \<longrightarrow> ip_in_a_space port);
       ipc_port_make_sonce_locked s p
     }
     else if msgt_name = MACH_MSG_TYPE_MOVE_SEND_ONCE
     then do { kassert (ip_sorights port \<noteq> 0); Some s }
     else None
   }"

definition ipc_object_destroy :: "ipc_state \<Rightarrow> ipc_object_t \<Rightarrow> mach_msg_type_name_t \<Rightarrow> ipc_state option" where
  "ipc_object_destroy s p msgt_name = do {
     kassert (IO_VALID p);
     port \<leftarrow> ports s p;
     kassert (io_otype port = IOT_PORT);
     if msgt_name = MACH_MSG_TYPE_PORT_SEND then ipc_port_release_send s p
     else if msgt_name = MACH_MSG_TYPE_PORT_SEND_ONCE then ipc_notify_send_once_and_unlock s p
     else if msgt_name = MACH_MSG_TYPE_PORT_RECEIVE then ipc_port_release_receive s p
     else None
   }"

definition ipc_object_destroy_dest ::
    "ipc_state \<Rightarrow> ipc_object_t \<Rightarrow> mach_msg_type_name_t \<Rightarrow> ipc_state option" where
  "ipc_object_destroy_dest s p msgt_name = do {
     kassert (IO_VALID p);
     port \<leftarrow> ports s p;
     kassert (io_otype port = IOT_PORT);
     if msgt_name = MACH_MSG_TYPE_PORT_SEND then ipc_port_release_send s p
     else if msgt_name = MACH_MSG_TYPE_PORT_SEND_ONCE then ipc_notify_send_once_and_unlock s p
     else None
   }"

definition ipc_object_insert_send_right ::
    "ipc_state \<Rightarrow> ipc_space_t \<Rightarrow> mach_port_name_t \<Rightarrow> mach_msg_type_name_t \<Rightarrow>
     (ipc_state \<times> kern_return_t) option" where
  "ipc_object_insert_send_right s space name msgt_name = do {
     kassert (msgt_name = MACH_MSG_TYPE_MAKE_SEND \<or> msgt_name = MACH_MSG_TYPE_COPY_SEND);
     (kr, entry) \<leftarrow> ipc_right_lookup_write s space name;
     if kr \<noteq> KERN_SUCCESS then Some (s, kr)
     else do {
       e \<leftarrow> get_entry s space entry;
       if \<not> IO_VALID (ie_object e) then Some (s, KERN_INVALID_CAPABILITY)
       else do {
         let b = ie_bits e;
         let object = ie_object e;
         active \<leftarrow> io_object_active s object;
         if \<not> active then Some (s, KERN_INVALID_CAPABILITY)
         else if msgt_name = MACH_MSG_TYPE_MAKE_SEND
         then if b AND MACH_PORT_TYPE_RECEIVE \<noteq> 0
           then do {
             s \<leftarrow> mod_port s object (\<lambda>port. port\<lparr>ip_mscount := ip_mscount port + 1\<rparr>);
             (s, b) \<leftarrow>
               (if b AND MACH_PORT_TYPE_SEND = 0
                then do {
                  s \<leftarrow> mod_port s object (\<lambda>port. port\<lparr>ip_srights := ip_srights port + 1\<rparr>);
                  Some (s, b OR MACH_PORT_TYPE_SEND)
                }
                else Some (s, b));
             let b = (if IE_BITS_UREFS b < MACH_PORT_UREFS_MAX then b + 1 else b);
             s \<leftarrow> set_ie_bits s space entry b;
             s \<leftarrow> sp_entry_modified s space name entry;
             Some (s, KERN_SUCCESS)
           }
           else Some (s, KERN_INVALID_RIGHT)
         else if b AND MACH_PORT_TYPE_SEND \<noteq> 0
         then do {
           s \<leftarrow> (if IE_BITS_UREFS b < MACH_PORT_UREFS_MAX then set_ie_bits s space entry (b + 1) else Some s);
           s \<leftarrow> sp_entry_modified s space name entry;
           Some (s, KERN_SUCCESS)
         }
         else Some (s, KERN_INVALID_RIGHT)
       }
     }
   }"


section \<open>Labels of kernel objects\<close>

definition IPC_LABEL_SPACE_MASK :: ipc_label_t where
  "IPC_LABEL_SPACE_MASK = 0x00ff"

definition IPC_LABEL_SUBST_TASK :: ipc_label_t where
  "IPC_LABEL_SUBST_TASK = 0x0100"

definition IPC_LABEL_SUBST_THREAD :: ipc_label_t where
  "IPC_LABEL_SUBST_THREAD = 0x0200"

definition IPC_LABEL_SUBST_ONCE :: ipc_label_t where
  "IPC_LABEL_SUBST_ONCE = 0x0300"

definition IPC_LABEL_SUBST_MASK :: ipc_label_t where
  "IPC_LABEL_SUBST_MASK = 0xff00"

definition IPC_OBJECT_COPYOUT_FLAGS_NO_LABEL_CHECK :: "32 word" where
  "IPC_OBJECT_COPYOUT_FLAGS_NO_LABEL_CHECK = 0x2"

definition IKOT_PORT_SUBST_ONCE :: "32 word" where
  "IKOT_PORT_SUBST_ONCE = 9"

definition ipc_kobject_disable_internal :: "ipc_state \<Rightarrow> ipc_port_t \<Rightarrow> (ipc_state \<times> 64 word) option" where
  "ipc_kobject_disable_internal s p = do {
     port \<leftarrow> ports s p;
     s \<leftarrow> mod_port s p (\<lambda>port. port\<lparr>ip_kobject := 0\<rparr>);
     Some (if ip_is_kolabeled port
           then s\<lparr>ikol_alt_port := (ikol_alt_port s)(ip_kolabel port := IP_NULL)\<rparr> else s, ip_kobject port)
   }"

definition ipc_kobject_disable_locked :: "ipc_state \<Rightarrow> ipc_port_t \<Rightarrow> 32 word \<Rightarrow> (ipc_state \<times> 64 word) option" where
  "ipc_kobject_disable_locked s p type = do {
     port \<leftarrow> ports s p;
     kassert (ip_active port \<longrightarrow> \<not> iko_op_stable (env s) type);
     kassert (ip_kotype port = type);
     ipc_kobject_disable_internal s p
   }"

definition ipc_kobject_label_substitute_task :: "ipc_state \<Rightarrow> ipc_space_t \<Rightarrow> ipc_port \<Rightarrow> ipc_port_t" where
  "ipc_kobject_label_substitute_task s space port =
     (if ip_kobject port \<noteq> 0 \<and> ip_kobject port = is_task (env s) space
      then ikol_alt_port s (ip_kolabel port) else IP_NULL)"

definition ipc_kobject_label_substitute_thread :: "ipc_state \<Rightarrow> ipc_space_t \<Rightarrow> ipc_port \<Rightarrow> ipc_port_t" where
  "ipc_kobject_label_substitute_thread s space port =
     (if ip_kobject port \<noteq> 0 \<and> is_task (env s) space = get_threadtask (env s) (ip_kobject port)
      then ikol_alt_port s (ip_kolabel port) else IP_NULL)"

text \<open>
  The result of the check: whether the copyout is authorised, the flags afterwards and the port to
  copy out instead, \<open>IP_NULL\<close> for none.  A substitution consumes the send right of the original.
\<close>

definition ipc_kobject_label_check ::
    "ipc_state \<Rightarrow> ipc_space_t \<Rightarrow> ipc_port_t \<Rightarrow> mach_msg_type_name_t \<Rightarrow> 32 word \<Rightarrow>
     (ipc_state \<times> bool \<times> 32 word \<times> ipc_port_t) option" where
  "ipc_kobject_label_check s space p msgt_name flags = do {
     sp \<leftarrow> spaces s space;
     kassert (is_active sp);
     port \<leftarrow> ports s p;
     kassert (ip_active port);
     if \<not> ip_is_kolabeled port then Some (s, True, flags, IP_NULL)
     else do {
       kassert (msgt_name \<noteq> MACH_MSG_TYPE_PORT_RECEIVE);
       let label = ikol_label s (ip_kolabel port);
       let allowed = (label AND is_label sp AND IPC_LABEL_SPACE_MASK = label AND IPC_LABEL_SPACE_MASK);
       let kind = label AND IPC_LABEL_SUBST_MASK;
       if flags AND IPC_OBJECT_COPYOUT_FLAGS_NO_LABEL_CHECK = 0 \<and> kind \<noteq> 0
       then if msgt_name \<noteq> MACH_MSG_TYPE_PORT_SEND then Some (s, False, flags, IP_NULL)
         else if kind = IPC_LABEL_SUBST_ONCE
         then do {
           (s, subst) \<leftarrow> ipc_kobject_disable_locked s p IKOT_PORT_SUBST_ONCE;
           s \<leftarrow> ipc_port_release_send_and_unlock s p;
           kassert (subst \<noteq> IP_NULL);
           Some (s, True, flags OR IPC_OBJECT_COPYOUT_FLAGS_NO_LABEL_CHECK, subst)
         }
         else do {
           kassert (kind = IPC_LABEL_SUBST_TASK \<or> kind = IPC_LABEL_SUBST_THREAD);
           let subst = (if kind = IPC_LABEL_SUBST_TASK then ipc_kobject_label_substitute_task s space port
                        else ipc_kobject_label_substitute_thread s space port);
           if subst \<noteq> IP_NULL
           then do {
             s \<leftarrow> ip_reference s subst;
             s \<leftarrow> ipc_port_release_send_and_unlock s p;
             (s, q) \<leftarrow> ipc_port_make_send s subst;
             s \<leftarrow> ip_release s subst;
             Some (s, True, flags, q)
           }
           else Some (s, allowed, flags, IP_NULL)
         }
       else Some (s, allowed, flags, IP_NULL)
     }
   }"


section \<open>Copying capabilities out\<close>

definition ITH_KNOTE_VALID :: "64 word \<Rightarrow> mach_msg_type_name_t \<Rightarrow> bool" where
  "ITH_KNOTE_VALID kn msgt_name \<longleftrightarrow>
     kn \<noteq> ITH_KNOTE_NULL \<and> kn \<noteq> ITH_KNOTE_PSEUDO \<and>
     (msgt_name = MACH_MSG_TYPE_PORT_RECEIVE \<or> msgt_name = MACH_MSG_TYPE_PORT_SEND_ONCE)"

text \<open>
  The loop of \<open>ipc_object_copyout\<close>: room for an entry is made, and a labelled port may be replaced.
  The result is the state, the return code, the object in the end and the flags.
\<close>

partial_function (option) ipc_object_copyout_loop ::
    "(nat \<Rightarrow> bool) \<Rightarrow> ipc_state \<Rightarrow> ipc_space_t \<Rightarrow> ipc_object_t \<Rightarrow> mach_msg_type_name_t \<Rightarrow> 32 word \<Rightarrow>
     (ipc_state \<times> kern_return_t \<times> ipc_object_t \<times> 32 word) option" where
  "ipc_object_copyout_loop mem s space object msgt_name flags = do {
     sp \<leftarrow> spaces s space;
     if \<not> is_active sp then Some (s, KERN_INVALID_TASK, object, flags)
     else do {
       (sp, kr) \<leftarrow> ipc_entries_hold sp 1;
       let s = s\<lparr>spaces := (spaces s)(space \<mapsto> sp)\<rparr>;
       if kr \<noteq> KERN_SUCCESS
       then do {
         (sp, kr) \<leftarrow> ipc_entry_grow_table mem sp ITS_SIZE_NONE;
         let s = s\<lparr>spaces := (spaces s)(space \<mapsto> sp)\<rparr>;
         if kr \<noteq> KERN_SUCCESS then Some (s, kr, object, flags)
         else ipc_object_copyout_loop mem s space object msgt_name flags
       }
       else do {
         port \<leftarrow> ports s object;
         if \<not> ip_active port then Some (s, KERN_INVALID_CAPABILITY, object, flags)
         else do {
           (s, ok, flags, port_subst) \<leftarrow> ipc_kobject_label_check s space object msgt_name flags;
           if \<not> ok
           then do { kassert (port_subst = IP_NULL); Some (s, KERN_INVALID_CAPABILITY, object, flags) }
           else if port_subst \<noteq> IP_NULL
           then do {
             kassert (msgt_name = MACH_MSG_TYPE_PORT_SEND);
             if \<not> IP_VALID port_subst then Some (s, KERN_INVALID_CAPABILITY, IO_DEAD, flags)
             else ipc_object_copyout_loop mem s space port_subst msgt_name flags
           }
           else Some (s, KERN_SUCCESS, object, flags)
         }
       }
     }
   }"

definition ipc_object_copyout ::
    "(nat \<Rightarrow> bool) \<Rightarrow> ipc_state \<Rightarrow> ipc_space_t \<Rightarrow> ipc_object_t \<Rightarrow> mach_msg_type_name_t \<Rightarrow> 32 word \<Rightarrow>
     mach_msg_guard_flags_t option \<Rightarrow>
     (ipc_state \<times> kern_return_t \<times> mach_port_name_t \<times> copyout_outputs) option" where
  "ipc_object_copyout mem s space object msgt_name flags guard_flags = do {
     kassert (IO_VALID object);
     port \<leftarrow> ports s object;
     kassert (io_otype port = IOT_PORT);
     let s = (if ITH_KNOTE_VALID (ith_knote (env s)) msgt_name
              then event s (Knote_turnstile_prepare object) else s);
     (s, kr, object, flags) \<leftarrow> ipc_object_copyout_loop mem s space object msgt_name flags;
     if kr = KERN_SUCCESS
     then do {
       found \<leftarrow> (if msgt_name \<noteq> MACH_MSG_TYPE_PORT_SEND_ONCE then ipc_right_reverse s space object
                else Some None);
       (s, name, entry) \<leftarrow>
         (case found of
            Some (name, entry) \<Rightarrow> do {
              e \<leftarrow> get_entry s space entry;
              kassert (ie_bits e AND MACH_PORT_TYPE_SEND_RECEIVE \<noteq> 0);
              Some (s, name, entry)
            }
          | None \<Rightarrow> do {
              sp \<leftarrow> spaces s space;
              (sp, name, entry) \<leftarrow> ipc_entry_claim sp object;
              Some (s\<lparr>spaces := (spaces s)(space \<mapsto> sp)\<rparr>, name, entry)
            });
       (s, outputs) \<leftarrow> ipc_right_copyout s space name entry msgt_name flags guard_flags object;
       Some (s, KERN_SUCCESS, name, outputs)
     }
     else do {
       s \<leftarrow> (if IO_VALID object then ipc_object_destroy s object msgt_name else Some s);
       Some (s, kr, MACH_PORT_NULL, None)
     }
   }"

text \<open>A new entry that is not going to be used is given back.\<close>

definition copyout_name_undo ::
    "ipc_state \<Rightarrow> ipc_space_t \<Rightarrow> mach_port_name_t \<Rightarrow> nat \<Rightarrow> ipc_state option" where
  "copyout_name_undo s space name entry = do {
     e \<leftarrow> get_entry s space entry;
     if \<not> ipc_right_inuse e then sp_entry_dealloc s space IO_NULL name entry else Some s
   }"

definition ipc_object_copyout_name_final ::
    "ipc_state \<Rightarrow> ipc_space_t \<Rightarrow> ipc_object_t \<Rightarrow> mach_msg_type_name_t \<Rightarrow> mach_port_name_t \<Rightarrow> nat \<Rightarrow>
     ipc_state option" where
  "ipc_object_copyout_name_final s space object msgt_name name entry = do {
     port \<leftarrow> ports s object;
     let t = is_task (env s) space;
     let imp = task_imp_base (env s) t;
     let boost = (msgt_name = MACH_MSG_TYPE_PORT_RECEIVE \<and> t \<noteq> 0 \<and> is_any_receiver_type (env s) imp);
     let s = (if boost then event s (Importance_reference imp) else s);
     s \<leftarrow> (if msgt_name = MACH_MSG_TYPE_PORT_RECEIVE
          then mod_port s object (\<lambda>port. port\<lparr>ip_tempowner := False\<rparr>) else Some s);
     (s, _) \<leftarrow> ipc_right_copyout s space name entry msgt_name 0 None object;
     Some (if boost
           then event (event s (Importance_hold imp (ip_impcount port))) (Importance_release imp) else s)
   }"

definition ipc_object_copyout_name ::
    "(nat \<Rightarrow> bool) \<Rightarrow> ipc_state \<Rightarrow> ipc_space_t \<Rightarrow> ipc_object_t \<Rightarrow> mach_msg_type_name_t \<Rightarrow>
     mach_port_name_t \<Rightarrow> (ipc_state \<times> kern_return_t) option" where
  "ipc_object_copyout_name mem s space object msgt_name name = do {
     kassert (IO_VALID object);
     port \<leftarrow> ports s object;
     kassert (io_otype port = IOT_PORT);
     (s, kr, r) \<leftarrow> sp_entry_alloc_name mem s space name;
     if kr \<noteq> KERN_SUCCESS then Some (s, kr)
     else do {
       entry \<leftarrow> r;
       if \<not> ip_active port \<or> ip_is_kolabeled port
       then do { s \<leftarrow> copyout_name_undo s space name entry; Some (s, KERN_INVALID_CAPABILITY) }
       else do {
         found \<leftarrow> (if msgt_name \<noteq> MACH_MSG_TYPE_PORT_SEND_ONCE then ipc_right_reverse s space object
                  else Some None);
         e \<leftarrow> get_entry s space entry;
         case found of
           Some (oname, oentry) \<Rightarrow>
             if name \<noteq> oname
             then do { s \<leftarrow> copyout_name_undo s space name entry; Some (s, KERN_RIGHT_EXISTS) }
             else do {
               kassert (entry = oentry);
               kassert (ie_bits e AND MACH_PORT_TYPE_SEND_RECEIVE \<noteq> 0);
               s \<leftarrow> ipc_object_copyout_name_final s space object msgt_name name entry;
               Some (s, KERN_SUCCESS)
             }
         | None \<Rightarrow>
             if ipc_right_inuse e then Some (s, KERN_NAME_EXISTS)
             else do {
               kassert (ie_object e = IO_NULL);
               s \<leftarrow> mod_entry s space entry (\<lambda>e. e\<lparr>ie_object := object\<rparr>);
               s \<leftarrow> ipc_object_copyout_name_final s space object msgt_name name entry;
               Some (s, KERN_SUCCESS)
             }
       }
     }
   }"

definition ipc_object_copyout_dest ::
    "ipc_state \<Rightarrow> ipc_space_t \<Rightarrow> ipc_object_t \<Rightarrow> mach_msg_type_name_t \<Rightarrow>
     (ipc_state \<times> mach_port_name_t) option" where
  "ipc_object_copyout_dest s space p msgt_name = do {
     kassert (IO_VALID p);
     port \<leftarrow> ports s p;
     kassert (ip_active port);
     let name = (if ip_in_space port space then ip_get_receiver_name port else MACH_PORT_NULL);
     if msgt_name = MACH_MSG_TYPE_PORT_SEND
     then do {
       kassert (ip_srights port > 0);
       s \<leftarrow> mod_port s p (\<lambda>port. port\<lparr>ip_srights := ip_srights port - 1\<rparr>);
       (s, nsrequest) \<leftarrow> (if ip_srights port - 1 = 0 then ipc_notify_no_senders_prepare s p
                         else Some (s, nsenders_none));
       s \<leftarrow> ipc_notify_no_senders_emit (event s (Rcv_thread_boost_clear p)) nsrequest;
       s \<leftarrow> ip_release s p;
       Some (s, name)
     }
     else if msgt_name = MACH_MSG_TYPE_PORT_SEND_ONCE
     then do {
       kassert (ip_sorights port > 0);
       if ip_in_space port space
       then do {
         s \<leftarrow> mod_port s p (\<lambda>port. port\<lparr>ip_sorights := ip_sorights port - 1\<rparr>);
         s \<leftarrow> ip_release (event s (Rcv_thread_boost_clear p)) p;
         Some (s, name)
       }
       else do { s \<leftarrow> ipc_notify_send_once_and_unlock s p; Some (s, MACH_PORT_NULL) }
     }
     else None
   }"

definition ipc_port_copyout_send_internal ::
    "(nat \<Rightarrow> bool) \<Rightarrow> ipc_state \<Rightarrow> ipc_port_t \<Rightarrow> ipc_space_t \<Rightarrow> 32 word \<Rightarrow>
     (ipc_state \<times> mach_port_name_t) option" where
  "ipc_port_copyout_send_internal mem s sright space flags =
     (if IP_VALID sright
      then do {
        (s, kr, name, _) \<leftarrow> ipc_object_copyout mem s space sright MACH_MSG_TYPE_PORT_SEND flags None;
        Some (s, if kr = KERN_SUCCESS then name
                 else if kr = KERN_INVALID_CAPABILITY then MACH_PORT_DEAD else MACH_PORT_NULL)
      }
      else Some (s, ucast sright))"

definition ipc_port_copyout_send ::
    "(nat \<Rightarrow> bool) \<Rightarrow> ipc_state \<Rightarrow> ipc_port_t \<Rightarrow> ipc_space_t \<Rightarrow> (ipc_state \<times> mach_port_name_t) option" where
  "ipc_port_copyout_send mem s sright space = ipc_port_copyout_send_internal mem s sright space 0"


section \<open>The end of a space\<close>

text \<open>
  The table is taken out of the space first; its rights are then terminated in two passes, receive
  rights before all others.  In the sequential model nobody is growing the table meanwhile.
\<close>

fun ipc_space_terminate_pass ::
    "(mach_port_type_t \<Rightarrow> bool) \<Rightarrow> ipc_space_t \<Rightarrow> nat \<Rightarrow> ipc_entry list \<Rightarrow> ipc_state \<Rightarrow>
     (ipc_state \<times> ipc_entry list) option" where
  "ipc_space_terminate_pass sel space index [] s = Some (s, [])"
| "ipc_space_terminate_pass sel space index (e # table) s = do {
     (s, e) \<leftarrow> (if sel (IE_BITS_TYPE (ie_bits e))
               then ipc_right_terminate s space
                      (MACH_PORT_MAKE (of_nat index) (IE_BITS_GEN (ie_bits e))) e
               else Some (s, e));
     (s, table) \<leftarrow> ipc_space_terminate_pass sel space (index + 1) table s;
     Some (s, e # table)
   }"

definition ipc_space_terminate :: "ipc_state \<Rightarrow> ipc_space_t \<Rightarrow> ipc_state option" where
  "ipc_space_terminate s space = do {
     kassert (space \<noteq> 0);
     sp \<leftarrow> spaces s space;
     if \<not> is_active sp then Some s
     else do {
       table \<leftarrow> is_active_table sp;
       let s = s\<lparr>spaces := (spaces s)(space \<mapsto> sp\<lparr>is_table := None\<rparr>)\<rparr>;
       (s, entries) \<leftarrow> ipc_space_terminate_pass (\<lambda>type. type AND MACH_PORT_TYPE_RECEIVE \<noteq> 0) space 1 (tl table) s;
       (s, entries) \<leftarrow> ipc_space_terminate_pass (\<lambda>type. type \<noteq> MACH_PORT_TYPE_NONE) space 1 entries s;
       sp \<leftarrow> spaces s space;
       sp \<leftarrow> ipc_space_release (sp\<lparr>is_table_free := 0\<rparr>);
       Some (s\<lparr>spaces := (spaces s)(space := sp)\<rparr>)
     }
   }"

end
