(* ===== verification/Ipc_Kobject.thy ===== *)
theory Ipc_Kobject
imports Ipc_Object
begin

text \<open>
  Ports of kernel objects, \<^verbatim>\<open>osfmk/kern/ipc_kobject.c\<close>: making them, arming the no-senders
  notification, enabling, disabling and destroying them, and ports that become kernel objects and
  ordinary receive rights again.  \<open>addr\<close> and \<open>labelp\<close> are the addresses the zone allocator returns.
  Pointer authentication is off and dispatching messages to MIG routines is not modelled.
\<close>

definition IKOT_NONE :: "32 word" where
  "IKOT_NONE = 0"

definition IKOT_HOST_NOTIFY :: "32 word" where
  "IKOT_HOST_NOTIFY = 16"

definition IPC_KOBJECT_ALLOC_MAKE_SEND :: "32 word" where
  "IPC_KOBJECT_ALLOC_MAKE_SEND = 0x00000001"

definition IPC_KOBJECT_ALLOC_NSREQUEST :: "32 word" where
  "IPC_KOBJECT_ALLOC_NSREQUEST = 0x00000002"

definition IPC_KOBJECT_ALLOC_NO_GRANT :: "32 word" where
  "IPC_KOBJECT_ALLOC_NO_GRANT = 0x00000004"

definition IPC_KOBJECT_ALLOC_IMMOVABLE_SEND :: "32 word" where
  "IPC_KOBJECT_ALLOC_IMMOVABLE_SEND = 0x00000008"

definition IPC_KOBJECT_ALLOC_PINNED :: "32 word" where
  "IPC_KOBJECT_ALLOC_PINNED = 0x00000020"

definition ipc_kobject_set_internal ::
    "ipc_state \<Rightarrow> ipc_port_t \<Rightarrow> 64 word \<Rightarrow> 32 word \<Rightarrow> ipc_state option" where
  "ipc_kobject_set_internal s p kobject type = do {
     kassert (type \<noteq> IKOT_NONE);
     mod_port s p (\<lambda>port. (io_bits_or port (type OR IO_BITS_KOBJECT))\<lparr>ip_kobject := kobject\<rparr>)
   }"

definition ipc_kobject_get_locked :: "ipc_port \<Rightarrow> 32 word \<Rightarrow> 64 word" where
  "ipc_kobject_get_locked port type = (if ip_active port \<and> type = ip_kotype port then ip_kobject port else 0)"

definition ipc_kobject_get_stable :: "ipc_state \<Rightarrow> ipc_port \<Rightarrow> 32 word \<Rightarrow> 64 word option" where
  "ipc_kobject_get_stable s port type = do {
     kassert (iko_op_stable (env s) type);
     Some (ipc_kobject_get_locked port type)
   }"

definition ipc_kobject_init_port ::
    "ipc_state \<Rightarrow> ipc_port_t \<Rightarrow> 64 word \<Rightarrow> 32 word \<Rightarrow> 32 word \<Rightarrow> ipc_state option" where
  "ipc_kobject_init_port s p kobject type options = do {
     s \<leftarrow> ipc_kobject_set_internal s p kobject type;
     s \<leftarrow> (if options AND IPC_KOBJECT_ALLOC_MAKE_SEND \<noteq> 0 then ipc_port_make_send_locked s p else Some s);
     s \<leftarrow> (if options AND IPC_KOBJECT_ALLOC_NSREQUEST \<noteq> 0
          then do {
            s \<leftarrow> mod_port s p (\<lambda>port. port\<lparr>ip_nsrequest := IP_KOBJECT_NSREQUEST_ARMED\<rparr>);
            ip_reference s p
          }
          else Some s);
     s \<leftarrow> (if options AND IPC_KOBJECT_ALLOC_NO_GRANT \<noteq> 0
          then mod_port s p (\<lambda>port. port\<lparr>ip_no_grant := True\<rparr>) else Some s);
     s \<leftarrow> (if options AND IPC_KOBJECT_ALLOC_IMMOVABLE_SEND \<noteq> 0
          then mod_port s p (\<lambda>port. port\<lparr>ip_immovable_send := True\<rparr>) else Some s);
     if options AND IPC_KOBJECT_ALLOC_PINNED \<noteq> 0
     then mod_port s p (\<lambda>port. port\<lparr>ip_pinned := True\<rparr>) else Some s
   }"

definition ipc_kobject_alloc_port ::
    "ipc_port_t \<Rightarrow> ipc_state \<Rightarrow> 64 word \<Rightarrow> 32 word \<Rightarrow> 32 word \<Rightarrow> (ipc_state \<times> ipc_port_t) option" where
  "ipc_kobject_alloc_port addr s kobject type options = do {
     let (s, p) = ipc_port_alloc_special addr s (ipc_space_kernel (env s)) 0;
     kassert (p \<noteq> IP_NULL);
     s \<leftarrow> ipc_kobject_init_port s p kobject type options;
     Some (s, p)
   }"

definition ipc_port_set_label ::
    "64 word \<Rightarrow> ipc_state \<Rightarrow> ipc_port_t \<Rightarrow> ipc_label_t \<Rightarrow> ipc_state option" where
  "ipc_port_set_label labelp s p label = do {
     port \<leftarrow> ports s p;
     kassert (\<not> ip_is_kolabeled port);
     let s = s\<lparr>ikol_label := (ikol_label s)(labelp := label),
               ikol_alt_port := (ikol_alt_port s)(labelp := IP_NULL)\<rparr>;
     mod_port s p (\<lambda>port. io_bits_or (port\<lparr>ip_splabel := labelp\<rparr>) IO_BITS_KOLABEL)
   }"

definition ipc_kobject_alloc_labeled_port ::
    "ipc_port_t \<Rightarrow> 64 word \<Rightarrow> ipc_state \<Rightarrow> 64 word \<Rightarrow> 32 word \<Rightarrow> ipc_label_t \<Rightarrow> 32 word \<Rightarrow>
     (ipc_state \<times> ipc_port_t) option" where
  "ipc_kobject_alloc_labeled_port addr labelp s kobject type label options = do {
     (s, p) \<leftarrow> ipc_kobject_alloc_port addr s kobject type options;
     s \<leftarrow> ipc_port_set_label labelp s p label;
     Some (s, p)
   }"

definition ipc_kobject_alloc_subst_once ::
    "ipc_port_t \<Rightarrow> 64 word \<Rightarrow> ipc_state \<Rightarrow> ipc_port_t \<Rightarrow> (ipc_state \<times> ipc_port_t) option" where
  "ipc_kobject_alloc_subst_once addr labelp s target_port =
     (if \<not> IP_VALID target_port then Some (s, target_port)
      else ipc_kobject_alloc_labeled_port addr labelp s target_port IKOT_PORT_SUBST_ONCE IPC_LABEL_SUBST_ONCE
             (IPC_KOBJECT_ALLOC_MAKE_SEND OR IPC_KOBJECT_ALLOC_NSREQUEST))"


section \<open>No-senders notifications\<close>

definition ipc_kobject_nsrequest_locked ::
    "ipc_state \<Rightarrow> ipc_port_t \<Rightarrow> mach_port_mscount_t \<Rightarrow> (ipc_state \<times> kern_return_t) option" where
  "ipc_kobject_nsrequest_locked s p sync = do {
     port \<leftarrow> ports s p;
     if ip_nsrequest port = IP_KOBJECT_NSREQUEST_ARMED then Some (s, KERN_ALREADY_WAITING)
     else if ip_srights port = 0 \<and> sync \<le> ip_mscount port then Some (s, KERN_FAILURE)
     else do {
       s \<leftarrow> mod_port s p (\<lambda>port. port\<lparr>ip_nsrequest := IP_KOBJECT_NSREQUEST_ARMED\<rparr>);
       s \<leftarrow> ip_reference s p;
       Some (s, KERN_SUCCESS)
     }
   }"

text \<open>The third component is what is stored as the make-send count.\<close>

definition ipc_kobject_nsrequest ::
    "ipc_state \<Rightarrow> ipc_port_t \<Rightarrow> mach_port_mscount_t \<Rightarrow>
     (ipc_state \<times> kern_return_t \<times> mach_port_mscount_t) option" where
  "ipc_kobject_nsrequest s p sync =
     (if IP_VALID p
      then do {
        port \<leftarrow> ports s p;
        if ip_active port
        then do {
          (s, r) \<leftarrow> ipc_kobject_nsrequest_locked s p sync;
          Some (s, r, ip_mscount port)
        }
        else Some (s, KERN_INVALID_RIGHT, ip_mscount port)
      }
      else Some (s, KERN_INVALID_RIGHT, 0))"

definition ipc_kobject_make_send_nsrequest ::
    "ipc_state \<Rightarrow> ipc_port_t \<Rightarrow> (ipc_state \<times> kern_return_t) option" where
  "ipc_kobject_make_send_nsrequest s p =
     (if IP_VALID p
      then do {
        port \<leftarrow> ports s p;
        if ip_active port
        then do {
          s \<leftarrow> ipc_port_make_send_locked s p;
          (s, r) \<leftarrow> ipc_kobject_nsrequest_locked s p 0;
          kassert (r \<noteq> KERN_FAILURE);
          Some (s, r)
        }
        else Some (s, KERN_INVALID_RIGHT)
      }
      else Some (s, KERN_INVALID_RIGHT))"


section \<open>Destroying and changing kernel objects\<close>

definition ipc_kobject_dealloc_port ::
    "ipc_state \<Rightarrow> ipc_port_t \<Rightarrow> mach_port_mscount_t \<Rightarrow> 32 word \<Rightarrow> (ipc_state \<times> 64 word) option" where
  "ipc_kobject_dealloc_port s p mscount type = do {
     port \<leftarrow> ports s p;
     require_ip_active port;
     kassert (ip_kotype port = type);
     kassert (mscount \<noteq> 0 \<longrightarrow> ip_mscount port = mscount);
     kassert (mscount \<noteq> 0 \<or> iko_op_stable (env s) type \<longrightarrow> ip_srights port = 0);
     (s, kobject) \<leftarrow> (if \<not> iko_op_destroy (env s) type then ipc_kobject_disable_internal s p else Some (s, 0));
     s \<leftarrow> ipc_port_dealloc_special s p (ipc_space_kernel (env s));
     Some (s, kobject)
   }"

definition ipc_kobject_subst_once_no_senders ::
    "ipc_state \<Rightarrow> ipc_port_t \<Rightarrow> mach_port_mscount_t \<Rightarrow> ipc_state option" where
  "ipc_kobject_subst_once_no_senders s p mscount = do {
     (s, ko_port) \<leftarrow> ipc_kobject_dealloc_port s p mscount IKOT_PORT_SUBST_ONCE;
     if ko_port \<noteq> 0 then ipc_port_release_send s ko_port else Some s
   }"

text \<open>
  \<open>stored\<close> is the port the location holds, \<open>raced\<close> the one another thread stores there meanwhile,
  \<open>IP_NULL\<close> for none.  The result is the state, the port the location holds afterwards and whether
  a notification was armed.
\<close>

definition ipc_kobject_make_send_lazy_alloc_port ::
    "ipc_port_t \<Rightarrow> ipc_state \<Rightarrow> ipc_port_t \<Rightarrow> ipc_port_t \<Rightarrow> 64 word \<Rightarrow> 32 word \<Rightarrow> 32 word \<Rightarrow>
     (ipc_state \<times> ipc_port_t \<times> bool) option" where
  "ipc_kobject_make_send_lazy_alloc_port addr s stored raced kobject type alloc_opts = do {
     (s, p, won) \<leftarrow>
       (if \<not> IP_VALID stored
        then do {
          (s, p) \<leftarrow> ipc_kobject_alloc_port addr s kobject type
                     (IPC_KOBJECT_ALLOC_MAKE_SEND OR IPC_KOBJECT_ALLOC_NSREQUEST OR alloc_opts);
          if raced = IP_NULL then Some (s, p, True)
          else do {
            s \<leftarrow> mod_port s p (\<lambda>port. port\<lparr>ip_mscount := 0, ip_srights := 0\<rparr>);
            s \<leftarrow> ip_release_live s p;
            (s, _) \<leftarrow> ipc_kobject_dealloc_port s p 0 type;
            Some (s, raced, False)
          }
        }
        else Some (s, stored, False));
     if won then Some (s, p, True)
     else do {
       (s, r) \<leftarrow> ipc_kobject_make_send_nsrequest s p;
       kassert (r = KERN_SUCCESS \<or> r = KERN_ALREADY_WAITING);
       Some (s, p, r = KERN_SUCCESS)
     }
   }"

definition ipc_kobject_make_send_lazy_alloc_labeled_port ::
    "ipc_port_t \<Rightarrow> 64 word \<Rightarrow> ipc_state \<Rightarrow> ipc_port_t \<Rightarrow> ipc_port_t \<Rightarrow> 64 word \<Rightarrow> 32 word \<Rightarrow> ipc_label_t \<Rightarrow>
     (ipc_state \<times> ipc_port_t \<times> bool) option" where
  "ipc_kobject_make_send_lazy_alloc_labeled_port addr labelp s stored raced kobject type label = do {
     (s, p, won) \<leftarrow>
       (if \<not> IP_VALID stored
        then do {
          (s, p) \<leftarrow> ipc_kobject_alloc_labeled_port addr labelp s kobject type label
                     (IPC_KOBJECT_ALLOC_MAKE_SEND OR IPC_KOBJECT_ALLOC_NSREQUEST);
          if raced = IP_NULL then Some (s, p, True)
          else do {
            s \<leftarrow> mod_port s p (\<lambda>port. port\<lparr>ip_mscount := 0, ip_srights := 0\<rparr>);
            s \<leftarrow> ip_release_live s p;
            (s, _) \<leftarrow> ipc_kobject_dealloc_port s p 0 type;
            port \<leftarrow> ports s raced;
            kassert (ip_is_kolabeled port);
            Some (s, raced, False)
          }
        }
        else Some (s, stored, False));
     if won then Some (s, p, True)
     else do {
       (s, r) \<leftarrow> ipc_kobject_make_send_nsrequest s p;
       kassert (r = KERN_SUCCESS \<or> r = KERN_ALREADY_WAITING);
       Some (s, p, r = KERN_SUCCESS)
     }
   }"

definition ipc_kobject_enable :: "ipc_state \<Rightarrow> ipc_port_t \<Rightarrow> 64 word \<Rightarrow> 32 word \<Rightarrow> ipc_state option" where
  "ipc_kobject_enable s p kobject type = do {
     kassert (\<not> iko_op_stable (env s) type);
     port \<leftarrow> ports s p;
     require_ip_active port;
     kassert (type = ip_kotype port);
     mod_port s p (\<lambda>port. port\<lparr>ip_kobject := kobject\<rparr>)
   }"

definition ipc_kobject_may_upgrade :: "ipc_state \<Rightarrow> ipc_port \<Rightarrow> bool option" where
  "ipc_kobject_may_upgrade s port =
     (if \<not> ip_active port \<or> ip_kotype port \<noteq> IKOT_NONE then Some False
      else if ip_tempowner port \<or> ip_specialreply port then Some False
      else if ip_has_watchport port then Some False
      else do { prd \<leftarrow> ipc_port_has_prdrequest s port; Some (\<not> prd) })"

definition ipc_kobject_upgrade_locked :: "ipc_state \<Rightarrow> ipc_port_t \<Rightarrow> 64 word \<Rightarrow> 32 word \<Rightarrow> ipc_state option" where
  "ipc_kobject_upgrade_locked s p kobject type = do {
     port \<leftarrow> ports s p;
     may \<leftarrow> ipc_kobject_may_upgrade s port;
     kassert may;
     kassert (iko_op_allow_upgrade (env s) type);
     ipc_kobject_set_internal s p kobject type
   }"

definition ipc_kobject_upgrade ::
    "ipc_state \<Rightarrow> ipc_port_t \<Rightarrow> 64 word \<Rightarrow> 32 word \<Rightarrow> (ipc_state \<times> kern_return_t) option" where
  "ipc_kobject_upgrade s p kobject type = do {
     kassert (iko_op_allow_upgrade (env s) type);
     port \<leftarrow> ports s p;
     may \<leftarrow> ipc_kobject_may_upgrade s port;
     if may
     then do { s \<leftarrow> ipc_kobject_set_internal s p kobject type; Some (s, KERN_SUCCESS) }
     else Some (s, KERN_INVALID_CAPABILITY)
   }"

definition ipc_kobject_downgrade_host_notify :: "ipc_state \<Rightarrow> ipc_port_t \<Rightarrow> (ipc_state \<times> 64 word) option" where
  "ipc_kobject_downgrade_host_notify s p = do {
     port \<leftarrow> ports s p;
     if ip_kotype port = IKOT_HOST_NOTIFY
     then do {
       (s, kobject) \<leftarrow> ipc_kobject_disable_locked s p IKOT_HOST_NOTIFY;
       s \<leftarrow> mod_port s p (\<lambda>port. io_bits_andnot port IO_BITS_KOTYPE);
       Some (s, kobject)
     }
     else Some (s, 0)
   }"

end
