(* ===== verification/Mach_Port.thy ===== *)
theory Mach_Port
imports Ipc_Kobject
begin

text \<open>
  The kernel calls on port names, \<^verbatim>\<open>osfmk/ipc/mach_port.c\<close>: allocation, destruction, user references,
  notification requests, moving rights between spaces, attributes and guards.  \<open>addr\<close> is the address
  the zone allocator returns for a new port or port set, \<open>IS_NULL\<close> the null space.  An output that a
  call does not write is \<open>None\<close>, a name \<open>MACH_PORT_NULL\<close>.
\<close>

abbreviation IS_NULL :: ipc_space_t where
  "IS_NULL \<equiv> 0"


section \<open>Allocation\<close>

definition MAX_TRAILER_SIZE :: "32 word" where
  "MAX_TRAILER_SIZE = 68"

definition MACH_MSG_SIZE_MAX :: "32 word" where
  "MACH_MSG_SIZE_MAX = NOT 0"

definition IPC_PORT_INIT_MESSAGE_QUEUE :: "32 word" where
  "IPC_PORT_INIT_MESSAGE_QUEUE = 0x00000002"

record mach_port_qos =
  qos_name :: bool
  qos_prealloc :: bool
  qos_len :: "32 word"

definition mach_port_allocate_full ::
    "(nat \<Rightarrow> bool) \<Rightarrow> ipc_object_t \<Rightarrow> ipc_state \<Rightarrow> ipc_space_t \<Rightarrow> mach_port_right_t \<Rightarrow> 64 word \<Rightarrow>
     mach_port_qos \<Rightarrow> mach_port_name_t \<Rightarrow> (ipc_state \<times> kern_return_t \<times> mach_port_name_t) option" where
  "mach_port_allocate_full mem addr s space right proto qos name =
     (if space = IS_NULL then Some (s, KERN_INVALID_TASK, name)
      else if proto \<noteq> 0 then Some (s, KERN_INVALID_VALUE, name)
      else if qos_name qos \<and> \<not> MACH_PORT_VALID name then Some (s, KERN_INVALID_VALUE, name)
      else if qos_prealloc qos \<and> qos_len qos > MACH_MSG_SIZE_MAX - MAX_TRAILER_SIZE
      then Some (s, KERN_RESOURCE_SHORTAGE, name)
      else if qos_prealloc qos \<and> right \<noteq> MACH_PORT_RIGHT_RECEIVE then Some (s, KERN_INVALID_VALUE, name)
      else if right = MACH_PORT_RIGHT_RECEIVE
      then if qos_name qos
        then do {
          (s, kr) \<leftarrow> ipc_port_alloc_name mem addr s space IPC_PORT_INIT_MESSAGE_QUEUE name;
          Some (s, kr, name)
        }
        else ipc_port_alloc mem addr s space IPC_PORT_INIT_MESSAGE_QUEUE
      else if right = MACH_PORT_RIGHT_PORT_SET
      then if qos_name qos
        then do { (s, kr) \<leftarrow> ipc_pset_alloc_name mem addr s space name; Some (s, kr, name) }
        else ipc_pset_alloc mem addr s space
      else if right = MACH_PORT_RIGHT_DEAD_NAME then ipc_object_alloc_dead mem s space
      else Some (s, KERN_INVALID_VALUE, name))"

definition mach_port_allocate_name ::
    "(nat \<Rightarrow> bool) \<Rightarrow> ipc_object_t \<Rightarrow> ipc_state \<Rightarrow> ipc_space_t \<Rightarrow> mach_port_right_t \<Rightarrow> mach_port_name_t \<Rightarrow>
     (ipc_state \<times> kern_return_t) option" where
  "mach_port_allocate_name mem addr s space right name =
     (if \<not> MACH_PORT_VALID name then Some (s, KERN_INVALID_VALUE)
      else do {
        (s, kr, _) \<leftarrow> mach_port_allocate_full mem addr s space right 0
                        \<lparr>qos_name = True, qos_prealloc = False, qos_len = 0\<rparr> name;
        Some (s, kr)
      })"

definition mach_port_allocate ::
    "(nat \<Rightarrow> bool) \<Rightarrow> ipc_object_t \<Rightarrow> ipc_state \<Rightarrow> ipc_space_t \<Rightarrow> mach_port_right_t \<Rightarrow>
     (ipc_state \<times> kern_return_t \<times> mach_port_name_t) option" where
  "mach_port_allocate mem addr s space right =
     mach_port_allocate_full mem addr s space right 0
       \<lparr>qos_name = False, qos_prealloc = False, qos_len = 0\<rparr> MACH_PORT_NULL"

definition mach_port_allocate_qos ::
    "(nat \<Rightarrow> bool) \<Rightarrow> ipc_object_t \<Rightarrow> ipc_state \<Rightarrow> ipc_space_t \<Rightarrow> mach_port_right_t \<Rightarrow> mach_port_qos \<Rightarrow>
     (ipc_state \<times> kern_return_t \<times> mach_port_name_t) option" where
  "mach_port_allocate_qos mem addr s space right qos =
     (if qos_name qos then Some (s, KERN_INVALID_ARGUMENT, MACH_PORT_NULL)
      else mach_port_allocate_full mem addr s space right 0 qos MACH_PORT_NULL)"


section \<open>User references\<close>

definition mach_port_type ::
    "ipc_state \<Rightarrow> ipc_space_t \<Rightarrow> mach_port_name_t \<Rightarrow>
     (ipc_state \<times> kern_return_t \<times> mach_port_type_t option) option" where
  "mach_port_type s space name =
     (if space = IS_NULL then Some (s, KERN_INVALID_TASK, None)
      else if name = MACH_PORT_NULL then Some (s, KERN_INVALID_NAME, None)
      else if name = MACH_PORT_DEAD then Some (s, KERN_SUCCESS, Some MACH_PORT_TYPE_DEAD_NAME)
      else do {
        (kr, entry) \<leftarrow> ipc_right_lookup_write s space name;
        if kr \<noteq> KERN_SUCCESS then Some (s, kr, None)
        else do {
          (s, type, _) \<leftarrow> ipc_right_info s space name entry;
          Some (s, KERN_SUCCESS,
                Some (type AND NOT (MACH_PORT_TYPE_SPREQUEST OR MACH_PORT_TYPE_SPREQUEST_DELAYED)))
        }
      })"

definition mach_port_rename ::
    "ipc_state \<Rightarrow> ipc_space_t \<Rightarrow> mach_port_name_t \<Rightarrow> mach_port_name_t \<Rightarrow> ipc_state \<times> kern_return_t" where
  "mach_port_rename s space oname nname = (s, KERN_NOT_SUPPORTED)"

definition mach_port_destroy ::
    "ipc_state \<Rightarrow> ipc_space_t \<Rightarrow> mach_port_name_t \<Rightarrow> (ipc_state \<times> kern_return_t) option" where
  "mach_port_destroy s space name =
     (if space = IS_NULL then Some (s, KERN_INVALID_TASK)
      else if \<not> MACH_PORT_VALID name then Some (s, KERN_SUCCESS)
      else do {
        (kr, entry) \<leftarrow> ipc_right_lookup_write s space name;
        if kr \<noteq> KERN_SUCCESS then Some (mach_port_guard_exception s name 0 0 kGUARD_EXC_INVALID_NAME, kr)
        else ipc_right_destroy s space name entry True 0
      })"

definition mach_port_deallocate ::
    "ipc_state \<Rightarrow> ipc_space_t \<Rightarrow> mach_port_name_t \<Rightarrow> (ipc_state \<times> kern_return_t) option" where
  "mach_port_deallocate s space name =
     (if space = IS_NULL then Some (s, KERN_INVALID_TASK)
      else if \<not> MACH_PORT_VALID name then Some (s, KERN_SUCCESS)
      else do {
        (kr, entry) \<leftarrow> ipc_right_lookup_write s space name;
        if kr \<noteq> KERN_SUCCESS then Some (mach_port_guard_exception s name 0 0 kGUARD_EXC_INVALID_NAME, kr)
        else ipc_right_dealloc s space name entry
      })"

definition mach_port_get_refs ::
    "ipc_state \<Rightarrow> ipc_space_t \<Rightarrow> mach_port_name_t \<Rightarrow> mach_port_right_t \<Rightarrow>
     (ipc_state \<times> kern_return_t \<times> mach_port_urefs_t option) option" where
  "mach_port_get_refs s space name right =
     (if space = IS_NULL then Some (s, KERN_INVALID_TASK, None)
      else if right \<ge> MACH_PORT_RIGHT_NUMBER then Some (s, KERN_INVALID_VALUE, None)
      else if \<not> MACH_PORT_VALID name
      then if right = MACH_PORT_RIGHT_SEND \<or> right = MACH_PORT_RIGHT_SEND_ONCE
        then Some (s, KERN_SUCCESS, Some 1) else Some (s, KERN_INVALID_NAME, None)
      else do {
        (kr, entry) \<leftarrow> ipc_right_lookup_write s space name;
        if kr \<noteq> KERN_SUCCESS then Some (s, kr, None)
        else do {
          (s, type, urefs) \<leftarrow> ipc_right_info s space name entry;
          if type AND MACH_PORT_TYPE right = 0 then Some (s, KERN_SUCCESS, Some 0)
          else if right = MACH_PORT_RIGHT_SEND_ONCE
          then do { kassert (urefs = 1); Some (s, KERN_SUCCESS, Some 1) }
          else if right = MACH_PORT_RIGHT_PORT_SET \<or> right = MACH_PORT_RIGHT_RECEIVE
          then Some (s, KERN_SUCCESS, Some 1)
          else if right = MACH_PORT_RIGHT_DEAD_NAME \<or> right = MACH_PORT_RIGHT_SEND
          then do { kassert (urefs > 0); Some (s, KERN_SUCCESS, Some urefs) }
          else None
        }
      })"

definition mach_port_mod_refs ::
    "ipc_state \<Rightarrow> ipc_space_t \<Rightarrow> mach_port_name_t \<Rightarrow> mach_port_right_t \<Rightarrow> mach_port_delta_t \<Rightarrow>
     (ipc_state \<times> kern_return_t) option" where
  "mach_port_mod_refs s space name right delta =
     (if space = IS_NULL then Some (s, KERN_INVALID_TASK)
      else if right \<ge> MACH_PORT_RIGHT_NUMBER then Some (s, KERN_INVALID_VALUE)
      else if \<not> MACH_PORT_VALID name
      then Some (s, if right = MACH_PORT_RIGHT_SEND \<or> right = MACH_PORT_RIGHT_SEND_ONCE
                    then KERN_SUCCESS else KERN_INVALID_NAME)
      else do {
        (kr, entry) \<leftarrow> ipc_right_lookup_write s space name;
        if kr \<noteq> KERN_SUCCESS then Some (mach_port_guard_exception s name 0 0 kGUARD_EXC_INVALID_NAME, kr)
        else ipc_right_delta s space name entry right delta
      })"


section \<open>Attributes of a receive right\<close>

definition mach_port_set_mscount ::
    "ipc_state \<Rightarrow> ipc_space_t \<Rightarrow> mach_port_name_t \<Rightarrow> mach_port_mscount_t \<Rightarrow>
     (ipc_state \<times> kern_return_t) option" where
  "mach_port_set_mscount s space name mscount =
     (if space = IS_NULL then Some (s, KERN_INVALID_TASK)
      else if \<not> MACH_PORT_VALID name then Some (s, KERN_INVALID_RIGHT)
      else do {
        (kr, p) \<leftarrow> ipc_port_translate_receive s space name;
        if kr \<noteq> KERN_SUCCESS then Some (s, kr)
        else do {
          s \<leftarrow> mod_port s p (\<lambda>port. port\<lparr>ip_mscount := mscount\<rparr>);
          Some (s, KERN_SUCCESS)
        }
      })"

definition mach_port_set_seqno ::
    "ipc_state \<Rightarrow> ipc_space_t \<Rightarrow> mach_port_name_t \<Rightarrow> 32 word \<Rightarrow> (ipc_state \<times> kern_return_t) option" where
  "mach_port_set_seqno s space name seqno =
     (if space = IS_NULL then Some (s, KERN_INVALID_TASK)
      else if \<not> MACH_PORT_VALID name then Some (s, KERN_INVALID_RIGHT)
      else do {
        (kr, p) \<leftarrow> ipc_port_translate_receive s space name;
        if kr \<noteq> KERN_SUCCESS then Some (s, kr)
        else do {
          s \<leftarrow> mod_port s p (\<lambda>port. port\<lparr>imq_seqno := seqno\<rparr>);
          Some (s, KERN_SUCCESS)
        }
      })"

definition mach_port_get_context ::
    "ipc_state \<Rightarrow> ipc_space_t \<Rightarrow> mach_port_name_t \<Rightarrow> (kern_return_t \<times> 64 word option) option" where
  "mach_port_get_context s space name =
     (if space = IS_NULL then Some (KERN_INVALID_TASK, None)
      else if \<not> MACH_PORT_VALID name then Some (KERN_INVALID_RIGHT, None)
      else do {
        (kr, p) \<leftarrow> ipc_port_translate_receive s space name;
        if kr \<noteq> KERN_SUCCESS then Some (kr, None)
        else do {
          port \<leftarrow> ports s p;
          Some (KERN_SUCCESS, Some (if ip_strict_guard port then 0 else ip_context port))
        }
      })"

definition kGUARD_EXC_SET_CONTEXT :: "32 word" where
  "kGUARD_EXC_SET_CONTEXT = 0x4"

definition kGUARD_EXC_UNGUARDED :: "32 word" where
  "kGUARD_EXC_UNGUARDED = 0x8"

definition kGUARD_EXC_INVALID_ARGUMENT :: "32 word" where
  "kGUARD_EXC_INVALID_ARGUMENT = 0x800"

definition kGUARD_EXC_KERN_FAILURE :: "32 word" where
  "kGUARD_EXC_KERN_FAILURE = 0x4000"

definition mach_port_set_context ::
    "ipc_state \<Rightarrow> ipc_space_t \<Rightarrow> mach_port_name_t \<Rightarrow> 64 word \<Rightarrow> (ipc_state \<times> kern_return_t) option" where
  "mach_port_set_context s space name context =
     (if space = IS_NULL then Some (s, KERN_INVALID_TASK)
      else if \<not> MACH_PORT_VALID name then Some (s, KERN_INVALID_RIGHT)
      else do {
        (kr, p) \<leftarrow> ipc_port_translate_receive s space name;
        if kr \<noteq> KERN_SUCCESS then Some (s, kr)
        else do {
          port \<leftarrow> ports s p;
          if ip_strict_guard port
          then Some (mach_port_guard_exception s name context (ip_context port) kGUARD_EXC_SET_CONTEXT,
                     KERN_INVALID_ARGUMENT)
          else do {
            s \<leftarrow> mod_port s p (\<lambda>port. port\<lparr>ip_context := context\<rparr>);
            Some (s, KERN_SUCCESS)
          }
        }
      })"

record mach_port_status =
  mps_pset :: bool
  mps_seqno :: "32 word"
  mps_mscount :: mach_port_mscount_t
  mps_qlimit :: "32 word"
  mps_msgcount :: "32 word"
  mps_sorights :: mach_port_rights_t
  mps_srights :: bool
  mps_pdrequest :: bool
  mps_nsrequest :: bool
  mps_flags :: "32 word"

definition MACH_PORT_STATUS_FLAG_TEMPOWNER :: "32 word" where
  "MACH_PORT_STATUS_FLAG_TEMPOWNER = 0x01"

definition MACH_PORT_STATUS_FLAG_GUARDED :: "32 word" where
  "MACH_PORT_STATUS_FLAG_GUARDED = 0x02"

definition MACH_PORT_STATUS_FLAG_STRICT_GUARD :: "32 word" where
  "MACH_PORT_STATUS_FLAG_STRICT_GUARD = 0x04"

definition MACH_PORT_STATUS_FLAG_IMP_DONATION :: "32 word" where
  "MACH_PORT_STATUS_FLAG_IMP_DONATION = 0x08"

definition MACH_PORT_STATUS_FLAG_TASKPTR :: "32 word" where
  "MACH_PORT_STATUS_FLAG_TASKPTR = 0x20"

definition MACH_PORT_STATUS_FLAG_GUARD_IMMOVABLE_RECEIVE :: "32 word" where
  "MACH_PORT_STATUS_FLAG_GUARD_IMMOVABLE_RECEIVE = 0x40"

definition MACH_PORT_STATUS_FLAG_NO_GRANT :: "32 word" where
  "MACH_PORT_STATUS_FLAG_NO_GRANT = 0x80"

definition flag_if :: "bool \<Rightarrow> 32 word \<Rightarrow> 32 word" where
  "flag_if c f = (if c then f else 0)"

definition mach_port_get_status_helper :: "ipc_state \<Rightarrow> ipc_port \<Rightarrow> mach_port_status option" where
  "mach_port_get_status_helper s port = do {
     pdrequest \<leftarrow> ipc_port_has_prdrequest s port;
     Some \<lparr>mps_pset = ip_in_pset port, mps_seqno = imq_seqno port, mps_mscount = ip_mscount port,
           mps_qlimit = ucast (imq_qlimit port), mps_msgcount = ucast (imq_msgcount port), mps_sorights = ip_sorights port,
           mps_srights = (ip_srights port > 0), mps_pdrequest = pdrequest,
           mps_nsrequest = (ip_nsrequest port \<noteq> IP_NULL),
           mps_flags =
             flag_if (ip_impdonation port) MACH_PORT_STATUS_FLAG_IMP_DONATION OR
             flag_if (ip_impdonation port \<and> ip_tempowner port) MACH_PORT_STATUS_FLAG_TEMPOWNER OR
             flag_if (ip_impdonation port \<and> ip_tempowner port \<and> ip_get_imp_task port \<noteq> 0)
               MACH_PORT_STATUS_FLAG_TASKPTR OR
             flag_if (ip_guarded port) MACH_PORT_STATUS_FLAG_GUARDED OR
             flag_if (ip_guarded port \<and> ip_strict_guard port) MACH_PORT_STATUS_FLAG_STRICT_GUARD OR
             flag_if (ip_guarded port \<and> ip_immovable_receive port)
               MACH_PORT_STATUS_FLAG_GUARD_IMMOVABLE_RECEIVE OR
             flag_if (ip_no_grant port) MACH_PORT_STATUS_FLAG_NO_GRANT\<rparr>
   }"

definition MACH_PORT_LIMITS_INFO :: int where
  "MACH_PORT_LIMITS_INFO = 1"

definition MACH_PORT_RECEIVE_STATUS :: int where
  "MACH_PORT_RECEIVE_STATUS = 2"

definition MACH_PORT_DNREQUESTS_SIZE :: int where
  "MACH_PORT_DNREQUESTS_SIZE = 3"

definition MACH_PORT_TEMPOWNER :: int where
  "MACH_PORT_TEMPOWNER = 4"

definition MACH_PORT_IMPORTANCE_RECEIVER :: int where
  "MACH_PORT_IMPORTANCE_RECEIVER = 5"

definition MACH_PORT_DENAP_RECEIVER :: int where
  "MACH_PORT_DENAP_RECEIVER = 6"

definition MACH_PORT_INFO_EXT :: int where
  "MACH_PORT_INFO_EXT = 7"

definition MACH_PORT_GUARD_INFO :: int where
  "MACH_PORT_GUARD_INFO = 8"

text \<open>The sizes of the structures in words.\<close>

definition MACH_PORT_LIMITS_INFO_COUNT :: "32 word" where
  "MACH_PORT_LIMITS_INFO_COUNT = 1"

definition MACH_PORT_RECEIVE_STATUS_COUNT :: "32 word" where
  "MACH_PORT_RECEIVE_STATUS_COUNT = 10"

definition MACH_PORT_DNREQUESTS_SIZE_COUNT :: "32 word" where
  "MACH_PORT_DNREQUESTS_SIZE_COUNT = 1"

definition MACH_PORT_INFO_EXT_COUNT :: "32 word" where
  "MACH_PORT_INFO_EXT_COUNT = 17"

definition MACH_PORT_GUARD_INFO_COUNT :: "32 word" where
  "MACH_PORT_GUARD_INFO_COUNT = 2"

text \<open>What is written to the buffer, \<open>Info_none\<close> when it is not written.\<close>

datatype mach_port_info =
    Info_none
  | Info_limits "32 word"
  | Info_status mach_port_status
  | Info_dnrequests nat
  | Info_ext mach_port_status "32 word"

text \<open>The result is the return code, what is written to the buffer and the count afterwards.\<close>

definition mach_port_get_attributes ::
    "ipc_state \<Rightarrow> ipc_space_t \<Rightarrow> mach_port_name_t \<Rightarrow> int \<Rightarrow> 32 word \<Rightarrow>
     (kern_return_t \<times> mach_port_info \<times> 32 word) option" where
  "mach_port_get_attributes s space name flavor count =
     (if space = IS_NULL then Some (KERN_INVALID_TASK, Info_none, count)
      else if flavor = MACH_PORT_LIMITS_INFO
      then if count < MACH_PORT_LIMITS_INFO_COUNT then Some (KERN_FAILURE, Info_none, count)
        else if \<not> MACH_PORT_VALID name then Some (KERN_SUCCESS, Info_none, 0)
        else do {
          (kr, p) \<leftarrow> ipc_port_translate_receive s space name;
          if kr \<noteq> KERN_SUCCESS then Some (kr, Info_none, count)
          else do {
            port \<leftarrow> ports s p;
            Some (KERN_SUCCESS, Info_limits (ucast (imq_qlimit port)), MACH_PORT_LIMITS_INFO_COUNT)
          }
        }
      else if flavor = MACH_PORT_RECEIVE_STATUS
      then if count < MACH_PORT_RECEIVE_STATUS_COUNT then Some (KERN_FAILURE, Info_none, count)
        else if \<not> MACH_PORT_VALID name then Some (KERN_INVALID_RIGHT, Info_none, count)
        else do {
          (kr, p) \<leftarrow> ipc_port_translate_receive s space name;
          if kr \<noteq> KERN_SUCCESS then Some (kr, Info_none, count)
          else do {
            port \<leftarrow> ports s p;
            status \<leftarrow> mach_port_get_status_helper s port;
            Some (KERN_SUCCESS, Info_status status, MACH_PORT_RECEIVE_STATUS_COUNT)
          }
        }
      else if flavor = MACH_PORT_DNREQUESTS_SIZE
      then if count < MACH_PORT_DNREQUESTS_SIZE_COUNT then Some (KERN_FAILURE, Info_none, count)
        else if \<not> MACH_PORT_VALID name then Some (KERN_SUCCESS, Info_dnrequests 0, count)
        else do {
          (kr, p) \<leftarrow> ipc_port_translate_receive s space name;
          if kr \<noteq> KERN_SUCCESS then Some (kr, Info_none, count)
          else do {
            port \<leftarrow> ports s p;
            Some (KERN_SUCCESS,
                  Info_dnrequests (case ip_requests port of
                                     None \<Rightarrow> 0
                                   | Some table \<Rightarrow> ipc_table_requests ! ipr_size table),
                  MACH_PORT_DNREQUESTS_SIZE_COUNT)
          }
        }
      else if flavor = MACH_PORT_INFO_EXT
      then if count < MACH_PORT_INFO_EXT_COUNT then Some (KERN_FAILURE, Info_none, count)
        else if \<not> MACH_PORT_VALID name then Some (KERN_INVALID_RIGHT, Info_none, count)
        else do {
          (kr, p) \<leftarrow> ipc_port_translate_receive s space name;
          if kr \<noteq> KERN_SUCCESS then Some (kr, Info_none, count)
          else do {
            port \<leftarrow> ports s p;
            status \<leftarrow> mach_port_get_status_helper s port;
            Some (KERN_SUCCESS, Info_ext status (ip_impcount port), MACH_PORT_INFO_EXT_COUNT)
          }
        }
      else Some (KERN_INVALID_ARGUMENT, Info_none, count))"

definition MACH_PORT_QLIMIT_MAX :: "32 word" where
  "MACH_PORT_QLIMIT_MAX = 1024"

text \<open>Waking senders up to a larger limit; each takes a slot of the queue.\<close>

fun ipc_mqueue_set_qlimit_loop :: "nat \<Rightarrow> ipc_state \<Rightarrow> ipc_port_t \<Rightarrow> ipc_state option" where
  "ipc_mqueue_set_qlimit_loop 0 s p = Some s"
| "ipc_mqueue_set_qlimit_loop (Suc wakeup) s p =
     (if send_waiters s p = 0 then mod_port s p (\<lambda>port. port\<lparr>ip_fullwaiters := False\<rparr>)
      else do {
        s \<leftarrow> mod_port (s\<lparr>send_waiters := (send_waiters s)(p := send_waiters s p - 1)\<rparr>) p
               (\<lambda>port. port\<lparr>imq_msgcount := imq_msgcount port + 1\<rparr>);
        ipc_mqueue_set_qlimit_loop wakeup s p
      })"

definition ipc_mqueue_set_qlimit_locked :: "ipc_state \<Rightarrow> ipc_port_t \<Rightarrow> 32 word \<Rightarrow> ipc_state option" where
  "ipc_mqueue_set_qlimit_locked s p qlimit = do {
     kassert (qlimit \<le> MACH_PORT_QLIMIT_MAX);
     port \<leftarrow> ports s p;
     s \<leftarrow> (if qlimit > ucast (imq_qlimit port)
          then ipc_mqueue_set_qlimit_loop (unat (qlimit - ucast (imq_qlimit port))) s p else Some s);
     mod_port s p (\<lambda>port. port\<lparr>imq_qlimit := ucast qlimit\<rparr>)
   }"

definition mach_port_set_tempowner :: "ipc_state \<Rightarrow> ipc_port_t \<Rightarrow> (ipc_state \<times> kern_return_t) option" where
  "mach_port_set_tempowner s p = do {
     port \<leftarrow> ports s p;
     if ip_is_kobject port \<or> ip_specialreply port then Some (s, KERN_INVALID_ARGUMENT)
     else do {
       let imp = (if ip_tempowner port then ip_get_imp_task port else 0);
       let assertcnt = (if ip_tempowner port \<and> imp = 0 then 0 else ip_impcount port);
       s \<leftarrow> (if imp \<noteq> 0 then mod_port s p (\<lambda>port. port\<lparr>ip_kobject := 0\<rparr>) else Some s);
       s \<leftarrow> mod_port s p (\<lambda>port. port\<lparr>ip_impdonation := True, ip_tempowner := True\<rparr>);
       if imp \<noteq> 0
       then do {
         kassert (is_any_receiver_type (env s) imp);
         let s = (if assertcnt > 0 then event s (Importance_drop imp assertcnt) else s);
         Some (event s (Importance_release imp), KERN_SUCCESS)
       }
       else do {
         let base = current_imp_base (env s);
         Some (if assertcnt > 0 \<and> base \<noteq> 0 \<and> is_any_receiver_type (env s) base
               then event s (Importance_drop base assertcnt) else s, KERN_SUCCESS)
       }
     }
   }"

text \<open>\<open>info\<close> is the first word of the buffer.\<close>

definition mach_port_set_attributes ::
    "(nat \<Rightarrow> bool) \<Rightarrow> ipc_state \<Rightarrow> ipc_space_t \<Rightarrow> mach_port_name_t \<Rightarrow> int \<Rightarrow> 32 word \<Rightarrow> 32 word \<Rightarrow>
     (ipc_state \<times> kern_return_t) option" where
  "mach_port_set_attributes mem s space name flavor info count =
     (if space = IS_NULL then Some (s, KERN_INVALID_TASK)
      else if flavor = MACH_PORT_LIMITS_INFO
      then if count < MACH_PORT_LIMITS_INFO_COUNT then Some (s, KERN_FAILURE)
        else if info > MACH_PORT_QLIMIT_MAX then Some (s, KERN_INVALID_VALUE)
        else if \<not> MACH_PORT_VALID name then Some (s, KERN_INVALID_RIGHT)
        else do {
          (kr, p) \<leftarrow> ipc_port_translate_receive s space name;
          if kr \<noteq> KERN_SUCCESS then Some (s, kr)
          else do { s \<leftarrow> ipc_mqueue_set_qlimit_locked s p info; Some (s, KERN_SUCCESS) }
        }
      else if flavor = MACH_PORT_DNREQUESTS_SIZE
      then if count < MACH_PORT_DNREQUESTS_SIZE_COUNT then Some (s, KERN_FAILURE)
        else if \<not> MACH_PORT_VALID name then Some (s, KERN_INVALID_RIGHT)
        else do {
          (kr, p) \<leftarrow> ipc_port_translate_receive s space name;
          if kr \<noteq> KERN_SUCCESS then Some (s, kr)
          else do {
            port \<leftarrow> ports s p;
            (port, kr) \<leftarrow> ipc_port_request_grow mem port (if info = ITS_SIZE_NONE then None else Some (unat info));
            Some (set_port s p port, kr)
          }
        }
      else if flavor = MACH_PORT_TEMPOWNER
      then if \<not> MACH_PORT_VALID name then Some (s, KERN_INVALID_RIGHT)
        else do {
          (kr, p) \<leftarrow> ipc_port_translate_receive s space name;
          if kr \<noteq> KERN_SUCCESS then Some (s, kr) else mach_port_set_tempowner s p
        }
      else if flavor = MACH_PORT_DENAP_RECEIVER \<or> flavor = MACH_PORT_IMPORTANCE_RECEIVER
      then if \<not> MACH_PORT_VALID name then Some (s, KERN_INVALID_RIGHT)
        else do {
          (kr, p) \<leftarrow> ipc_port_translate_receive s space name;
          if kr \<noteq> KERN_SUCCESS then Some (s, kr)
          else do {
            port \<leftarrow> ports s p;
            if ip_is_kobject port \<or> ip_specialreply port then Some (s, KERN_INVALID_ARGUMENT)
            else do {
              s \<leftarrow> mod_port s p (\<lambda>port. port\<lparr>ip_impdonation := True\<rparr>);
              Some (s, KERN_SUCCESS)
            }
          }
        }
      else Some (s, KERN_INVALID_ARGUMENT))"


section \<open>Notification requests\<close>

definition MACH_NOTIFY_SEND_POSSIBLE :: "32 word" where
  "MACH_NOTIFY_SEND_POSSIBLE = 66"

definition MACH_NOTIFY_PORT_DESTROYED :: "32 word" where
  "MACH_NOTIFY_PORT_DESTROYED = 69"

definition MACH_NOTIFY_NO_SENDERS :: "32 word" where
  "MACH_NOTIFY_NO_SENDERS = 70"

definition MACH_NOTIFY_DEAD_NAME :: "32 word" where
  "MACH_NOTIFY_DEAD_NAME = 72"

definition request_port_destroyed ::
    "ipc_state \<Rightarrow> ipc_space_t \<Rightarrow> mach_port_name_t \<Rightarrow> mach_port_mscount_t \<Rightarrow> ipc_port_t \<Rightarrow>
     (ipc_state \<times> kern_return_t \<times> ipc_port_t option) option" where
  "request_port_destroyed s space name sync notify =
     (if sync \<noteq> 0 then Some (s, KERN_INVALID_VALUE, None)
      else if \<not> MACH_PORT_VALID name then Some (s, KERN_INVALID_RIGHT, None)
      else do {
        (kr, p) \<leftarrow> ipc_port_translate_receive s space name;
        if kr \<noteq> KERN_SUCCESS then Some (s, kr, None)
        else do {
          port \<leftarrow> ports s p;
          if ip_is_kobject port \<or> ip_is_kolabeled port \<or> ip_specialreply port
          then Some (mach_port_guard_exception s name 0 0 kGUARD_EXC_INVALID_RIGHT, KERN_INVALID_RIGHT, None)
          else do {
            has \<leftarrow> ipc_port_has_prdrequest s port;
            if has
            then Some (mach_port_guard_exception s name 0 0 kGUARD_EXC_KERN_FAILURE, KERN_FAILURE, None)
            else do {
              s \<leftarrow> (if ip_has_watchport port
                   then Some (s\<lparr>twe_pdrequest := (twe_pdrequest s)(ip_twe port \<mapsto> notify)\<rparr>)
                   else mod_port s p (\<lambda>port. port\<lparr>ip_pdrequest := notify\<rparr>));
              Some (s, KERN_SUCCESS, Some IP_NULL)
            }
          }
        }
      })"

definition mach_port_request_notification ::
    "(nat \<Rightarrow> bool) \<Rightarrow> ipc_state \<Rightarrow> ipc_space_t \<Rightarrow> mach_port_name_t \<Rightarrow> 32 word \<Rightarrow> mach_port_mscount_t \<Rightarrow>
     ipc_port_t \<Rightarrow> (ipc_state \<times> kern_return_t \<times> ipc_port_t option) option" where
  "mach_port_request_notification mem s space name msg_id sync notify =
     (if space = IS_NULL then Some (s, KERN_INVALID_TASK, None)
      else if notify = IP_DEAD then Some (s, KERN_INVALID_CAPABILITY, None)
      else if msg_id = MACH_NOTIFY_PORT_DESTROYED then request_port_destroyed s space name sync notify
      else if msg_id = MACH_NOTIFY_NO_SENDERS
      then if \<not> MACH_PORT_VALID name then Some (s, KERN_INVALID_RIGHT, None)
        else do {
          (kr, p) \<leftarrow> ipc_port_translate_receive s space name;
          if kr \<noteq> KERN_SUCCESS then Some (s, kr, None)
          else do {
            (s, previous) \<leftarrow> ipc_port_nsrequest s p sync notify;
            Some (s, KERN_SUCCESS, Some previous)
          }
        }
      else if msg_id = MACH_NOTIFY_SEND_POSSIBLE \<or> msg_id = MACH_NOTIFY_DEAD_NAME
      then if \<not> MACH_PORT_VALID name then Some (s, KERN_INVALID_ARGUMENT, None)
        else do {
          (s, kr, previous) \<leftarrow> ipc_right_request_alloc mem s space name (sync \<noteq> 0)
                                (msg_id = MACH_NOTIFY_SEND_POSSIBLE) notify;
          Some (s, kr, if kr = KERN_SUCCESS then Some previous else None)
        }
      else Some (s, KERN_INVALID_VALUE, None))"


section \<open>Moving rights\<close>

definition MACH_MSG_TYPE_PORT_ANY :: "mach_msg_type_name_t \<Rightarrow> bool" where
  "MACH_MSG_TYPE_PORT_ANY x \<longleftrightarrow> x \<ge> MACH_MSG_TYPE_MOVE_RECEIVE \<and> x \<le> MACH_MSG_TYPE_MAKE_SEND_ONCE"

definition MACH_MSG_TYPE_PORT_ANY_RIGHT :: "mach_msg_type_name_t \<Rightarrow> bool" where
  "MACH_MSG_TYPE_PORT_ANY_RIGHT x \<longleftrightarrow>
     x \<ge> MACH_MSG_TYPE_MOVE_RECEIVE \<and> x \<le> MACH_MSG_TYPE_MOVE_SEND_ONCE"

definition mach_port_insert_right ::
    "(nat \<Rightarrow> bool) \<Rightarrow> ipc_state \<Rightarrow> ipc_space_t \<Rightarrow> mach_port_name_t \<Rightarrow> ipc_port_t \<Rightarrow> mach_msg_type_name_t \<Rightarrow>
     (ipc_state \<times> kern_return_t) option" where
  "mach_port_insert_right mem s space name poly polyPoly =
     (if space = IS_NULL then Some (s, KERN_INVALID_TASK)
      else if \<not> MACH_PORT_VALID name \<or> \<not> MACH_MSG_TYPE_PORT_ANY_RIGHT polyPoly
      then Some (s, KERN_INVALID_VALUE)
      else if \<not> IP_VALID poly then Some (s, KERN_INVALID_CAPABILITY)
      else ipc_object_copyout_name mem s space poly polyPoly name)"

definition mach_port_extract_right ::
    "ipc_state \<Rightarrow> ipc_space_t \<Rightarrow> mach_port_name_t \<Rightarrow> mach_msg_type_name_t \<Rightarrow>
     (ipc_state \<times> kern_return_t \<times> (ipc_port_t \<times> mach_msg_type_name_t) option) option" where
  "mach_port_extract_right s space name msgt_name =
     (if space = IS_NULL then Some (s, KERN_INVALID_TASK, None)
      else if \<not> MACH_MSG_TYPE_PORT_ANY msgt_name then Some (s, KERN_INVALID_VALUE, None)
      else if \<not> MACH_PORT_VALID name then Some (s, KERN_INVALID_RIGHT, None)
      else do {
        (s, kr, poly) \<leftarrow> ipc_object_copyin s space name msgt_name 0 None
          (if space = current_space (env s) \<and> msgt_name = MACH_MSG_TYPE_COPY_SEND
           then IPC_OBJECT_COPYIN_FLAGS_ALLOW_IMMOVABLE_SEND else IPC_OBJECT_COPYIN_FLAGS_NONE);
        Some (s, kr, if kr = KERN_SUCCESS then Some (poly, ipc_object_copyin_type msgt_name) else None)
      })"


section \<open>Guards\<close>

definition MPG_STRICT :: "64 word" where
  "MPG_STRICT = 0x01"

definition MPG_IMMOVABLE_RECEIVE :: "64 word" where
  "MPG_IMMOVABLE_RECEIVE = 0x02"

definition mach_port_guard_locked :: "ipc_port \<Rightarrow> 64 word \<Rightarrow> 64 word \<Rightarrow> ipc_port \<times> kern_return_t" where
  "mach_port_guard_locked port guard flags =
     (if ip_context port \<noteq> 0 then (port, KERN_INVALID_ARGUMENT)
      else (port\<lparr>ip_context := guard, ip_guarded := True, ip_strict_guard := (flags AND MPG_STRICT \<noteq> 0),
                 ip_immovable_receive := ip_immovable_receive port \<or> flags AND MPG_IMMOVABLE_RECEIVE \<noteq> 0\<rparr>,
            KERN_SUCCESS))"

definition mach_port_unguard_locked ::
    "ipc_state \<Rightarrow> ipc_port_t \<Rightarrow> mach_port_name_t \<Rightarrow> 64 word \<Rightarrow> (ipc_state \<times> kern_return_t) option" where
  "mach_port_unguard_locked s p name guard = do {
     port \<leftarrow> ports s p;
     if \<not> ip_guarded port
     then Some (mach_port_guard_exception s name guard 0 kGUARD_EXC_UNGUARDED, KERN_INVALID_ARGUMENT)
     else if ip_context port \<noteq> guard
     then Some (mach_port_guard_exception s name guard (ip_context port) kGUARD_EXC_INCORRECT_GUARD,
                KERN_INVALID_ARGUMENT)
     else do {
       s \<leftarrow> mod_port s p (\<lambda>port. port\<lparr>ip_context := 0, ip_guarded := False, ip_strict_guard := False\<rparr>);
       Some (s, KERN_SUCCESS)
     }
   }"

definition guard_translate_error :: "ipc_state \<Rightarrow> mach_port_name_t \<Rightarrow> kern_return_t \<Rightarrow> ipc_state" where
  "guard_translate_error s name kr =
     mach_port_guard_exception s name 0 0
       (if kr = KERN_INVALID_NAME then kGUARD_EXC_INVALID_NAME else kGUARD_EXC_INVALID_RIGHT)"

definition mach_port_guard_with_flags ::
    "ipc_state \<Rightarrow> ipc_space_t \<Rightarrow> mach_port_name_t \<Rightarrow> 64 word \<Rightarrow> 64 word \<Rightarrow>
     (ipc_state \<times> kern_return_t) option" where
  "mach_port_guard_with_flags s space name guard flags =
     (if space = IS_NULL then Some (s, KERN_INVALID_TASK)
      else if \<not> MACH_PORT_VALID name then Some (s, KERN_INVALID_NAME)
      else do {
        (kr, p) \<leftarrow> ipc_port_translate_receive s space name;
        if kr \<noteq> KERN_SUCCESS then Some (guard_translate_error s name kr, kr)
        else do {
          port \<leftarrow> ports s p;
          let (port, kr) = mach_port_guard_locked port guard flags;
          let s = set_port s p port;
          Some (if kr = KERN_INVALID_ARGUMENT
                then mach_port_guard_exception s name 0 0 kGUARD_EXC_INVALID_ARGUMENT else s, kr)
        }
      })"

definition mach_port_guard ::
    "ipc_state \<Rightarrow> ipc_space_t \<Rightarrow> mach_port_name_t \<Rightarrow> 64 word \<Rightarrow> bool \<Rightarrow> (ipc_state \<times> kern_return_t) option" where
  "mach_port_guard s space name guard strict =
     (if space = IS_NULL then Some (s, KERN_INVALID_TASK)
      else if \<not> MACH_PORT_VALID name then Some (s, KERN_INVALID_NAME)
      else do {
        (kr, p) \<leftarrow> ipc_port_translate_receive s space name;
        if kr \<noteq> KERN_SUCCESS then Some (guard_translate_error s name kr, kr)
        else do {
          port \<leftarrow> ports s p;
          let (port, kr) = mach_port_guard_locked port guard (if strict then MPG_STRICT else 0);
          let s = set_port s p port;
          Some (if kr = KERN_INVALID_ARGUMENT
                then mach_port_guard_exception s name 0 0 kGUARD_EXC_INVALID_ARGUMENT else s, kr)
        }
      })"

definition mach_port_unguard ::
    "ipc_state \<Rightarrow> ipc_space_t \<Rightarrow> mach_port_name_t \<Rightarrow> 64 word \<Rightarrow> (ipc_state \<times> kern_return_t) option" where
  "mach_port_unguard s space name guard =
     (if space = IS_NULL then Some (s, KERN_INVALID_TASK)
      else if \<not> MACH_PORT_VALID name then Some (s, KERN_INVALID_NAME)
      else do {
        (kr, p) \<leftarrow> ipc_port_translate_receive s space name;
        if kr \<noteq> KERN_SUCCESS then Some (guard_translate_error s name kr, kr)
        else mach_port_unguard_locked s p name guard
      })"

definition mach_port_swap_guard ::
    "ipc_state \<Rightarrow> ipc_space_t \<Rightarrow> mach_port_name_t \<Rightarrow> 64 word \<Rightarrow> 64 word \<Rightarrow>
     (ipc_state \<times> kern_return_t) option" where
  "mach_port_swap_guard s space name old_guard new_guard =
     (if space = IS_NULL then Some (s, KERN_INVALID_TASK)
      else if \<not> MACH_PORT_VALID name then Some (s, KERN_INVALID_NAME)
      else do {
        (kr, p) \<leftarrow> ipc_port_translate_receive s space name;
        if kr \<noteq> KERN_SUCCESS then Some (guard_translate_error s name kr, kr)
        else do {
          port \<leftarrow> ports s p;
          if \<not> ip_guarded port
          then Some (mach_port_guard_exception s name old_guard 0 kGUARD_EXC_UNGUARDED, KERN_INVALID_ARGUMENT)
          else if ip_strict_guard port
          then Some (mach_port_guard_exception s name old_guard (ip_context port) kGUARD_EXC_SET_CONTEXT,
                     KERN_INVALID_ARGUMENT)
          else if ip_context port \<noteq> old_guard
          then Some (mach_port_guard_exception s name old_guard (ip_context port) kGUARD_EXC_INCORRECT_GUARD,
                     KERN_INVALID_ARGUMENT)
          else do {
            s \<leftarrow> mod_port s p (\<lambda>port. port\<lparr>ip_context := new_guard\<rparr>);
            Some (s, KERN_SUCCESS)
          }
        }
      })"

definition mach_port_assert_attributes ::
    "ipc_state \<Rightarrow> ipc_space_t \<Rightarrow> mach_port_name_t \<Rightarrow> int \<Rightarrow> 64 word \<Rightarrow> 32 word \<Rightarrow>
     (ipc_state \<times> kern_return_t) option" where
  "mach_port_assert_attributes s space name flavor mpgi_guard count =
     (if space = IS_NULL then Some (s, KERN_INVALID_TASK)
      else if flavor = MACH_PORT_GUARD_INFO
      then if count < MACH_PORT_GUARD_INFO_COUNT then Some (s, KERN_FAILURE)
        else if \<not> MACH_PORT_VALID name then Some (s, KERN_INVALID_RIGHT)
        else do {
          (kr, p) \<leftarrow> ipc_port_translate_receive s space name;
          if kr \<noteq> KERN_SUCCESS then Some (s, kr)
          else do {
            port \<leftarrow> ports s p;
            if \<not> ip_guarded port
            then Some (mach_port_guard_exception s name mpgi_guard 0 kGUARD_EXC_UNGUARDED,
                       KERN_INVALID_ARGUMENT)
            else if \<not> ip_strict_guard port \<or> ip_context port \<noteq> mpgi_guard
            then Some (mach_port_guard_exception s name mpgi_guard (ip_context port) kGUARD_EXC_INCORRECT_GUARD,
                       KERN_INVALID_ARGUMENT)
            else Some (s, KERN_SUCCESS)
          }
        }
      else Some (s, KERN_INVALID_ARGUMENT))"

definition mach_port_destruct ::
    "ipc_state \<Rightarrow> ipc_space_t \<Rightarrow> mach_port_name_t \<Rightarrow> mach_port_delta_t \<Rightarrow> 64 word \<Rightarrow>
     (ipc_state \<times> kern_return_t) option" where
  "mach_port_destruct s space name srdelta guard =
     (if space = IS_NULL then Some (s, KERN_INVALID_TASK)
      else if \<not> MACH_PORT_VALID name then Some (s, KERN_INVALID_NAME)
      else do {
        (kr, entry) \<leftarrow> ipc_right_lookup_write s space name;
        if kr \<noteq> KERN_SUCCESS then Some (mach_port_guard_exception s name 0 0 kGUARD_EXC_INVALID_NAME, kr)
        else ipc_right_destruct s space name entry srdelta guard
      })"

definition MPO_CONTEXT_AS_GUARD :: "32 word" where
  "MPO_CONTEXT_AS_GUARD = 0x01"

definition MPO_QLIMIT :: "32 word" where
  "MPO_QLIMIT = 0x02"

definition MPO_TEMPOWNER :: "32 word" where
  "MPO_TEMPOWNER = 0x04"

definition MPO_IMPORTANCE_RECEIVER :: "32 word" where
  "MPO_IMPORTANCE_RECEIVER = 0x08"

definition MPO_INSERT_SEND_RIGHT :: "32 word" where
  "MPO_INSERT_SEND_RIGHT = 0x10"

definition MPO_STRICT :: "32 word" where
  "MPO_STRICT = 0x20"

definition MPO_DENAP_RECEIVER :: "32 word" where
  "MPO_DENAP_RECEIVER = 0x40"

definition MPO_IMMOVABLE_RECEIVE :: "32 word" where
  "MPO_IMMOVABLE_RECEIVE = 0x80"

definition MPO_FILTER_MSG :: "32 word" where
  "MPO_FILTER_MSG = 0x100"

definition MPO_TG_BLOCK_TRACKING :: "32 word" where
  "MPO_TG_BLOCK_TRACKING = 0x200"

definition MPO_SERVICE_PORT :: "32 word" where
  "MPO_SERVICE_PORT = 0x400"

definition MPO_CONNECTION_PORT :: "32 word" where
  "MPO_CONNECTION_PORT = 0x800"

text \<open>
  The checks of the calling task for block tracking (\<open>tg\<close>) and the label of a service or connection
  port (\<open>label\<close>: return code, label and whether its messages are filtered) are arguments.
\<close>

definition construct_flags :: "32 word \<Rightarrow> bool \<Rightarrow> 32 word" where
  "construct_flags flags filter_msgs =
     IPC_PORT_INIT_MESSAGE_QUEUE OR
     flag_if (flags AND MPO_INSERT_SEND_RIGHT \<noteq> 0) IPC_PORT_INIT_MAKE_SEND_RIGHT OR
     flag_if (flags AND MPO_FILTER_MSG \<noteq> 0) IPC_PORT_INIT_FILTER_MESSAGE OR
     flag_if (flags AND MPO_TG_BLOCK_TRACKING \<noteq> 0) IPC_PORT_INIT_TG_BLOCK_TRACKING OR
     flag_if (flags AND MPO_SERVICE_PORT \<noteq> 0) IPC_PORT_INIT_FILTER_MESSAGE OR
     flag_if (flags AND MPO_CONNECTION_PORT \<noteq> 0 \<and> filter_msgs) IPC_PORT_INIT_FILTER_MESSAGE"

definition construct_guard ::
    "ipc_state \<Rightarrow> ipc_port_t \<Rightarrow> mach_port_name_t \<Rightarrow> 32 word \<Rightarrow> 64 word \<Rightarrow> 64 word \<Rightarrow> ipc_state option" where
  "construct_guard s p name flags context splabel = do {
     s \<leftarrow> (if splabel \<noteq> 0
          then mod_port s p (\<lambda>port. port\<lparr>ip_service_port := (flags AND MPO_SERVICE_PORT \<noteq> 0),
                                         ip_splabel := splabel\<rparr>)
          else Some s);
     if flags AND MPO_CONTEXT_AS_GUARD \<noteq> 0
     then do {
       port \<leftarrow> ports s p;
       let (port, kr) = mach_port_guard_locked port context
             ((if flags AND MPO_STRICT \<noteq> 0 then MPG_STRICT else 0) OR
              (if flags AND MPO_IMMOVABLE_RECEIVE \<noteq> 0 then MPG_IMMOVABLE_RECEIVE else 0));
       kassert (kr = KERN_SUCCESS);
       let s = set_port s p port;
       if flags AND MPO_SERVICE_PORT \<noteq> 0
       then do {
         kassert (flags AND MPO_STRICT = MPO_STRICT);
         Some (s\<lparr>ispl_attr := (ispl_attr s)(splabel := (name, context))\<rparr>)
       }
       else Some s
     }
     else do {
       s \<leftarrow> mod_port s p (\<lambda>port. port\<lparr>ip_context := context\<rparr>);
       Some (if flags AND MPO_SERVICE_PORT \<noteq> 0
             then s\<lparr>ispl_attr := (ispl_attr s)(splabel := (name, 0))\<rparr> else s)
     }
   }"

text \<open>The attributes are set in this order, as long as there is no error.\<close>

fun construct_attributes ::
    "(nat \<Rightarrow> bool) \<Rightarrow> (32 word \<times> int \<times> 32 word \<times> 32 word) list \<Rightarrow> ipc_state \<Rightarrow> ipc_space_t \<Rightarrow>
     mach_port_name_t \<Rightarrow> 32 word \<Rightarrow> (ipc_state \<times> kern_return_t) option" where
  "construct_attributes mem [] s space name flags = Some (s, KERN_SUCCESS)"
| "construct_attributes mem ((option, flavor, info, count) # rest) s space name flags =
     (if flags AND option = 0 then construct_attributes mem rest s space name flags
      else do {
        (s, kr) \<leftarrow> mach_port_set_attributes mem s space name flavor info count;
        if kr \<noteq> KERN_SUCCESS then Some (s, kr)
        else construct_attributes mem rest s space name flags
      })"

definition mach_port_construct ::
    "(nat \<Rightarrow> bool) \<Rightarrow> ipc_object_t \<Rightarrow> ipc_state \<Rightarrow> ipc_space_t \<Rightarrow> 32 word \<Rightarrow> 32 word \<Rightarrow> 64 word \<Rightarrow>
     kern_return_t \<Rightarrow> kern_return_t \<times> 64 word \<times> bool \<Rightarrow>
     (ipc_state \<times> kern_return_t \<times> mach_port_name_t) option" where
  "mach_port_construct mem addr s space flags qlimit context tg label = do {
     let one = flags AND (MPO_SERVICE_PORT OR MPO_CONNECTION_PORT OR MPO_TG_BLOCK_TRACKING);
     let labelled = (flags AND (MPO_SERVICE_PORT OR MPO_CONNECTION_PORT) \<noteq> 0);
     let (label_kr, splabel, filter_msgs) = label;
     let splabel = (if labelled then splabel else 0);
     if one AND (one - 1) \<noteq> 0 then Some (s, KERN_INVALID_ARGUMENT, MACH_PORT_NULL)
     else if space = IS_NULL then Some (s, KERN_INVALID_TASK, MACH_PORT_NULL)
     else if flags AND MPO_TG_BLOCK_TRACKING \<noteq> 0 \<and> tg \<noteq> KERN_SUCCESS then Some (s, tg, MACH_PORT_NULL)
     else if labelled \<and> label_kr \<noteq> KERN_SUCCESS then Some (s, label_kr, MACH_PORT_NULL)
     else do {
       (s, kr, name) \<leftarrow> ipc_port_alloc mem addr s space (construct_flags flags filter_msgs);
       if kr \<noteq> KERN_SUCCESS
       then Some (if splabel \<noteq> 0
                  then event s (Service_label_dealloc splabel (flags AND MPO_SERVICE_PORT \<noteq> 0)) else s,
                  kr, MACH_PORT_NULL)
       else do {
         s \<leftarrow> construct_guard s addr name flags context splabel;
         (s, kr) \<leftarrow> construct_attributes mem
           [(MPO_QLIMIT, MACH_PORT_LIMITS_INFO, qlimit, 1),
            (MPO_TEMPOWNER, MACH_PORT_TEMPOWNER, 0, 0),
            (MPO_IMPORTANCE_RECEIVER, MACH_PORT_IMPORTANCE_RECEIVER, 0, 0),
            (MPO_DENAP_RECEIVER, MACH_PORT_DENAP_RECEIVER, 0, 0)] s space name flags;
         if kr = KERN_SUCCESS then Some (s, KERN_SUCCESS, name)
         else do {
           (s, _) \<leftarrow> mach_port_destruct s space name
                       (if flags AND MPO_INSERT_SEND_RIGHT \<noteq> 0 then -1 else 0) context;
           Some (s, kr, name)
         }
       }
     }
   }"

definition task_set_port_space ::
    "(nat \<Rightarrow> bool) \<Rightarrow> ipc_state \<Rightarrow> ipc_space_t \<Rightarrow> 32 word \<Rightarrow> (ipc_state \<times> kern_return_t) option" where
  "task_set_port_space mem s space table_entries =
     (if space = IS_NULL then Some (s, KERN_INVALID_TASK)
      else do {
        sp \<leftarrow> spaces s space;
        if \<not> is_active sp then Some (s, KERN_INVALID_TASK)
        else do {
          (sp, kr) \<leftarrow> ipc_entry_grow_table mem sp table_entries;
          Some (s\<lparr>spaces := (spaces s)(space \<mapsto> sp)\<rparr>, kr)
        }
      })"

end
