(* ===== verification/Port_Senders.thy ===== *)
theory Port_Senders
imports Demo_State
begin

text \<open>
  Naked send rights of a live port against an abstract counter.  The kernel keeps the number of send
  rights, the make-send count and one no-senders request per port in machine words next to the
  reference count of the object; the specification is a natural number with one pending request.
  The reference count, which panics when it is exhausted, is what keeps the counter from wrapping.
\<close>

section \<open>The operations and their specification\<close>

datatype send_op = Make_send | Copy_send | Release_send

fun naked_op :: "send_op \<Rightarrow> ipc_state \<Rightarrow> ipc_port_t \<Rightarrow> ipc_state option" where
  "naked_op Make_send s p = ipc_port_make_send_locked s p"
| "naked_op Copy_send s p = ipc_port_copy_send_locked s p"
| "naked_op Release_send s p = ipc_port_release_send_and_unlock s p"

fun naked_ops :: "send_op list \<Rightarrow> ipc_state \<Rightarrow> ipc_port_t \<Rightarrow> ipc_state option" where
  "naked_ops [] s p = Some s"
| "naked_ops (op # ops) s p = do { s \<leftarrow> naked_op op s p; naked_ops ops s p }"

text \<open>Send rights, make-send count and pending request; the notification a request leads to.\<close>

type_synonym senders = "nat \<times> mach_port_mscount_t \<times> ipc_port_t"

definition no_senders_event :: "ipc_port_t \<Rightarrow> ipc_port_t \<Rightarrow> mach_port_mscount_t \<Rightarrow> ipc_event" where
  "no_senders_event p req m =
     (if req = IP_KOBJECT_NSREQUEST_ARMED then Kobject_no_senders p m else Mach_notify_no_senders req m)"

fun spec_op :: "ipc_port_t \<Rightarrow> send_op \<Rightarrow> senders \<Rightarrow> (senders \<times> ipc_event list) option" where
  "spec_op p Make_send (n, m, req) = Some ((n + 1, m + 1, req), [])"
| "spec_op p Copy_send (n, m, req) = (if n = 0 then None else Some ((n + 1, m, req), []))"
| "spec_op p Release_send (n, m, req) =
     (if n = 0 then None
      else if n = 1 \<and> req \<noteq> IP_NULL then Some ((0, m, IP_NULL), [no_senders_event p req m])
      else Some ((n - 1, m, req), []))"

fun spec_ops :: "ipc_port_t \<Rightarrow> send_op list \<Rightarrow> senders \<Rightarrow> (senders \<times> ipc_event list) option" where
  "spec_ops p [] a = Some (a, [])"
| "spec_ops p (op # ops) a = do {
     (a, evs) \<leftarrow> spec_op p op a;
     (a, evs') \<leftarrow> spec_ops p ops a;
     Some (a, evs @ evs')
   }"

definition senders_of :: "ipc_port \<Rightarrow> senders" where
  "senders_of port = (unat (ip_srights port), ip_mscount port, ip_nsrequest port)"

text \<open>
  Every send right holds a reference, an armed kernel object request one more, the receive right
  another one.
\<close>

definition senders_inv :: "ipc_port \<Rightarrow> bool" where
  "senders_inv port \<longleftrightarrow> ip_active port \<and>
     unat (ip_srights port) + (if ip_nsrequest port = IP_KOBJECT_NSREQUEST_ARMED then 1 else 0) <
       unat (io_references port) \<and>
     unat (io_references port) \<le> unat OS_REFCNT_MAX_COUNT"

text \<open>The other fields of the port stay as they are.\<close>

definition senders_only :: "ipc_port \<Rightarrow> ipc_port \<Rightarrow> bool" where
  "senders_only port port' \<longleftrightarrow>
     (\<exists>m n q r. port' = port\<lparr>ip_mscount := m, ip_srights := n, ip_nsrequest := q, io_references := r\<rparr>)"

section \<open>One operation\<close>

lemma make_send_eq:
  assumes "ports s p = Some port" "senders_inv port" "unat (io_references port) < unat OS_REFCNT_MAX_COUNT"
  shows "naked_op Make_send s p = Some (s\<lparr>ports := (ports s)(p \<mapsto> port\<lparr>ip_mscount := ip_mscount port + 1,
    ip_srights := ip_srights port + 1, io_references := io_references port + 1\<rparr>)\<rparr>)"
proof -
  let ?port = "port\<lparr>ip_mscount := ip_mscount port + 1, ip_srights := ip_srights port + 1\<rparr>"
  have refs: "0 < unat (io_references ?port)" "unat (io_references ?port) < unat OS_REFCNT_MAX_COUNT"
    using assms(2,3) by (simp_all add: senders_inv_def)
  show ?thesis
    using assms(1,2) reference_live(1) [OF _ refs, of "s\<lparr>ports := (ports s)(p \<mapsto> ?port)\<rparr>" p]
    by (simp add: ipc_port_make_send_locked_def require_ip_active_def senders_inv_def mod_port_def)
qed

lemma copy_send_eq:
  assumes "ports s p = Some port" "senders_inv port" "unat (io_references port) < unat OS_REFCNT_MAX_COUNT"
  shows "naked_op Copy_send s p = (if ip_srights port = 0 then None else
    Some (s\<lparr>ports := (ports s)(p \<mapsto> port\<lparr>ip_srights := ip_srights port + 1, io_references := io_references port + 1\<rparr>)\<rparr>))"
proof -
  let ?port = "port\<lparr>ip_srights := ip_srights port + 1\<rparr>"
  have refs: "0 < unat (io_references ?port)" "unat (io_references ?port) < unat OS_REFCNT_MAX_COUNT"
    using assms(2,3) by (simp_all add: senders_inv_def)
  show ?thesis
    using assms(1,2) reference_live(1) [OF _ refs, of "s\<lparr>ports := (ports s)(p \<mapsto> ?port)\<rparr>" p]
    by (simp add: ipc_port_copy_send_locked_def senders_inv_def mod_port_def kassert_def word_gt_0)
qed

lemma full_eq:
  assumes "ports s p = Some port" "unat (io_references port) = unat OS_REFCNT_MAX_COUNT" "op \<noteq> Release_send"
  shows "naked_op op s p = None"
proof -
  have None: "ip_reference (s\<lparr>ports := (ports s)(p \<mapsto> port')\<rparr>) p = None" if "io_references port' = io_references port" for port'
    using reference_max [of "s\<lparr>ports := (ports s)(p \<mapsto> port')\<rparr>" p port'] that assms(2) by simp
  show ?thesis
    using assms(1,3)
    by (cases op) (simp_all add: ipc_port_make_send_locked_def ipc_port_copy_send_locked_def mod_port_def None
        require_ip_active_def kassert_def)
qed

text \<open>Releasing a send right that is not the last one, and the last one without and with a request.\<close>

lemma release_send_more:
  assumes "ports s p = Some port" "senders_inv port" "ip_srights port \<noteq> 0"
    and "ip_srights port \<noteq> 1 \<or> ip_nsrequest port = IP_NULL"
  shows "naked_op Release_send s p = Some (s\<lparr>ports := (ports s)(p \<mapsto> port\<lparr>ip_srights := ip_srights port - 1,
    io_references := io_references port - 1\<rparr>)\<rparr>)"
proof -
  let ?port = "port\<lparr>ip_srights := ip_srights port - 1\<rparr>" and ?s = "\<lambda>port. s\<lparr>ports := (ports s)(p \<mapsto> port)\<rparr>"
  have "0 < unat (ip_srights port)" using assms(3) by (simp add: unat_gt_0)
  then have refs: "1 < unat (io_references ?port)" using assms(2) by (auto simp: senders_inv_def split: if_splits)
  have "ipc_notify_no_senders_prepare (?s ?port) p = Some (?s ?port, nsenders_none)" if "ip_nsrequest port = IP_NULL"
    using that by (simp add: ipc_notify_no_senders_prepare_def IP_KOBJECT_NSREQUEST_ARMED_def mach_consts)
  then show ?thesis
    using assms(1,3,4) release_live(1) [OF _ refs, of "?s ?port" p]
    by (auto simp: ipc_port_release_send_and_unlock_def mod_port_def ipc_notify_no_senders_emit_def nsenders_none_def)
qed

lemma release_send_last:
  assumes "ports s p = Some port" "senders_inv port" "ip_srights port = 1" "ip_nsrequest port \<noteq> IP_NULL" "p \<noteq> IP_NULL"
  shows "naked_op Release_send s p =
    (if ip_nsrequest port = IP_KOBJECT_NSREQUEST_ARMED \<and> \<not> iko_op_no_senders (env s) (ip_kotype port) then None
     else Some (s\<lparr>ports := (ports s)(p \<mapsto> port\<lparr>ip_srights := 0, ip_nsrequest := IP_NULL, io_references :=
            io_references port - (if ip_nsrequest port = IP_KOBJECT_NSREQUEST_ARMED then 2 else 1)\<rparr>),
          events := events s @ [no_senders_event p (ip_nsrequest port) (ip_mscount port)]\<rparr>))"
proof -
  let ?port = "port\<lparr>ip_srights := 0, ip_nsrequest := IP_NULL\<rparr>" and ?s = "\<lambda>port. s\<lparr>ports := (ports s)(p \<mapsto> port)\<rparr>"
  let ?armed = "ip_nsrequest port = IP_KOBJECT_NSREQUEST_ARMED"
  have act: "ip_active (port\<lparr>ip_srights := 0\<rparr>)" "ip_active port" using assms(2) by (simp_all add: senders_inv_def io_active_def)
  have refs: "1 < unat (io_references ?port)" "?armed \<Longrightarrow> 2 < unat (io_references ?port)"
    using assms(2,3) by (auto simp: senders_inv_def split: if_splits)
  let ?port' = "?port\<lparr>io_references := io_references port - 1\<rparr>"
  let ?e = "Kobject_no_senders p (ip_mscount port)"
  have prepare: "ipc_notify_no_senders_prepare (?s (port\<lparr>ip_srights := 0\<rparr>)) p =
      Some (?s ?port, \<lparr>ns_notify = if ?armed then p else ip_nsrequest port, ns_mscount = ip_mscount port, ns_is_kobject = ?armed\<rparr>)"
    using assms(4) act by (simp add: ipc_notify_no_senders_prepare_def mod_port_def)
  have emit: "ipc_notify_no_senders_emit (?s ?port')
      \<lparr>ns_notify = if ?armed then p else ip_nsrequest port, ns_mscount = ip_mscount port, ns_is_kobject = ?armed\<rparr> =
      (if ?armed \<and> \<not> iko_op_no_senders (env s) (ip_kotype port) then None
       else Some (s\<lparr>ports := (ports s)(p \<mapsto> port\<lparr>ip_srights := 0, ip_nsrequest := IP_NULL, io_references :=
            io_references port - (if ?armed then 2 else 1)\<rparr>),
          events := events s @ [no_senders_event p (ip_nsrequest port) (ip_mscount port)]\<rparr>))"
  proof (cases ?armed)
    case True
    have "1 < unat (io_references ?port')" using refs(2) [OF True] release_live(2) [of _ p ?port] refs(1)
      by (simp add: unat_sub word_le_nat_alt)
    from release_live(1) [OF _ this, of "event (?s ?port') ?e" p] True assms(5)
    show ?thesis by (simp add: ipc_notify_no_senders_emit_def ipc_notify_no_senders_def ipc_kobject_notify_no_senders_def
          no_senders_event_def kassert_def io_kotype_def event_def)
  next
    case False
    then show ?thesis using assms(4)
      by (simp add: ipc_notify_no_senders_emit_def ipc_notify_no_senders_def no_senders_event_def event_def)
  qed
  show ?thesis
    using assms(1,3) act release_live(1) [OF _ refs(1), of "?s ?port" p]
    by (simp add: ipc_port_release_send_and_unlock_def mod_port_def prepare emit)
qed

section \<open>Sequences of operations\<close>

text \<open>With the reference count below its bound an operation returns exactly when its specification is defined.\<close>

definition refines :: "ipc_port_t \<Rightarrow> ipc_state \<Rightarrow> ipc_port \<Rightarrow> nat \<Rightarrow> ipc_state option \<Rightarrow> (senders \<times> ipc_event list) option \<Rightarrow> bool" where
  "refines p s port k res spec =
     (case spec of
        None \<Rightarrow> res = None
      | Some (a, evs) \<Rightarrow> \<exists>port'. res = Some (s\<lparr>ports := (ports s)(p \<mapsto> port'), events := events s @ evs\<rparr>) \<and>
          senders_of port' = a \<and> senders_inv port' \<and> senders_only port port' \<and>
          unat (io_references port') \<le> unat (io_references port) + k \<and>
          (ip_nsrequest port' = IP_KOBJECT_NSREQUEST_ARMED \<longrightarrow> ip_nsrequest port = IP_KOBJECT_NSREQUEST_ARMED))"

lemma small_refs: "unat (r :: 32 word) < unat OS_REFCNT_MAX_COUNT \<Longrightarrow> unat (r + 1) = unat r + 1"
  by (simp add: unat_word_ariths OS_REFCNT_MAX_COUNT_def)

lemma small_rights:
  "senders_inv port \<Longrightarrow> unat (io_references port) < unat OS_REFCNT_MAX_COUNT \<Longrightarrow>
   unat (ip_srights port + 1) = unat (ip_srights port) + 1"
  by (rule small_refs) (auto simp: senders_inv_def split: if_splits)

lemma senders_only_kotype: "senders_only port port' \<Longrightarrow> ip_kotype port' = ip_kotype port"
  by (auto simp: senders_only_def io_kotype_def)

lemma senders_only_upd: "senders_only port (port\<lparr>ip_mscount := m, ip_srights := n, ip_nsrequest := q, io_references := r\<rparr>)"
  unfolding senders_only_def by blast

lemma senders_only_refl: "senders_only port port"
  using senders_only_upd [where port = port and m = "ip_mscount port" and n = "ip_srights port" and
    q = "ip_nsrequest port" and r = "io_references port"] by simp

lemma senders_only_trans:
  "senders_only port port1 \<Longrightarrow> senders_only port1 port2 \<Longrightarrow> senders_only port port2"
  by (auto simp: senders_only_def [of port port1] senders_only_def [of port1] senders_only_upd)

lemmas senders_onlyI =
  senders_only_upd [where port = port and q = "ip_nsrequest port" for port, simplified]
  senders_only_upd [where port = port and m = "ip_mscount port" and q = "ip_nsrequest port" for port, simplified]
  senders_only_upd [where port = port and m = "ip_mscount port" for port, simplified]

lemma armed_not_null [simp]: "IP_NULL \<noteq> IP_KOBJECT_NSREQUEST_ARMED" "IP_KOBJECT_NSREQUEST_ARMED \<noteq> IP_NULL"
  by (simp_all add: IP_KOBJECT_NSREQUEST_ARMED_def mach_consts)

lemma refinesI:
  assumes "res = Some (s\<lparr>ports := (ports s)(p \<mapsto> port'), events := events s @ evs\<rparr>)" "spec = Some (senders_of port', evs)"
    and "senders_inv port'" "senders_only port port'" "unat (io_references port') \<le> unat (io_references port) + k"
    and "ip_nsrequest port' = IP_KOBJECT_NSREQUEST_ARMED \<Longrightarrow> ip_nsrequest port = IP_KOBJECT_NSREQUEST_ARMED"
  shows "refines p s port k res spec"
  using assms unfolding refines_def by auto

lemma refinesE:
  assumes "refines p s port k res spec"
  obtains (fails) "spec = None" "res = None"
  | (returns) port' evs where "res = Some (s\<lparr>ports := (ports s)(p \<mapsto> port'), events := events s @ evs\<rparr>)"
      "spec = Some (senders_of port', evs)" "senders_inv port'" "senders_only port port'"
      "unat (io_references port') \<le> unat (io_references port) + k"
      "ip_nsrequest port' = IP_KOBJECT_NSREQUEST_ARMED \<Longrightarrow> ip_nsrequest port = IP_KOBJECT_NSREQUEST_ARMED"
proof (cases spec)
  case None
  then show ?thesis using assms fails by (simp add: refines_def)
next
  case (Some r)
  obtain a evs where "r = (a, evs)" by (cases r)
  then show ?thesis using assms Some returns unfolding refines_def by force
qed

lemma naked_op_refines:
  assumes port: "ports s p = Some port" "senders_inv port" "p \<noteq> IP_NULL"
    and handler: "ip_nsrequest port = IP_KOBJECT_NSREQUEST_ARMED \<Longrightarrow> iko_op_no_senders (env s) (ip_kotype port)"
    and room: "unat (io_references port) < unat OS_REFCNT_MAX_COUNT"
  shows "refines p s port 1 (naked_op op s p) (spec_op p op (senders_of port))"
proof (cases op)
  case Make_send
  show ?thesis unfolding Make_send make_send_eq [OF port(1,2) room]
    by (rule refinesI [where evs = "[]"], simp) (use port(2) room small_refs [OF room] small_rights [OF port(2) room] in
        \<open>auto simp: senders_of_def senders_inv_def senders_onlyI io_active_def split: if_splits\<close>)
next
  case Copy_send
  show ?thesis
  proof (cases "ip_srights port = 0")
    case True
    then show ?thesis unfolding Copy_send copy_send_eq [OF port(1,2) room] by (simp add: refines_def senders_of_def)
  next
    case False
    then show ?thesis unfolding Copy_send copy_send_eq [OF port(1,2) room] if_not_P [OF False]
      by (intro refinesI [where evs = "[]"], simp) (use port(2) room small_refs [OF room] small_rights [OF port(2) room] in
          \<open>auto simp: senders_of_def senders_inv_def senders_onlyI io_active_def unat_eq_0 split: if_splits\<close>)
  qed
next
  case Release_send
  have refs_pos: "io_references port \<noteq> 0" using port(2) by (auto simp: senders_inv_def)
  have pos: "unat (ip_srights port) \<noteq> 0 \<longleftrightarrow> ip_srights port \<noteq> 0" "unat (ip_srights port) = Suc 0 \<longleftrightarrow> ip_srights port = 1"
    using word_unat_eq_iff [of "ip_srights port" 0] word_unat_eq_iff [of "ip_srights port" 1] by simp_all
  consider (none) "ip_srights port = 0"
    | (more) "ip_srights port \<noteq> 0" "ip_srights port \<noteq> 1 \<or> ip_nsrequest port = IP_NULL"
    | (last) "ip_srights port = 1" "ip_nsrequest port \<noteq> IP_NULL" by blast
  then show ?thesis
  proof cases
    case none
    then show ?thesis using port(1)
      by (simp add: Release_send refines_def senders_of_def ipc_port_release_send_and_unlock_def kassert_def)
  next
    case more
    have "unat (ip_srights port - 1) = unat (ip_srights port) - 1"
      "unat (io_references port - 1) = unat (io_references port) - 1"
      using more(1) refs_pos by (simp_all add: unat_minus_one)
    then show ?thesis unfolding Release_send release_send_more [OF port(1,2) more]
      by (intro refinesI [where evs = "[]"], simp) (use port(2) more pos in
          \<open>auto simp: senders_of_def senders_inv_def senders_onlyI io_active_def split: if_splits\<close>)
  next
    case last
    let ?d = "if ip_nsrequest port = IP_KOBJECT_NSREQUEST_ARMED then 2 else 1 :: 32 word"
    have "unat (io_references port - ?d) = unat (io_references port) - unat ?d"
      using port(2) last by (subst unat_sub) (auto simp: senders_inv_def word_le_nat_alt)
    moreover have released: "naked_op Release_send s p =
       Some (s\<lparr>ports := (ports s)(p \<mapsto> port\<lparr>ip_srights := 0, ip_nsrequest := IP_NULL, io_references := io_references port - ?d\<rparr>),
          events := events s @ [no_senders_event p (ip_nsrequest port) (ip_mscount port)]\<rparr>)"
      using release_send_last [OF port(1,2) last port(3)] handler by simp
    ultimately show ?thesis unfolding Release_send
      by (intro refinesI [OF released]) (use port(2) last in
          \<open>auto simp: senders_of_def senders_inv_def senders_onlyI io_active_def split: if_splits\<close>)
  qed
qed

lemma naked_ops_refines:
  assumes "ports s p = Some port" "senders_inv port" "p \<noteq> IP_NULL"
    and "ip_nsrequest port = IP_KOBJECT_NSREQUEST_ARMED \<Longrightarrow> iko_op_no_senders (env s) (ip_kotype port)"
    and "unat (io_references port) + length ops \<le> unat OS_REFCNT_MAX_COUNT"
  shows "refines p s port (length ops) (naked_ops ops s p) (spec_ops p ops (senders_of port))"
  using assms
proof (induction ops arbitrary: s port)
  case Nil
  have "s\<lparr>ports := (ports s)(p \<mapsto> port), events := events s @ []\<rparr> = s" using Nil.prems(1) by (simp add: map_upd_triv)
  then show ?case using Nil.prems(2)
    by (intro refinesI [where evs = "[]" and port' = port]) (simp_all add: senders_only_refl)
next
  case (Cons op ops)
  have step: "refines p s port 1 (naked_op op s p) (spec_op p op (senders_of port))"
    using Cons.prems(5) by (intro naked_op_refines [OF Cons.prems(1-4)]) simp_all
  from step show ?case
  proof (cases rule: refinesE)
    case fails
    then show ?thesis by (simp add: refines_def)
  next
    case (returns port1 evs)
    let ?s = "s\<lparr>ports := (ports s)(p \<mapsto> port1), events := events s @ evs\<rparr>"
    have "refines p ?s port1 (length ops) (naked_ops ops ?s p) (spec_ops p ops (senders_of port1))"
      using Cons.prems(3,5) returns(5)
      by (intro Cons.IH returns(3)) (simp_all add: senders_only_kotype [OF returns(4)] Cons.prems(4) [OF returns(6)])
    then show ?thesis
    proof (cases rule: refinesE)
      case fails
      then show ?thesis using returns(1,2) by (simp add: refines_def)
    next
      case r: (returns port2 evs')
      show ?thesis
        by (rule refinesI [where evs = "evs @ evs'", OF _ _ r(3) senders_only_trans [OF returns(4) r(4)]])
          (use r returns in simp_all)
    qed
  qed
qed

text \<open>The send rights left by a sequence, and what becomes of a pending request.\<close>

fun rights_after :: "nat \<Rightarrow> send_op list \<Rightarrow> nat" where
  "rights_after n [] = n"
| "rights_after n (Release_send # ops) = rights_after (n - 1) ops"
| "rights_after n (_ # ops) = rights_after (n + 1) ops"

lemma spec_ops_no_request:
  "spec_ops p ops (n, m, IP_NULL) = Some ((n', m', req'), evs) \<Longrightarrow> evs = [] \<and> req' = IP_NULL \<and> n' = rights_after n ops"
proof (induction ops arbitrary: n m evs)
  case (Cons op ops)
  then show ?case by (cases op) (fastforce simp: bind_Some_iff split: if_splits)+
qed simp

lemma take_all_iff: "(\<exists>k\<le>length (x # xs). P (take k (x # xs))) \<longleftrightarrow> P [] \<or> (\<exists>k\<le>length xs. P (x # take k xs))"
proof
  assume "\<exists>k\<le>length (x # xs). P (take k (x # xs))"
  then obtain k where k: "k \<le> length (x # xs)" "P (take k (x # xs))" by blast
  then show "P [] \<or> (\<exists>k\<le>length xs. P (x # take k xs))" by (cases k) auto
next
  assume "P [] \<or> (\<exists>k\<le>length xs. P (x # take k xs))"
  then show "\<exists>k\<le>length (x # xs). P (take k (x # xs))"
  proof
    assume "\<exists>k\<le>length xs. P (x # take k xs)"
    then obtain k where "k \<le> length xs" "P (x # take k xs)" by blast
    then show ?thesis by (intro exI [of _ "Suc k"]) simp
  qed (intro exI [of _ 0], simp)
qed

lemma spec_ops_request:
  assumes "spec_ops p ops (n, m, req) = Some ((n', m', req'), evs)" "0 < n" "req \<noteq> IP_NULL"
  shows "n' = rights_after n ops \<and>
    (if \<exists>k\<le>length ops. rights_after n (take k ops) = 0
     then req' = IP_NULL \<and> (\<exists>m. evs = [no_senders_event p req m]) else req' = req \<and> evs = [])"
  using assms
proof (induction ops arbitrary: n m evs)
  case (Cons op ops)
  show ?case
  proof (cases "op = Release_send \<and> n = 1")
    case True
    then obtain evs' where rest: "spec_ops p ops (0, m, IP_NULL) = Some ((n', m', req'), evs')"
      and evs: "evs = no_senders_event p req m # evs'" using Cons.prems by (auto simp: bind_Some_iff)
    have "\<exists>k\<le>length (op # ops). rights_after n (take k (op # ops)) = 0"
      using True by (intro exI [of _ 1]) simp
    then show ?thesis using True evs spec_ops_no_request [OF rest] by simp (rule exI, rule refl)
  next
    case False
    define n1 where "n1 = (if op = Release_send then n - 1 else n + 1)"
    have n1: "0 < n1" "rights_after n (op # ops) = rights_after n1 ops"
      "(\<exists>k\<le>length (op # ops). rights_after n (take k (op # ops)) = 0) \<longleftrightarrow> (\<exists>k\<le>length ops. rights_after n1 (take k ops) = 0)"
      unfolding n1_def take_all_iff [of op ops "\<lambda>l. rights_after n l = 0"]
      using False Cons.prems(2) by (cases op, simp_all)+
    obtain m1 where "spec_ops p ops (n1, m1, req) = Some ((n', m', req'), evs)"
      using Cons.prems False by (cases op) (auto simp: n1_def bind_Some_iff split: if_splits)
    from Cons.IH [OF this n1(1) Cons.prems(3)] show ?thesis unfolding n1 .
  qed
qed simp


section \<open>Properties\<close>

definition demo_peer_port :: ipc_port where
  "demo_peer_port = demo_live\<lparr>ip_receiver_name := 0x103, ip_receiver := demo_other, ip_srights := 1,
     ip_nsrequest := demo_watcher\<rparr>"

text \<open>
  C15 (refinement).  A sequence of make-send, copy-send and release-send operations on a live port
  implements the counter specification: it returns exactly when no operation of the sequence copies
  or drops a right that does not exist, it then has sent the notifications of the specification, in
  order, and changed nothing but the make-send count, the send rights, the request and the
  references of the port.
\<close>

theorem senders_refine:
  assumes "ports s p = Some port" "senders_inv port" "p \<noteq> IP_NULL"
    and "ip_nsrequest port = IP_KOBJECT_NSREQUEST_ARMED \<Longrightarrow> iko_op_no_senders (env s) (ip_kotype port)"
    and "unat (io_references port) + length ops \<le> unat OS_REFCNT_MAX_COUNT"
  shows "case spec_ops p ops (senders_of port) of
      None \<Rightarrow> naked_ops ops s p = None
    | Some (a, evs) \<Rightarrow> \<exists>port'. naked_ops ops s p = Some (s\<lparr>ports := (ports s)(p \<mapsto> port'), events := events s @ evs\<rparr>) \<and>
        senders_of port' = a \<and> senders_inv port' \<and> senders_only port port'"
  using naked_ops_refines [OF assms] by (cases rule: refinesE) auto

lemma demo_peer_senders: "senders_inv demo_peer_port" "senders_of demo_peer_port = (1, 0, demo_watcher)"
  "unat (io_references demo_peer_port) + 4 \<le> unat OS_REFCNT_MAX_COUNT" "ip_nsrequest demo_peer_port \<noteq> IP_KOBJECT_NSREQUEST_ARMED"
  by (simp_all add: demo_peer_port_def senders_inv_def senders_of_def OS_REFCNT_MAX_COUNT_def io_active_def IO_BITS_ACTIVE_def)

lemma demo_peer_fields: "ports demo_state demo_peer = Some demo_peer_port" "ip_nsrequest demo_peer_port = demo_watcher"
  "ip_srights demo_peer_port = 1"
  by (simp_all add: demo_peer_port_def)

theorem senders_refine_witness:
  "\<exists>port'. naked_ops [Make_send, Release_send, Release_send, Make_send] demo_state demo_peer =
       Some (demo_state\<lparr>ports := (ports demo_state)(demo_peer \<mapsto> port'), events := [Mach_notify_no_senders demo_watcher 1]\<rparr>) \<and>
     senders_of port' = (1, 2, IP_NULL) \<and> senders_inv port'"
  using senders_refine [of demo_state demo_peer demo_peer_port "[Make_send, Release_send, Release_send, Make_send]"]
    demo_peer_senders by (auto simp: demo_peer_port_def [symmetric] no_senders_event_def mach_consts)

text \<open>
  C16 (liveness).  A pending no-senders request of a port with send rights is answered as soon as the
  last send right goes away and only once, whatever happens to the port afterwards; as long as a send
  right is left it stays pending and nothing is sent.
\<close>

theorem senders_gone:
  assumes "ports s p = Some port" "senders_inv port" "p \<noteq> IP_NULL" "ip_nsrequest port \<noteq> IP_NULL" "ip_srights port \<noteq> 0"
    and "ip_nsrequest port = IP_KOBJECT_NSREQUEST_ARMED \<Longrightarrow> iko_op_no_senders (env s) (ip_kotype port)"
    and "unat (io_references port) + length ops \<le> unat OS_REFCNT_MAX_COUNT"
    and "spec_ops p ops (senders_of port) \<noteq> None"
  shows "\<exists>s' port'. naked_ops ops s p = Some s' \<and> ports s' p = Some port' \<and>
    unat (ip_srights port') = rights_after (unat (ip_srights port)) ops \<and>
    (if \<exists>k\<le>length ops. rights_after (unat (ip_srights port)) (take k ops) = 0
     then ip_nsrequest port' = IP_NULL \<and> (\<exists>m. events s' = events s @ [no_senders_event p (ip_nsrequest port) m])
     else ip_nsrequest port' = ip_nsrequest port \<and> events s' = events s)"
proof (rule refinesE [OF naked_ops_refines [OF assms(1-3,6,7)]])
  fix port' evs
  assume returns: "naked_ops ops s p = Some (s\<lparr>ports := (ports s)(p \<mapsto> port'), events := events s @ evs\<rparr>)"
    "spec_ops p ops (senders_of port) = Some (senders_of port', evs)"
  have "0 < unat (ip_srights port)" using assms(5) by (simp add: unat_gt_0)
  from spec_ops_request [OF returns(2) [unfolded senders_of_def] this assms(4)] returns(1)
  show ?thesis by (intro exI [of _ "s\<lparr>ports := (ports s)(p \<mapsto> port'), events := events s @ evs\<rparr>"] exI [of _ port']) auto
next
  assume "spec_ops p ops (senders_of port) = None"
  then show ?thesis using assms(8) by contradiction
qed

theorem senders_gone_witness:
  "\<exists>s'. naked_ops [Copy_send, Release_send, Release_send, Make_send] demo_state demo_peer = Some s' \<and>
     (\<exists>m. events s' = [Mach_notify_no_senders demo_watcher m])"
proof -
  let ?ops = "[Copy_send, Release_send, Release_send, Make_send]"
  have zero: "\<exists>k\<le>length ?ops. rights_after (unat (ip_srights demo_peer_port)) (take k ?ops) = 0"
    by (intro exI [of _ 3]) (simp add: eval_nat_numeral demo_peer_fields)
  have "spec_ops demo_peer ?ops (senders_of demo_peer_port) \<noteq> None" by (simp add: demo_peer_senders mach_consts)
  then have "\<exists>s' port'. naked_ops ?ops demo_state demo_peer = Some s' \<and> ports s' demo_peer = Some port' \<and>
      unat (ip_srights port') = rights_after (unat (ip_srights demo_peer_port)) ?ops \<and>
      (ip_nsrequest port' = IP_NULL \<and>
       (\<exists>m. events s' = events demo_state @ [no_senders_event demo_peer (ip_nsrequest demo_peer_port) m]))"
    using senders_gone [of demo_state demo_peer demo_peer_port ?ops] demo_peer_senders zero
    by (simp only: if_True demo_peer_fields list.size) (simp add: mach_consts demo_peer_fields)
  then show ?thesis by (simp only: demo_peer_fields no_senders_event_def demo_neq if_False demo_state_fields append.simps) blast
qed

end
