(* ===== verification/Urefs_Delta.thy ===== *)
theory Urefs_Delta
imports Ipc_Right
begin

text \<open>
  What \<open>ipc_right_urefs_delta\<close> makes of a requested change of user references: the result of the change
  stays between 0 and the maximum, a pegged count only leaves the maximum all at once.
\<close>

lemma uint_add_sint: "uint (n + d :: 32 word) = (uint n + sint d) mod 2 ^ 32"
  by (simp add: uint_word_ariths uint_sint [of d] take_bit_eq_mod mod_add_right_eq)

lemma uint_minus_sint: "uint (- d :: 32 word) = (- sint d) mod 2 ^ 32"
  by (simp add: uint_word_ariths uint_sint [of d] take_bit_eq_mod mod_minus_eq)

lemma urefs_delta_cases:
  assumes "n \<le> MACH_PORT_UREFS_MAX"
  shows "case ipc_right_urefs_delta n delta of
      None \<Rightarrow> sint delta \<notin> {- 65535..65535} \<or> n \<noteq> MACH_PORT_UREFS_MAX \<and> uint n + sint delta < 0
    | Some d \<Rightarrow> uint (n + d) = (if n = MACH_PORT_UREFS_MAX then if sint delta = - 65535 then 0 else 65535
                                else min 65535 (uint n + sint delta)) \<and> uint (n + d) \<le> 65535"
proof -
  have n: "uint n \<le> 65535" using assms by (simp add: mach_consts word_le_def)
  have n0: "0 \<le> uint n" by simp
  have small: "uint n < 65535" if "n \<noteq> MACH_PORT_UREFS_MAX"
    using that n by (simp add: mach_consts word_uint_eq_iff)
  have max: "sint MACH_PORT_UREFS_MAX = 65535" "uint MACH_PORT_UREFS_MAX = 65535"
    by (simp_all add: mach_consts)
  consider (out) "sint delta \<notin> {- 65535..65535}" | (peg) "sint delta \<in> {- 65535..65535}" "n = MACH_PORT_UREFS_MAX"
    | (under) "sint delta \<in> {- 65535..65535}" "n \<noteq> MACH_PORT_UREFS_MAX" "uint n + sint delta < 0"
    | (over) "sint delta \<in> {- 65535..65535}" "n \<noteq> MACH_PORT_UREFS_MAX" "0 \<le> uint n + sint delta" "65535 \<le> uint n + sint delta"
    | (within) "sint delta \<in> {- 65535..65535}" "n \<noteq> MACH_PORT_UREFS_MAX" "0 \<le> uint n + sint delta" "uint n + sint delta < 65535"
    by linarith
  then show ?thesis
  proof cases
    case out
    then show ?thesis by (auto simp: ipc_right_urefs_delta_def max)
  next
    case peg
    have "delta = - MACH_PORT_UREFS_MAX \<longleftrightarrow> sint delta = - 65535"
    proof
      assume "sint delta = - 65535"
      then show "delta = - MACH_PORT_UREFS_MAX" by (intro signed_word_eqI) (simp add: mach_consts)
    qed (simp add: mach_consts)
    then show ?thesis using peg by (auto simp: ipc_right_urefs_delta_def max)
  next
    case under
    then have neg: "sint delta < 0" using n0 by linarith
    then have "- sint delta mod 2 ^ 32 = - sint delta" using under(1) by (intro mod_pos_pos_trivial) auto
    then have "MACH_PORT_UREFS_UNDERFLOW n delta"
      using under neg by (simp add: MACH_PORT_UREFS_UNDERFLOW_def word_less_def uint_minus_sint)
    then show ?thesis using under by (auto simp: ipc_right_urefs_delta_def max)
  next
    case over
    have "uint (n + delta) = uint n + sint delta" unfolding uint_add_sint using over n by (intro mod_pos_pos_trivial) auto
    then have o: "MACH_PORT_UREFS_OVERFLOW n delta" 
      using over small by (auto simp: MACH_PORT_UREFS_OVERFLOW_def word_le_def max)
    have "\<not> MACH_PORT_UREFS_UNDERFLOW n delta" using over n by (auto simp: MACH_PORT_UREFS_UNDERFLOW_def)
    then show ?thesis using over o by (auto simp: ipc_right_urefs_delta_def max)
  next
    case within
    have eq: "uint (n + delta) = uint n + sint delta" unfolding uint_add_sint using within n by (intro mod_pos_pos_trivial) auto
    have "\<not> MACH_PORT_UREFS_OVERFLOW n delta"
      using within n eq by (auto simp: MACH_PORT_UREFS_OVERFLOW_def word_le_def max)
    moreover have "\<not> MACH_PORT_UREFS_UNDERFLOW n delta"
      using within n by (auto simp: MACH_PORT_UREFS_UNDERFLOW_def word_less_def uint_minus_sint)
    ultimately show ?thesis using within eq by (auto simp: ipc_right_urefs_delta_def max)
  qed
qed

end
