(* ===== verification/Right_Calls.thy ===== *)
theory Right_Calls
imports Right_Caps Mach_Port Port_Senders Urefs_Delta
begin

text \<open>
  The calls that change the user references of a send right: \<open>mach_port_deallocate\<close>,
  \<open>mach_port_mod_refs\<close>, and moving a right into a message and back.  Each is compared with its effect on
  the capabilities of the space and, for the last reference, with the release of a naked right.
\<close>

section \<open>Live rights\<close>

lemma check_live:
  assumes "get_entry s a i = Some e" "ie_object e = p" "ports s p = Some port" "ip_active port"
  shows "ipc_right_check s a p name i flags = Some (s, False)"
  using assms by (simp add: ipc_right_check_def kassert_def)

text \<open>A send right of a live port in a well-formed space, found under its name.\<close>

definition live_send ::
    "ipc_state \<Rightarrow> ipc_space_t \<Rightarrow> ipc_entry list \<Rightarrow> nat list \<Rightarrow> mach_port_name_t \<Rightarrow> ipc_port_t \<Rightarrow> ipc_port \<Rightarrow> mach_port_urefs_t \<Rightarrow> bool" where
  "live_send s a t xs name p port n \<longleftrightarrow>
     wf_at s a t xs \<and> a \<noteq> IS_NULL \<and> caps t name = Some (p, MACH_PORT_TYPE_SEND, n) \<and> n \<noteq> 0 \<and> p \<noteq> IP_NULL \<and>
     ports s p = Some port \<and> ip_active port \<and> ip_srights port \<noteq> 0"

lemma live_sendE:
  assumes "live_send s a t xs name p port n"
  obtains i where "wf_at s a t xs" "a \<noteq> IS_NULL" "0 < i" "i < length t" "name = entry_name t i" "unat (MACH_PORT_INDEX name) = i"
    "i \<notin> set xs" "ie_object (t ! i) = p" "IE_BITS_TYPE (ie_bits (t ! i)) = MACH_PORT_TYPE_SEND"
    "IE_BITS_UREFS (ie_bits (t ! i)) = n" "n \<noteq> 0" "p \<noteq> IP_NULL" "ports s p = Some port" "ip_active port"
    "ip_srights port \<noteq> 0" "get_entry s a i = Some (t ! i)" "MACH_PORT_VALID name"
    "ipc_right_lookup_write s a name = Some (KERN_SUCCESS, i)"
    "\<And>flags. ipc_right_check s a p name i flags = Some (s, False)"
proof -
  have wf: "wf_at s a t xs" and c: "caps t name = Some (p, MACH_PORT_TYPE_SEND, n)"
    and rest: "a \<noteq> IS_NULL" "n \<noteq> 0" "p \<noteq> IP_NULL" "ports s p = Some port" "ip_active port" "ip_srights port \<noteq> 0"
    using assms by (simp_all add: live_send_def)
  obtain i where i: "0 < i" "i < length t" "name = entry_name t i" "unat (MACH_PORT_INDEX name) = i" "i \<notin> set xs"
    "ie_object (t ! i) = p" "IE_BITS_TYPE (ie_bits (t ! i)) = MACH_PORT_TYPE_SEND" "IE_BITS_UREFS (ie_bits (t ! i)) = n"
    using caps_used [OF wf c] by metis
  note D = wf_atD [OF wf]
  have e: "get_entry s a i = Some (t ! i)" using get_entry_at [OF D(1) i(2)] .
  show thesis
    using that [OF wf rest(1) i rest(2-6) e] entry_name_facts(3) [OF D(3) i(1,2)] lookup_write_at [OF D(1) c] i(3,4)
      check_live [OF e i(6) rest(4,5)] by simp
qed

lemma send_bits:
  assumes "IE_BITS_TYPE b = MACH_PORT_TYPE_SEND"
  shows "b AND MACH_PORT_TYPE_SEND \<noteq> 0" "b AND MACH_PORT_TYPE_RECEIVE = 0" "b AND MACH_PORT_TYPE_DEAD_NAME = 0"
    "b AND MACH_PORT_TYPE_SEND_RIGHTS \<noteq> 0" "b AND MACH_PORT_TYPE_SEND_ONCE = 0"
    "b AND MACH_PORT_TYPE_SEND_RECEIVE \<noteq> 0"
  using assms by (simp_all add: type_test mach_consts)


section \<open>Giving references back\<close>

lemma dealloc_call:
  assumes "live_send s a t xs name p port n"
  shows "mach_port_deallocate s a name = ipc_right_dealloc_send s a name (unat (MACH_PORT_INDEX name))"
  by (rule live_sendE [OF assms])
    (simp add: mach_port_deallocate_def ipc_right_dealloc_def mach_consts)

lemma modrefs_call:
  assumes "live_send s a t xs name p port n"
  shows "mach_port_mod_refs s a name MACH_PORT_RIGHT_SEND delta =
    ipc_right_delta_send s a name (unat (MACH_PORT_INDEX name)) delta"
  by (rule live_sendE [OF assms])
    (simp add: mach_port_mod_refs_def ipc_right_delta_def mach_consts)

text \<open>One reference of several: an entry with one reference less, unless the count is at its maximum.\<close>

lemma lose_ref_at:
  assumes wf: "wf_at s a t xs" and i: "0 < i" "i < length t" "i \<notin> set xs" and n: "IE_BITS_UREFS (ie_bits (t ! i)) = n" "n \<noteq> 0"
  obtains s' t' where
    "do { s \<leftarrow> (if n < MACH_PORT_UREFS_MAX then set_ie_bits s a i (ie_bits (t ! i) - 1) else Some s);
          sp_entry_modified s a (entry_name t i) i } = Some s'" "only_space a s s'" "wf_at s' a t' xs"
    "length t' = length t" "sends t' = sends t"
    "caps t' = (caps t)(entry_name t i \<mapsto> (ie_object (t ! i), IE_BITS_TYPE (ie_bits (t ! i)), if n < MACH_PORT_UREFS_MAX then n - 1 else n))"
proof -
  note D = wf_atD [OF wf]
  have index: "unat (MACH_PORT_INDEX (entry_name t i)) = i" by (rule entry_name_facts(1) [OF D(3) i(1,2)])
  show thesis
  proof (cases "n < MACH_PORT_UREFS_MAX")
    case True
    let ?b = "ie_bits (t ! i) - 1"
    have b: "IE_BITS_UREFS ?b = n - 1" "?b AND 0xffff0000 = ie_bits (t ! i) AND 0xffff0000"
      using UREFS_sub1 [of "ie_bits (t ! i)"] n by simp_all
    obtain s1 t' where s1: "set_ie_bits s a i ?b = Some s1" "only_space a s s1" "wf_at s1 a t' xs" "length t' = length t"
      "sends t' = sends t" "caps t' = (caps t)(entry_name t i \<mapsto> (ie_object (t ! i), IE_BITS_TYPE (ie_bits (t ! i)), n - 1))"
      using set_bits_at [OF wf i b(2)] unfolding b(1) by blast
    obtain s' where s': "sp_entry_modified s1 a (entry_name t i) i = Some s'" "only_space a s1 s'" "space_at s' a t' xs (sends t')"
      using modified_at [OF wf_atD(1) [OF s1(3)] _ index] i(2) s1(4) by metis
    show thesis
      by (rule that [of s' t']) (use True s1 s' wf_atD(2) [OF s1(3)] only_space_trans [OF s1(2) s'(2)] in \<open>simp_all add: wf_at_def\<close>)
  next
    case False
    obtain s' where s': "sp_entry_modified s a (entry_name t i) i = Some s'" "only_space a s s'" "space_at s' a t xs (sends t)"
      using modified_at [OF D(1) i(2) index] .
    have "IE_BITS_TYPE (ie_bits (t ! i)) \<noteq> 0" using i D(2) by (auto simp: frees_def)
    then have "caps t (entry_name t i) = Some (ie_object (t ! i), IE_BITS_TYPE (ie_bits (t ! i)), n)"
      using caps_entry_name [OF D(3) i(1,2)] n(1) by (simp add: cap_of_def)
    then show thesis
      by (intro that [of s' t]) (use False s' D(2) in \<open>simp_all add: wf_at_def map_upd_triv\<close>)
  qed
qed

text \<open>The last one: the name goes away, what is left is to release a naked send right.\<close>

lemma dealloc_last:
  assumes live: "live_send s a t xs name p port 1" and req: "ie_request (t ! unat (MACH_PORT_INDEX name)) = IE_REQ_NONE"
    and pinned: "\<not> ip_pinned port"
  obtains s1 t' where "only_space a s s1" "wf_at s1 a t' (unat (MACH_PORT_INDEX name) # xs)" "caps t' = (caps t)(name := None)"
    "mach_port_deallocate s a name = do { s' \<leftarrow> ipc_port_release_send_and_unlock s1 p; Some (s', KERN_SUCCESS) }"
proof (rule live_sendE [OF live])
  fix i
  assume L: "wf_at s a t xs" "0 < i" "i < length t" "name = entry_name t i" "unat (MACH_PORT_INDEX name) = i"
    "ie_object (t ! i) = p" "IE_BITS_TYPE (ie_bits (t ! i)) = MACH_PORT_TYPE_SEND" "IE_BITS_UREFS (ie_bits (t ! i)) = 1"
    "p \<noteq> IP_NULL" "ports s p = Some port" "ip_active port" "ip_srights port \<noteq> 0" "get_entry s a i = Some (t ! i)"
    "\<And>flags. ipc_right_check s a p name i flags = Some (s, False)"
  have no_req: "ie_request (t ! i) = IE_REQ_NONE" using req L(5) by simp
  have obj: "ie_object (t ! i) \<noteq> IO_NULL" using L(6,9) by (simp add: mach_consts)
  obtain s0 s1 t' where s1: "sp_hash_delete s a p name i = Some s0" "sp_entry_dealloc s0 a p name i = Some s1"
    "only_space a s s1" "wf_at s1 a t' (i # xs)" "caps t' = (caps t)(name := None)"
    using remove_send_at [OF L(1-3) no_req L(7) obj] unfolding L(6) L(4) [symmetric] by blast
  have s1_eq: "s1 = s\<lparr>spaces := spaces s1\<rparr>" using s1(3) by (rule only_space_eq)
  have "ports s1 p = Some port" using only_space_fields(1) [OF s1(3)] L(10) by simp
  note rel = release_drop [OF this L(11)]
  have "mach_port_deallocate s a name = do { s' \<leftarrow> ipc_port_release_send_and_unlock s1 p; Some (s', KERN_SUCCESS) }"
  proof (cases "ipc_right_drop_send s p MACH_PORT_TYPE_SEND")
    case None
    then have "ipc_right_drop_send s1 p MACH_PORT_TYPE_SEND = None"
      using drop_send_spaces [OF L(10,11), of "spaces s1" MACH_PORT_TYPE_SEND] s1_eq by simp
    then show ?thesis using None L(6-14) pinned unfolding dealloc_call [OF live] L(5)
      by (simp add: ipc_right_dealloc_send_def kassert_def word_gt_0 rel)
  next
    case (Some r)
    obtain s2 ns where r: "r = (s2, ns)" by (cases r)
    obtain P where P: "s2 = s\<lparr>ports := P\<rparr>" using drop_send_ports [OF L(10,11) Some [unfolded r]] .
    have "ipc_right_drop_send s1 p MACH_PORT_TYPE_SEND = Some (s2\<lparr>spaces := spaces s1\<rparr>, ns)"
      using drop_send_spaces [OF L(10,11), of "spaces s1" MACH_PORT_TYPE_SEND] s1_eq Some r by simp
    moreover have "s2\<lparr>spaces := spaces s1\<rparr> = s1\<lparr>ports := P\<rparr>" unfolding P by (subst (2) s1_eq) simp
    moreover have "sp_hash_delete s2 a p name i = Some (s0\<lparr>ports := P\<rparr>)" "sp_entry_dealloc (s0\<lparr>ports := P\<rparr>) a p name i = Some (s1\<lparr>ports := P\<rparr>)"
      using s1(1,2) by (simp_all add: P on_space_ports)
    moreover have "ipc_right_request_cancel_macro s2 a p name i = Some (s2, IP_NULL)"
      using L(13) no_req by (simp add: ipc_right_request_cancel_macro_def P)
    ultimately show ?thesis using Some r L(6-14) pinned unfolding dealloc_call [OF live] L(5)
      by (simp add: ipc_right_dealloc_send_def kassert_def word_gt_0 rel)
  qed
  then show thesis using that [OF s1(3)] s1(4,5) L(5) by simp
qed

section \<open>Changing the count\<close>

lemma sint_minus_one: "sint (- 1 :: 32 word) = - 1"
  by simp

lemma urefs_delta_minus_one:
  assumes "n \<noteq> 0" "n \<noteq> MACH_PORT_UREFS_MAX"
  shows "ipc_right_urefs_delta n (- 1) = Some (- 1)"
  using assms
  by (simp add: ipc_right_urefs_delta_def MACH_PORT_UREFS_UNDERFLOW_def MACH_PORT_UREFS_OVERFLOW_def mach_consts
      word_less_nat_alt unat_gt_0)

lemma drop_send_port:
  assumes "ports s p = Some port" "ip_active port" "ipc_right_drop_send s p ty = Some (s', ns)"
  obtains port' where "ports s' p = Some port'" "ip_pinned port' = ip_pinned port"
  using assms that
  by (auto simp: ipc_right_drop_send_def mod_port_def ipc_notify_no_senders_prepare_def kassert_def io_active_def
      split: if_splits)

lemma modrefs_dealloc:
  assumes live: "live_send s a t xs name p port n" and n: "n \<noteq> MACH_PORT_UREFS_MAX"
  shows "mach_port_mod_refs s a name MACH_PORT_RIGHT_SEND (- 1) = mach_port_deallocate s a name"
proof (rule live_sendE [OF live])
  fix i
  assume L: "wf_at s a t xs" "0 < i" "i < length t" "unat (MACH_PORT_INDEX name) = i"
    "ie_object (t ! i) = p" "IE_BITS_TYPE (ie_bits (t ! i)) = MACH_PORT_TYPE_SEND" "IE_BITS_UREFS (ie_bits (t ! i)) = n"
    "n \<noteq> 0" "p \<noteq> IP_NULL" "ports s p = Some port" "ip_active port" "ip_srights port \<noteq> 0" "get_entry s a i = Some (t ! i)"
    "\<And>flags. ipc_right_check s a p name i flags = Some (s, False)"
  note bits = send_bits [OF L(6)]
  have le: "n < MACH_PORT_UREFS_MAX" using UREFS_le [of "ie_bits (t ! i)"] n L(7) by simp
  show ?thesis
  proof (cases "n = 1")
    case False
    then show ?thesis using L(5-14) bits le n unfolding modrefs_call [OF live] dealloc_call [OF live] L(4)
      by (simp add: ipc_right_delta_send_def ipc_right_dealloc_send_def kassert_def word_gt_0 urefs_delta_minus_one)
  next
    case True
    show ?thesis
    proof (cases "ipc_right_drop_send s p MACH_PORT_TYPE_SEND")
      case None
      then show ?thesis using True L(5-14) bits le n unfolding modrefs_call [OF live] dealloc_call [OF live] L(4)
        by (simp add: ipc_right_delta_send_def ipc_right_dealloc_send_def kassert_def word_gt_0 urefs_delta_minus_one
            ipc_right_delta_send_gone_def)
    next
      case (Some r)
      obtain s2 ns where r: "r = (s2, ns)" by (cases r)
      obtain port' where "ports s2 p = Some port'" "ip_pinned port' = ip_pinned port"
        using drop_send_port [OF L(10,11) Some [unfolded r]] .
      then show ?thesis using True Some r L(5-14) bits le n unfolding modrefs_call [OF live] dealloc_call [OF live] L(4)
        by (simp add: ipc_right_delta_send_def ipc_right_dealloc_send_def kassert_def word_gt_0 urefs_delta_minus_one
            ipc_right_delta_send_gone_def case_prod_beta) (simp add: case_prod_unfold)
    qed
  qed
qed


section \<open>Into a message and back\<close>

lemmas msg_type_consts = MACH_MSG_TYPE_MOVE_RECEIVE_def MACH_MSG_TYPE_MOVE_SEND_def MACH_MSG_TYPE_MOVE_SEND_ONCE_def
  MACH_MSG_TYPE_COPY_SEND_def MACH_MSG_TYPE_MAKE_SEND_def MACH_MSG_TYPE_MAKE_SEND_ONCE_def
  MACH_MSG_TYPE_PORT_RECEIVE_def MACH_MSG_TYPE_PORT_SEND_def MACH_MSG_TYPE_PORT_SEND_ONCE_def

lemma gain_ref_at:
  assumes wf: "wf_at s a t xs" and i: "0 < i" "i < length t" "i \<notin> set xs"
    and n: "IE_BITS_UREFS (ie_bits (t ! i)) = n" "n < MACH_PORT_UREFS_MAX"
  obtains s' t' where
    "do { s \<leftarrow> set_ie_bits s a i (ie_bits (t ! i) + 1); sp_entry_modified s a (entry_name t i) i } = Some s'"
    "only_space a s s'" "wf_at s' a t' xs"
    "caps t' = (caps t)(entry_name t i \<mapsto> (ie_object (t ! i), IE_BITS_TYPE (ie_bits (t ! i)), n + 1))"
proof -
  let ?b = "ie_bits (t ! i) + 1"
  have index: "unat (MACH_PORT_INDEX (entry_name t i)) = i" by (rule entry_name_facts(1) [OF wf_atD(3) [OF wf] i(1,2)])
  have b: "IE_BITS_UREFS ?b = n + 1" "?b AND 0xffff0000 = ie_bits (t ! i) AND 0xffff0000"
    using UREFS_add1 [of "ie_bits (t ! i)"] n by simp_all
  obtain s1 t' where s1: "set_ie_bits s a i ?b = Some s1" "only_space a s s1" "wf_at s1 a t' xs" "length t' = length t"
    "sends t' = sends t" "caps t' = (caps t)(entry_name t i \<mapsto> (ie_object (t ! i), IE_BITS_TYPE (ie_bits (t ! i)), n + 1))"
    using set_bits_at [OF wf i b(2)] unfolding b(1) by blast
  obtain s' where s': "sp_entry_modified s1 a (entry_name t i) i = Some s'" "only_space a s1 s'" "space_at s' a t' xs (sends t')"
    using modified_at [OF wf_atD(1) [OF s1(3)] _ index] i(2) s1(4) by metis
  show thesis
    by (rule that [of s' t']) (use s1 s' wf_atD(2) [OF s1(3)] only_space_trans [OF s1(2) s'(2)] in \<open>simp_all add: wf_at_def\<close>)
qed

lemma send_or: "IE_BITS_TYPE b = MACH_PORT_TYPE_SEND \<Longrightarrow> b OR MACH_PORT_TYPE_SEND = b"
proof -
  assume "IE_BITS_TYPE b = MACH_PORT_TYPE_SEND"
  then have "b AND 0x10000 = 0x10000" using type_test [of "0x10000" b] by (simp add: mach_consts)
  then show ?thesis by (simp add: or_absorb_iff mach_consts and.commute)
qed

lemma release_live_eq:
  assumes "ports s p = Some port" "1 < unat (io_references port)"
  shows "ip_release_live s p = Some (s\<lparr>ports := (ports s)(p \<mapsto> port\<lparr>io_references := io_references port - 1\<rparr>)\<rparr>)"
proof -
  have "0 < unat (io_references port)" using assms(2) by simp
  from os_ref_release_unat [OF this] obtain r where r: "os_ref_release (io_references port) = Some r"
    "unat r = unat (io_references port) - 1" by blast
  then have "r = io_references port - 1" "r \<noteq> 0" using os_ref_release_Some assms(2) by auto
  then show ?thesis using r(1) assms(1) by (simp add: ipc_object_release_live_def mod_port_def kassert_def)
qed

lemma copyin_send:
  assumes live: "live_send s a t xs name p port n" and n: "n \<noteq> 1" and mv: "\<not> ip_immovable_send port"
    and inv: "senders_inv port" "unat (io_references port) < unat OS_REFCNT_MAX_COUNT"
  obtains s1 X t1 where "ipc_object_copyin s a name MACH_MSG_TYPE_MOVE_SEND context gflags 0 = Some (s1, KERN_SUCCESS, p)"
    "s1 = s\<lparr>ports := (ports s)(p \<mapsto> port\<lparr>ip_srights := ip_srights port + 1, io_references := io_references port + 1\<rparr>), spaces := X\<rparr>"
    "wf_at s1 a t1 xs" "length t1 = length t" "sends t1 = sends t"
    "caps t1 = (caps t)(name \<mapsto> (p, MACH_PORT_TYPE_SEND, if n < MACH_PORT_UREFS_MAX then n - 1 else n))"
proof (rule live_sendE [OF live])
  fix i
  assume L: "wf_at s a t xs" "0 < i" "i < length t" "name = entry_name t i" "i \<notin> set xs"
    "ie_object (t ! i) = p" "IE_BITS_TYPE (ie_bits (t ! i)) = MACH_PORT_TYPE_SEND" "IE_BITS_UREFS (ie_bits (t ! i)) = n"
    "n \<noteq> 0" "p \<noteq> IP_NULL" "ports s p = Some port" "ip_active port" "ip_srights port \<noteq> 0" "get_entry s a i = Some (t ! i)"
    "ipc_right_lookup_write s a name = Some (KERN_SUCCESS, i)"
    "\<And>flags. ipc_right_check s a p name i flags = Some (s, False)"
  let ?s = "s\<lparr>ports := (ports s)(p \<mapsto> port\<lparr>ip_srights := ip_srights port + 1, io_references := io_references port + 1\<rparr>)\<rparr>"
  have copy: "ipc_port_copy_send_locked s p = Some ?s"
    using copy_send_eq [OF L(11) inv] L(13) by simp
  have "wf_at ?s a t xs" using L(1) by (subst wf_at_cong [of _ a s]) simp_all
  from lose_ref_at [OF this L(2,3,5,8,9)] obtain s1 t1 where s1:
    "do { s \<leftarrow> (if n < MACH_PORT_UREFS_MAX then set_ie_bits ?s a i (ie_bits (t ! i) - 1) else Some ?s);
          sp_entry_modified s a name i } = Some s1" "only_space a ?s s1" "wf_at s1 a t1 xs"
    "length t1 = length t" "sends t1 = sends t" "caps t1 = (caps t)(name \<mapsto> (p, MACH_PORT_TYPE_SEND, if n < MACH_PORT_UREFS_MAX then n - 1 else n))"
    unfolding L(6,7) L(4) [symmetric] .
  have "ipc_object_copyin s a name MACH_MSG_TYPE_MOVE_SEND context gflags 0 = Some (s1, KERN_SUCCESS, p)"
    using L(6-16) send_bits [OF L(7)] n mv copy s1(1)
    by (simp add: ipc_object_copyin_def ipc_right_copyin_def ipc_right_copyin_move_send_def kassert_def word_gt_0
        msg_type_consts copyin_none_def mach_consts) (auto simp: bind_Some_iff split: if_splits)
  then show thesis using that [of s1 "spaces s1" t1] s1(3-6) only_space_eq [OF s1(2)] by simp
qed

text \<open>An ordinary port whose receive right is elsewhere, and a table with room.\<close>

definition copyout_ready :: "ipc_state \<Rightarrow> ipc_space_t \<Rightarrow> ipc_entry list \<Rightarrow> nat list \<Rightarrow> ipc_port_t \<Rightarrow> ipc_port \<Rightarrow> bool" where
  "copyout_ready s a t xs p port \<longleftrightarrow>
     IO_VALID p \<and> io_otype port = IOT_PORT \<and> \<not> ip_is_kolabeled port \<and> \<not> ip_in_space port a \<and>
     xs \<noteq> [] \<and> card (sends t) + 1 \<le> length t * 7 div 8"

lemma hold_at:
  assumes at: "space_at s a t xs H" and room: "xs \<noteq> []" "card H + 1 \<le> length t * 7 div 8"
  obtains sp sp' where "spaces s a = Some sp" "is_active sp" "ipc_entries_hold sp 1 = Some (sp', KERN_SUCCESS)" "is_active sp'"
    "space_at (s\<lparr>spaces := (spaces s)(a \<mapsto> sp')\<rparr>) a t xs H"
proof -
  obtain sp where sp: "spaces s a = Some sp" "space_inv sp t xs H" "is_active sp" using at by (rule space_atD)
  obtain sp' kr where h: "ipc_entries_hold sp 1 = Some (sp', kr)" "space_inv sp' t xs H"
    "kr = KERN_SUCCESS \<longleftrightarrow> card H + unat (1 :: 32 word) \<le> length t * 7 div 8 \<and> unat (1 :: 32 word) \<le> length xs"
    using ipc_entries_hold_spec [OF sp(2), of 1] by auto
  moreover have "kr = KERN_SUCCESS" using h(3) room by (cases xs) auto
  ultimately show thesis using that [of sp sp'] sp space_invD(2) [OF h(2)] by (simp add: space_at_def)
qed

lemma reverse_at:
  assumes at: "space_at s a t xs H" and i: "i \<in> H" "i < length t" "ie_object (t ! i) = p"
    "IE_BITS_TYPE (ie_bits (t ! i)) = MACH_PORT_TYPE_SEND"
    and port: "ports s p = Some port" "io_otype port = IOT_PORT" "ip_active port" "\<not> ip_in_space port a"
  shows "ipc_right_reverse s a p = Some (Some (entry_name t i, i))"
proof -
  obtain sp where sp: "spaces s a = Some sp" "space_inv sp t xs H" "is_active sp" using at by (rule space_atD)
  show ?thesis
    using sp port i(4,3) ipc_hash_lookup_found [OF sp(2) i(1)] get_entry_at [OF at i(2)]
    by (simp add: ipc_right_reverse_def require_ip_active_def kassert_def)
qed

lemma copyout_send:
  assumes live: "live_send s a t xs name p port n" and ready: "copyout_ready s a t xs p port"
    and refs: "1 < unat (ip_srights port)" "1 < unat (io_references port)"
  obtains s1 X t1 where "ipc_object_copyout mem s a p MACH_MSG_TYPE_PORT_SEND 0 None = Some (s1, KERN_SUCCESS, name, None)"
    "s1 = s\<lparr>ports := (ports s)(p \<mapsto> port\<lparr>ip_srights := ip_srights port - 1, io_references := io_references port - 1\<rparr>), spaces := X\<rparr>"
    "wf_at s1 a t1 xs" "caps t1 = (caps t)(name \<mapsto> (p, MACH_PORT_TYPE_SEND, if n < MACH_PORT_UREFS_MAX then n + 1 else n))"
proof (rule live_sendE [OF live])
  fix i
  assume L: "wf_at s a t xs" "0 < i" "i < length t" "name = entry_name t i" "i \<notin> set xs"
    "ie_object (t ! i) = p" "IE_BITS_TYPE (ie_bits (t ! i)) = MACH_PORT_TYPE_SEND" "IE_BITS_UREFS (ie_bits (t ! i)) = n"
    "n \<noteq> 0" "p \<noteq> IP_NULL" "ports s p = Some port" "ip_active port"
  have R: "IO_VALID p" "io_otype port = IOT_PORT" "\<not> ip_is_kolabeled port" "\<not> ip_in_space port a" "xs \<noteq> []"
    "card (sends t) + 1 \<le> length t * 7 div 8" using ready by (simp_all add: copyout_ready_def)
  have mem_i: "i \<in> sends t" using L(2,3,6,7,10) by (simp add: sends_def mach_consts)
  obtain sp sp' where sp: "spaces s a = Some sp" "is_active sp" "ipc_entries_hold sp 1 = Some (sp', KERN_SUCCESS)" "is_active sp'"
    "space_at (s\<lparr>spaces := (spaces s)(a \<mapsto> sp')\<rparr>) a t xs (sends t)"
    using hold_at [OF wf_atD(1) [OF L(1)] R(5,6)] .
  define s0 where "s0 = s\<lparr>spaces := (spaces s)(a \<mapsto> sp')\<rparr>"
  have loop: "ipc_object_copyout_loop mem s a p MACH_MSG_TYPE_PORT_SEND 0 = Some (s0, KERN_SUCCESS, p, 0)"
    using sp(1-4) L(11,12) R(3)
    by (subst ipc_object_copyout_loop.simps) (simp add: ipc_kobject_label_check_def kassert_def s0_def)
  have port0: "ports s0 p = Some port" using L(11) by (simp add: s0_def)
  have rev: "ipc_right_reverse s0 a p = Some (Some (name, i))"
    unfolding L(4) s0_def using reverse_at [OF sp(5) mem_i L(3,6,7) _ R(2) L(12) R(4)] L(11) by simp
  define port' where "port' = port\<lparr>ip_srights := ip_srights port - 1, io_references := io_references port - 1\<rparr>"
  define s2 where "s2 = s0\<lparr>ports := (ports s0)(p \<mapsto> port')\<rparr>"
  have wf2: "wf_at s2 a t xs"
    using sp(5) wf_atD(2) [OF L(1)] by (subst wf_at_cong [of _ a s0]) (simp_all add: s2_def wf_at_def s0_def)
  have e0: "get_entry s0 a i = Some (t ! i)" using get_entry_at [OF sp(5) L(3)] by (simp add: s0_def)
  have live2: "do { s \<leftarrow> mod_port s0 p (\<lambda>port. port\<lparr>ip_srights := ip_srights port - 1\<rparr>); ip_release_live s p } = Some s2"
    using port0 refs(2) release_live_eq [of "s0\<lparr>ports := (ports s0)(p \<mapsto> port\<lparr>ip_srights := ip_srights port - 1\<rparr>)\<rparr>" p]
    by (simp add: mod_port_def s2_def port'_def)
  have srights: "ip_srights port > 0" "ip_srights port > 1" using refs(1) by (simp_all add: word_less_nat_alt)
  obtain s1 t1 where s1: "ipc_right_copyout_send s0 a name i p = Some s1" "only_space a s2 s1" "wf_at s1 a t1 xs"
    "caps t1 = (caps t)(name \<mapsto> (p, MACH_PORT_TYPE_SEND, if n < MACH_PORT_UREFS_MAX then n + 1 else n))"
  proof (cases "n < MACH_PORT_UREFS_MAX")
    case True
    from gain_ref_at [OF wf2 L(2,3,5,8) True] obtain s1 t1 where g:
      "do { s \<leftarrow> set_ie_bits s2 a i (ie_bits (t ! i) + 1); sp_entry_modified s a name i } = Some s1"
      "only_space a s2 s1" "wf_at s1 a t1 xs" "caps t1 = (caps t)(name \<mapsto> (p, MACH_PORT_TYPE_SEND, n + 1))"
      unfolding L(6,7) L(4) [symmetric] .
    have "ipc_right_copyout_send s0 a name i p = Some s1"
      using e0 port0 srights send_bits(1) [OF L(7)] L(8,9) True live2 g(1) send_or [OF L(7)]
      by (auto simp: ipc_right_copyout_send_def kassert_def word_gt_0 bind_Some_iff)
    then show thesis using that g True by simp
  next
    case False
    then have n: "n = MACH_PORT_UREFS_MAX" using UREFS_le [of "ie_bits (t ! i)"] L(8) by simp
    then have "ipc_right_copyout_send s0 a name i p = Some s2"
      using e0 port0 srights send_bits(1) [OF L(7)] L(8,9) live2
      by (auto simp: ipc_right_copyout_send_def kassert_def word_gt_0 bind_Some_iff)
    moreover have "caps t name = Some (p, MACH_PORT_TYPE_SEND, n)" using live by (simp add: live_send_def)
    ultimately show thesis using that [of s2 t] wf2 n by (simp add: map_upd_triv)
  qed
  have "ipc_object_copyout mem s a p MACH_MSG_TYPE_PORT_SEND 0 None = Some (s1, KERN_SUCCESS, name, None)"
    using R(1,2) L(11,12,6) loop rev e0 send_bits [OF L(7)] s1(1) port0
    by (simp add: ipc_object_copyout_def ITH_KNOTE_VALID_def msg_type_consts kassert_def ipc_right_copyout_def)
  then show thesis
    using that [of s1 "spaces s1" t1] s1(3,4) only_space_eq [OF s1(2)] by (simp add: s2_def s0_def port'_def)
qed

end
