(* ===== verification/Send_Rights.thy ===== *)
theory Send_Rights
imports Right_Calls
begin

text \<open>
  Properties of the calls on send rights, stated on the capabilities of a task and the state of a port.
\<close>

section \<open>A task that holds a send right\<close>

lemma demo_wf: "wf_at demo_state demo_task demo_table [3..<21]"
  using demo_space_wf by (simp add: wf_at_def space_at_def wf_space_def)

lemma demo_caps: "caps demo_table 0x2ff = Some (demo_peer, MACH_PORT_TYPE_SEND, 1)"
proof -
  have "MACH_PORT_INDEX 0x2ff = 2" "entry_name demo_table 2 = 0x2ff"
    by (simp_all add: MACH_PORT_INDEX_def entry_name_def demo_table_nth demo_base_nth IE_BITS_GEN_def MACH_PORT_MAKE_def mach_consts)
  then show ?thesis
    by (simp add: caps_def demo_table_nth demo_base_nth cap_of_def IE_BITS_TYPE_def IE_BITS_UREFS_def mach_consts)
qed

lemma demo_live_send: "live_send demo_state demo_task demo_table [3..<21] 0x2ff demo_peer demo_peer_port 1"
  using demo_wf demo_caps demo_peer_senders(1)
  by (simp add: live_send_def demo_peer_fields senders_inv_def mach_consts del: demo_state_ports)

lemma demo_request: "ie_request (demo_table ! unat (MACH_PORT_INDEX 0x2ff)) = IE_REQ_NONE"
  by (simp add: MACH_PORT_INDEX_def demo_table_nth demo_base_nth ipc_entry_zero_def mach_consts)

lemma demo_not_pinned: "\<not> ip_pinned demo_peer_port" "\<not> ip_immovable_send demo_peer_port" "io_otype demo_peer_port = IOT_PORT"
  "\<not> ip_is_kolabeled demo_peer_port" "\<not> ip_in_space demo_peer_port demo_task"
  by (simp_all add: demo_peer_port_def demo_live_def ipc_port_zero_def io_otype_def IOT_PORT_def IO_BITS_OTYPE_def
      IO_BITS_ACTIVE_def io_is_kolabeled_def IO_BITS_KOLABEL_def ip_in_space_def ip_in_a_space_def mach_name_consts)

text \<open>The same right with two user references.\<close>

lemma demo_two_refs:
  obtains s t where "live_send s demo_task t [3..<21] 0x2ff demo_peer demo_peer_port 2" "ports s = ports demo_state"
    "length t = 21" "sends t = {2}" "events s = []"
proof -
  have e: "entry_name demo_table 2 = 0x2ff" "ie_object (demo_table ! 2) = demo_peer"
    "IE_BITS_TYPE (ie_bits (demo_table ! 2)) = MACH_PORT_TYPE_SEND"
    by (simp_all add: entry_name_def demo_table_nth demo_base_nth IE_BITS_GEN_def MACH_PORT_MAKE_def IE_BITS_TYPE_def mach_consts)
  have "(0xff010002 :: 32 word) AND 0xffff0000 = ie_bits (demo_table ! 2) AND 0xffff0000"
    by (simp add: demo_table_nth demo_base_nth)
  moreover have "0 < (2 :: nat)" "2 < length demo_table" "2 \<notin> set [3..<21]" by simp_all
  ultimately obtain s t where "only_space demo_task demo_state s" "wf_at s demo_task t [3..<21]" "length t = length demo_table"
    "sends t = sends demo_table"
    "caps t = (caps demo_table)(0x2ff \<mapsto> (demo_peer, MACH_PORT_TYPE_SEND, IE_BITS_UREFS 0xff010002))"
    using set_bits_at [OF demo_wf, of 2 "0xff010002"] unfolding e by blast
  then show thesis
    using that [of s t] demo_live_send only_space_fields(1,4) [of demo_task demo_state s]
    by (simp add: live_send_def IE_BITS_UREFS_def mach_consts demo_sends)
qed


section \<open>Properties\<close>

text \<open>
  C22 (functional).  Deallocating a send right with several user references takes one reference off its
  name, unless their number is pegged at the maximum, and changes nothing else: no other name, no port,
  no notification, and the space stays well formed.
\<close>

theorem deallocate_send:
  assumes "live_send s a t xs name p port n" "n \<noteq> 1"
  shows "\<exists>s' t'. mach_port_deallocate s a name = Some (s', KERN_SUCCESS) \<and> only_space a s s' \<and> wf_at s' a t' xs \<and>
    caps t' = (caps t)(name \<mapsto> (p, MACH_PORT_TYPE_SEND, if n < MACH_PORT_UREFS_MAX then n - 1 else n))"
proof (rule live_sendE [OF assms(1)])
  fix i
  assume L: "wf_at s a t xs" "0 < i" "i < length t" "name = entry_name t i" "unat (MACH_PORT_INDEX name) = i" "i \<notin> set xs"
    "ie_object (t ! i) = p" "IE_BITS_TYPE (ie_bits (t ! i)) = MACH_PORT_TYPE_SEND" "IE_BITS_UREFS (ie_bits (t ! i)) = n"
    "n \<noteq> 0" "p \<noteq> IP_NULL" "ports s p = Some port" "ip_active port" "ip_srights port \<noteq> 0" "get_entry s a i = Some (t ! i)"
    "\<And>flags. ipc_right_check s a p name i flags = Some (s, False)"
  from lose_ref_at [OF L(1-3,6,9,10)] obtain s' t' where s':
    "do { s \<leftarrow> (if n < MACH_PORT_UREFS_MAX then set_ie_bits s a i (ie_bits (t ! i) - 1) else Some s);
          sp_entry_modified s a name i } = Some s'" "only_space a s s'" "wf_at s' a t' xs"
    "caps t' = (caps t)(name \<mapsto> (p, MACH_PORT_TYPE_SEND, if n < MACH_PORT_UREFS_MAX then n - 1 else n))"
    unfolding L(7,8) L(4) [symmetric] .
  have "ipc_right_dealloc_send s a name i = Some (s', KERN_SUCCESS)"
    using L(7-16) assms(2) s'(1)
    by (simp add: ipc_right_dealloc_send_def kassert_def word_gt_0) (auto simp: bind_Some_iff split: if_splits)
  then have "mach_port_deallocate s a name = Some (s', KERN_SUCCESS)" by (simp add: dealloc_call [OF assms(1)] L(5))
  then show ?thesis using s'(2-4) by blast
qed

theorem deallocate_send_witness:
  "\<exists>s t s' t'. mach_port_deallocate s demo_task 0x2ff = Some (s', KERN_SUCCESS) \<and> caps t 0x2ff = Some (demo_peer, MACH_PORT_TYPE_SEND, 2) \<and>
     wf_at s' demo_task t' [3..<21] \<and> caps t' 0x2ff = Some (demo_peer, MACH_PORT_TYPE_SEND, 1)"
proof (rule demo_two_refs)
  fix s t assume live: "live_send s demo_task t [3..<21] 0x2ff demo_peer demo_peer_port 2"
  have "(2 :: 32 word) < MACH_PORT_UREFS_MAX" by (simp add: mach_consts)
  then show ?thesis using deallocate_send [OF live] live by (fastforce simp: live_send_def)
qed









end
