(* ===== verification/Dead_Names.thy ===== *)
theory Dead_Names
imports Send_Rights
begin

text \<open>
  Rights whose port has died.  The right layer finds out when a right is used: \<open>ipc_right_check\<close> turns the
  entry into a dead name and leaves the reference that the entry held to its caller.
\<close>

section \<open>Conversion\<close>

text \<open>A send right of a dead port; \<open>pending\<close> says whether it had a request that has not been answered.\<close>

definition dead_send ::
    "ipc_state \<Rightarrow> ipc_space_t \<Rightarrow> ipc_entry list \<Rightarrow> nat list \<Rightarrow> mach_port_name_t \<Rightarrow> ipc_port_t \<Rightarrow> ipc_port \<Rightarrow> mach_port_urefs_t \<Rightarrow> bool \<Rightarrow> bool" where
  "dead_send s a t xs name p port n pending \<longleftrightarrow>
     wf_at s a t xs \<and> a \<noteq> IS_NULL \<and> caps t name = Some (p, MACH_PORT_TYPE_SEND, n) \<and> n \<noteq> 0 \<and> p \<noteq> IP_NULL \<and>
     ports s p = Some port \<and> \<not> ip_active port \<and> ip_srights port \<noteq> 0 \<and>
     (let r = ie_request (t ! unat (MACH_PORT_INDEX name))
      in if r = IE_REQ_NONE then \<not> pending else \<exists>ty. ipc_port_request_type port name r = Some ty \<and> pending = (ty \<noteq> 0))"

definition dead_urefs :: "mach_port_urefs_t \<Rightarrow> bool \<Rightarrow> mach_port_urefs_t" where
  "dead_urefs n pending = (if pending \<and> n < MACH_PORT_UREFS_MAX then n + 1 else n)"

lemma dead_bits:
  fixes b defines "d \<equiv> (b AND NOT IE_BITS_TYPE_MASK) OR MACH_PORT_TYPE_DEAD_NAME"
  shows "IE_BITS_TYPE d = MACH_PORT_TYPE_DEAD_NAME" "IE_BITS_UREFS d = IE_BITS_UREFS b" "IE_BITS_GEN d = IE_BITS_GEN b"
    "gen_ok d = gen_ok b"
  using retype [where b = b and ty = MACH_PORT_TYPE_DEAD_NAME] low_update [of IE_BITS_TYPE_MASK MACH_PORT_TYPE_DEAD_NAME b]
  by (simp_all add: d_def mach_consts)

lemma dead_bits_add:
  fixes b pending
  defines "d \<equiv> (b AND NOT IE_BITS_TYPE_MASK) OR MACH_PORT_TYPE_DEAD_NAME"
  defines "d' \<equiv> (if pending \<and> IE_BITS_UREFS d < MACH_PORT_UREFS_MAX then d + 1 else d)"
  shows "IE_BITS_TYPE d' = MACH_PORT_TYPE_DEAD_NAME" "IE_BITS_UREFS d' = dead_urefs (IE_BITS_UREFS b) pending"
    "IE_BITS_GEN d' = IE_BITS_GEN b" "gen_ok d' = gen_ok b"
proof -
  note D = dead_bits [of b, folded d_def]
  have high: "d' AND 0xffff0000 = d AND 0xffff0000" using UREFS_add1(2) [of d] by (simp add: d'_def)
  show "IE_BITS_TYPE d' = MACH_PORT_TYPE_DEAD_NAME" "IE_BITS_GEN d' = IE_BITS_GEN b" "gen_ok d' = gen_ok b"
    using high_fields [OF high] D by simp_all
  show "IE_BITS_UREFS d' = dead_urefs (IE_BITS_UREFS b) pending"
    using UREFS_add1(1) [of d] D(2) by (simp add: d'_def dead_urefs_def)
qed

lemma check_dead:
  assumes dead: "dead_send s a t xs name p port n pending"
  obtains s' t' X where "ipc_right_check s a p name (unat (MACH_PORT_INDEX name)) IPC_OBJECT_COPYIN_FLAGS_NONE = Some (s', True)"
    "s' = s\<lparr>ports := (ports s)(p \<mapsto> port\<lparr>ip_srights := ip_srights port - 1\<rparr>), spaces := X\<rparr>" "wf_at s' a t' xs"
    "caps t' = (caps t)(name \<mapsto> (IO_NULL, MACH_PORT_TYPE_DEAD_NAME, dead_urefs n pending))"
    "ie_request (t' ! unat (MACH_PORT_INDEX name)) = IE_REQ_NONE"
proof -
  have wf: "wf_at s a t xs" and c: "caps t name = Some (p, MACH_PORT_TYPE_SEND, n)"
    and P: "n \<noteq> 0" "p \<noteq> IP_NULL" "ports s p = Some port" "\<not> ip_active port" "ip_srights port \<noteq> 0"
    using dead by (simp_all add: dead_send_def)
  obtain i where i: "0 < i" "i < length t" "name = entry_name t i" "unat (MACH_PORT_INDEX name) = i" "i \<notin> set xs"
    "ie_object (t ! i) = p" "IE_BITS_TYPE (ie_bits (t ! i)) = MACH_PORT_TYPE_SEND" "IE_BITS_UREFS (ie_bits (t ! i)) = n"
    using caps_used [OF wf c] by metis
  have req: "if ie_request (t ! i) = IE_REQ_NONE then \<not> pending
      else \<exists>ty. ipc_port_request_type port name (ie_request (t ! i)) = Some ty \<and> pending = (ty \<noteq> 0)"
    using dead i(4) by (simp add: dead_send_def Let_def)
  note D = wf_atD [OF wf]
  let ?b = "ie_bits (t ! i)"
  let ?d = "(?b AND NOT IE_BITS_TYPE_MASK) OR MACH_PORT_TYPE_DEAD_NAME"
  define d where "d = (if pending \<and> IE_BITS_UREFS ?d < MACH_PORT_UREFS_MAX then ?d + 1 else ?d)"
  note B = dead_bits_add [of pending ?b, folded d_def]
  define s1 where "s1 = s\<lparr>ports := (ports s)(p \<mapsto> port\<lparr>ip_srights := ip_srights port - 1\<rparr>)\<rparr>"
  have at1: "space_at s1 a t xs (sends t)" using D(1) by (subst space_at_cong [of _ a s]) (simp_all add: s1_def)
  have mem: "i \<in> sends t" using i P(2) by (simp add: sends_def mach_consts)
  obtain s2 t2 where s2: "sp_hash_delete s1 a p name i = Some s2" "only_space a s1 s2" "same_caps t t2"
    "space_at s2 a t2 xs (sends t - {i})"
    using hash_delete_at [OF at1 mem i(4)] unfolding i(6) .
  have same: "length t2 = length t" "ie_bits (t2 ! i) = ?b" "sends t2 = sends t" "frees t2 = frees t" "entry_name t2 i = name"
    using s2(3) i(2,3) sends_same_caps [OF s2(3)] by (auto simp: same_caps_def frees_def entry_name_def)
  have c2: "caps t2 = caps t"
    by (rule caps_eqI [OF D(3) space_at_table [OF s2(4)]]) (use s2(3) in \<open>auto simp: same_caps_def same_cap_def\<close>)
  let ?f = "\<lambda>e. e\<lparr>ie_request := IE_REQ_NONE, ie_bits := d, ie_object := IO_NULL\<rparr>"
  let ?t = "t2[i := ?f (t2 ! i)]"
  have "gen_ok ?b" using D(3) i(1,2) by (simp add: table_inv_def)
  then obtain s3 where s3: "mod_entry s2 a i ?f = Some s3" "only_space a s2 s3" "space_at s3 a ?t xs (sends t - {i})"
    using mod_entry_at [OF s2(4) i(1) _ i(5), of ?f] i(2) B(4) same(1) by auto
  obtain s4 where s4: "sp_entry_modified s3 a name i = Some s4" "only_space a s3 s4" "space_at s4 a ?t xs (sends t - {i})"
    using modified_at [OF s3(3) _ i(4)] i(2) same(1) by auto
  have "sends ?t - {i} = sends t2 - {i}" "frees ?t - {i} = frees t2 - {i}"
    by (rule sends_frees_set; simp)+
  moreover have "i \<notin> sends ?t" "i \<notin> frees ?t" "i \<notin> frees t2"
    using B(1) i(2,5) same(1,4) D(2) by (simp_all add: sends_def frees_def mach_consts)
  ultimately have "sends ?t = sends t - {i}" "frees ?t = frees t" using same(3,4) by blast+
  then have wf4: "wf_at s4 a ?t xs" using s4(3) D(2) by (simp add: wf_at_def)
  have caps: "caps ?t = (caps t)(name \<mapsto> (IO_NULL, MACH_PORT_TYPE_DEAD_NAME, dead_urefs n pending))"
    using caps_upd [OF space_at_table [OF s2(4)] i(1), of "?f (t2 ! i)"] i(2,8) B same c2 by (simp add: cap_of_def mach_consts)
  have e: "get_entry s a i = Some (t ! i)" using get_entry_at [OF D(1) i(2)] .
  have type: "(if ie_request (t ! i) \<noteq> IE_REQ_NONE
            then do {
              type \<leftarrow> ipc_port_request_type port name (ie_request (t ! i));
              Some (if type \<noteq> 0 \<and> IE_BITS_UREFS ?d < MACH_PORT_UREFS_MAX then ?d + 1 else ?d)
            }
            else Some ?d) = Some d"
    using req by (auto simp: d_def split: if_splits)
  have "ipc_right_check s a p name i IPC_OBJECT_COPYIN_FLAGS_NONE = Some (s4, True)"
    unfolding ipc_right_check_def
    using e P i(6-8) s2(1) s3(1) s4(1) send_bits [OF i(7)] type
    by (simp add: kassert_def word_gt_0 mod_port_def s1_def IPC_OBJECT_COPYIN_FLAGS_NONE_def)
  moreover have "s4 = s\<lparr>ports := (ports s)(p \<mapsto> port\<lparr>ip_srights := ip_srights port - 1\<rparr>), spaces := spaces s4\<rparr>"
    using only_space_eq [OF only_space_trans [OF only_space_trans [OF s2(2) s3(2)] s4(2)]] by (simp add: s1_def)
  ultimately show thesis using that wf4 caps i(2,4) same(1) by simp
qed


section \<open>Using a right of a dead port\<close>

text \<open>What is left of a dead name with \<open>m\<close> user references when one is given back.\<close>

definition dead_less :: "mach_port_urefs_t \<Rightarrow> capability option" where
  "dead_less m = (if m = 1 then None
     else Some (IO_NULL, MACH_PORT_TYPE_DEAD_NAME, if m < MACH_PORT_UREFS_MAX then m - 1 else m))"

lemma dead_urefs_pos:
  assumes "n \<noteq> 0"
  shows "dead_urefs n pending \<noteq> 0"
proof -
  have "n + 1 \<noteq> 0" if "n < MACH_PORT_UREFS_MAX"
  proof -
    have "unat n < 65535" using that by (simp add: mach_consts word_less_nat_alt)
    then have "unat (n + 1) = unat n + 1" by (simp add: unat_word_ariths)
    then show ?thesis by auto
  qed
  then show ?thesis using assms by (auto simp: dead_urefs_def)
qed

lemma dead_name_entry:
  assumes wf: "wf_at s a t xs" and c: "caps t name = Some (IO_NULL, MACH_PORT_TYPE_DEAD_NAME, m)" "m \<noteq> 0"
    and req: "ie_request (t ! unat (MACH_PORT_INDEX name)) = IE_REQ_NONE"
  obtains s' t' xs' where "ipc_right_dealloc_dead s a name (unat (MACH_PORT_INDEX name)) IP_NULL = Some s'" "only_space a s s'"
    "wf_at s' a t' xs'" "caps t' = (caps t)(name := dead_less m)"
proof -
  obtain i where i: "0 < i" "i < length t" "name = entry_name t i" "unat (MACH_PORT_INDEX name) = i" "i \<notin> set xs"
    "ie_object (t ! i) = IO_NULL" "IE_BITS_TYPE (ie_bits (t ! i)) = MACH_PORT_TYPE_DEAD_NAME" "IE_BITS_UREFS (ie_bits (t ! i)) = m"
    using caps_used [OF wf c(1)] by metis
  note D = wf_atD [OF wf]
  have e: "get_entry s a i = Some (t ! i)" using get_entry_at [OF D(1) i(2)] .
  have r: "ie_request (t ! i) = IE_REQ_NONE" using req i(4) by simp
  note step = e i(6-8) c(2) r
  show thesis
  proof (cases "m = 1")
    case True
    have "i \<notin> sends t" using i(6) by (simp add: sends_def)
    then have at: "space_at s a t xs (sends t - {i})" using D(1) by simp
    obtain s' t' where s': "sp_entry_dealloc s a IO_NULL name i = Some s'" "only_space a s s'"
      "wf_at s' a t' (i # xs)" "caps t' = (caps t)(name := None)"
      using dealloc_wf_at [OF at D(2) i(1,2,5) r] unfolding i(6) i(3) [symmetric] .
    then show thesis using that step True i(4)
      by (simp add: ipc_right_dealloc_dead_def kassert_def word_gt_0 dead_less_def)
  next
    case False
    obtain s' t' where s': "do { s \<leftarrow> (if m < MACH_PORT_UREFS_MAX then set_ie_bits s a i (ie_bits (t ! i) - 1) else Some s);
        sp_entry_modified s a name i } = Some s'" "only_space a s s'" "wf_at s' a t' xs"
      "caps t' = (caps t)(name \<mapsto> (IO_NULL, MACH_PORT_TYPE_DEAD_NAME, if m < MACH_PORT_UREFS_MAX then m - 1 else m))"
      using lose_ref_at [OF wf i(1,2,5,8) c(2)] unfolding i(6,7) i(3) [symmetric] .
    have "ipc_right_dealloc_dead s a name i IP_NULL = Some s'"
      using step False s'(1) by (simp add: ipc_right_dealloc_dead_def kassert_def word_gt_0)
    then show thesis using that s'(2-4) False i(4) by (simp add: dead_less_def)
  qed
qed

lemma dealloc_dead_relport:
  "p \<noteq> IP_NULL \<Longrightarrow> ipc_right_dealloc_dead s a name i p =
   do { s \<leftarrow> ipc_right_dealloc_dead s a name i IP_NULL; ip_release s p }"
  by (simp add: ipc_right_dealloc_dead_def Let_def)


section \<open>Properties\<close>

definition demo_dead_port :: ipc_port where
  "demo_dead_port = demo_peer_port\<lparr>io_bits := 0\<rparr>"

definition demo_dead :: ipc_state where
  "demo_dead = demo_state\<lparr>ports := (ports demo_state)(demo_peer \<mapsto> demo_dead_port)\<rparr>"

lemma demo_dead_send: "dead_send demo_dead demo_task demo_table [3..<21] 0x2ff demo_peer demo_dead_port 1 False"
proof -
  have "wf_at demo_dead demo_task demo_table [3..<21]" using demo_wf by (subst wf_at_cong [of _ _ demo_state]) (simp_all add: demo_dead_def)
  moreover have "ports demo_dead demo_peer = Some demo_dead_port" "\<not> ip_active demo_dead_port" "ip_srights demo_dead_port \<noteq> 0"
    by (simp_all add: demo_dead_def demo_dead_port_def io_active_def demo_peer_fields)
  ultimately show ?thesis
    using demo_caps demo_request by (simp add: dead_send_def mach_consts del: upt_rec_numeral)
qed

lemma demo_dead_refs: "1 < unat (io_references demo_dead_port)"
  by (simp add: demo_dead_port_def demo_peer_port_def)

text \<open>
  C31 (functional).  Using a send right of a dead port turns its name into a dead name with the same
  number of user references, one more when a pending request is answered that way; the send right is
  taken off the count of the port, the space stays well formed and nothing else changes.
\<close>

theorem check_dead_name:
  assumes "dead_send s a t xs name p port n pending"
  shows "\<exists>s' t'. ipc_right_check s a p name (unat (MACH_PORT_INDEX name)) IPC_OBJECT_COPYIN_FLAGS_NONE = Some (s', True) \<and>
    s' = s\<lparr>ports := (ports s)(p \<mapsto> port\<lparr>ip_srights := ip_srights port - 1\<rparr>), spaces := spaces s'\<rparr> \<and>
    wf_at s' a t' xs \<and> caps t' = (caps t)(name \<mapsto> (IO_NULL, MACH_PORT_TYPE_DEAD_NAME, dead_urefs n pending))"
proof (rule check_dead [OF assms])
  fix s' t' X
  assume 1: "ipc_right_check s a p name (unat (MACH_PORT_INDEX name)) IPC_OBJECT_COPYIN_FLAGS_NONE = Some (s', True)"
    "wf_at s' a t' xs" "caps t' = (caps t)(name \<mapsto> (IO_NULL, MACH_PORT_TYPE_DEAD_NAME, dead_urefs n pending))"
    and 2: "s' = s\<lparr>ports := (ports s)(p \<mapsto> port\<lparr>ip_srights := ip_srights port - 1\<rparr>), spaces := X\<rparr>"
  have "s' = s\<lparr>ports := (ports s)(p \<mapsto> port\<lparr>ip_srights := ip_srights port - 1\<rparr>), spaces := spaces s'\<rparr>" using 2 by simp
  with 1 show ?thesis by blast
qed

theorem check_dead_name_witness:
  "\<exists>s' t'. ipc_right_check demo_dead demo_task demo_peer 0x2ff 2 IPC_OBJECT_COPYIN_FLAGS_NONE = Some (s', True) \<and>
     caps t' 0x2ff = Some (IO_NULL, MACH_PORT_TYPE_DEAD_NAME, 1)"
proof -
  have i: "unat (MACH_PORT_INDEX 0x2ff) = 2" by (simp add: MACH_PORT_INDEX_def)
  obtain s' t' where c: "ipc_right_check demo_dead demo_task demo_peer 0x2ff 2 IPC_OBJECT_COPYIN_FLAGS_NONE = Some (s', True)"
    "caps t' = (caps demo_table)(0x2ff \<mapsto> (IO_NULL, MACH_PORT_TYPE_DEAD_NAME, dead_urefs 1 False))"
    using check_dead_name [OF demo_dead_send] unfolding i by blast
  have "caps t' 0x2ff = Some (IO_NULL, MACH_PORT_TYPE_DEAD_NAME, 1)" using c(2) by (simp add: dead_urefs_def)
  with c(1) show ?thesis by blast
qed

text \<open>
  C32 (functional).  Deallocating a send right of a dead port gives back one user reference of the dead
  name it has become, frees the name with the last one, and releases the reference to the port.
\<close>

theorem deallocate_dead:
  assumes "dead_send s a t xs name p port n pending" "1 < unat (io_references port)"
  shows "\<exists>s' t' xs'. mach_port_deallocate s a name = Some (s', KERN_SUCCESS) \<and> wf_at s' a t' xs' \<and>
    caps t' = (caps t)(name := dead_less (dead_urefs n pending)) \<and> events s' = events s \<and>
    ports s' = (ports s)(p \<mapsto> port\<lparr>ip_srights := ip_srights port - 1, io_references := io_references port - 1\<rparr>)"
proof (rule check_dead [OF assms(1)])
  fix s1 t1 X
  let ?i = "unat (MACH_PORT_INDEX name)"
  assume 1: "ipc_right_check s a p name ?i IPC_OBJECT_COPYIN_FLAGS_NONE = Some (s1, True)"
    "s1 = s\<lparr>ports := (ports s)(p \<mapsto> port\<lparr>ip_srights := ip_srights port - 1\<rparr>), spaces := X\<rparr>" "wf_at s1 a t1 xs"
    "caps t1 = (caps t)(name \<mapsto> (IO_NULL, MACH_PORT_TYPE_DEAD_NAME, dead_urefs n pending))" "ie_request (t1 ! ?i) = IE_REQ_NONE"
  have wf: "wf_at s a t xs" and c: "caps t name = Some (p, MACH_PORT_TYPE_SEND, n)"
    and P: "n \<noteq> 0" "p \<noteq> IP_NULL" "a \<noteq> IS_NULL" using assms(1) by (simp_all add: dead_send_def)
  obtain i where i: "0 < i" "i < length t" "name = entry_name t i" "?i = i" "ie_object (t ! i) = p"
    "IE_BITS_TYPE (ie_bits (t ! i)) = MACH_PORT_TYPE_SEND" "IE_BITS_UREFS (ie_bits (t ! i)) = n"
    using caps_used [OF wf c] by metis
  note D = wf_atD [OF wf]
  have e: "get_entry s a i = Some (t ! i)" using get_entry_at [OF D(1) i(2)] .
  have valid: "MACH_PORT_VALID name" using entry_name_facts(3) [OF D(3) i(1,2)] i(3) by simp
  have c1: "caps t1 name = Some (IO_NULL, MACH_PORT_TYPE_DEAD_NAME, dead_urefs n pending)" using 1(4) by simp
  obtain s2 t2 xs2 where 2: "ipc_right_dealloc_dead s1 a name ?i IP_NULL = Some s2" "only_space a s1 s2" "wf_at s2 a t2 xs2"
    "caps t2 = (caps t1)(name := dead_less (dead_urefs n pending))"
    using dead_name_entry [OF 1(3) c1 dead_urefs_pos [OF P(1)] 1(5)] .
  let ?port = "port\<lparr>ip_srights := ip_srights port - 1\<rparr>"
  let ?s = "s2\<lparr>ports := (ports s2)(p \<mapsto> ?port\<lparr>io_references := io_references ?port - 1\<rparr>)\<rparr>"
  note F = only_space_fields [OF 2(2)]
  have "ip_release s2 p = Some ?s" using release_live(1) [of s2 p ?port] F(1) 1(2) assms(2) by simp
  then have "mach_port_deallocate s a name = Some (?s, KERN_SUCCESS)"
    using lookup_write_at [OF D(1) c] e valid i(4-7) P 1(1) 2(1)
    by (simp add: mach_port_deallocate_def ipc_right_dealloc_def ipc_right_dealloc_send_def kassert_def word_gt_0
        dealloc_dead_relport mach_consts)
  moreover have "wf_at ?s a t2 xs2" using 2(3) by (subst wf_at_cong [of _ a s2]) simp_all
  moreover have "events ?s = events s"
    "ports ?s = (ports s)(p \<mapsto> port\<lparr>ip_srights := ip_srights port - 1, io_references := io_references port - 1\<rparr>)"
    using F(1,4) 1(2) by simp_all
  moreover have "caps t2 = (caps t)(name := dead_less (dead_urefs n pending))" using 2(4) 1(4) by simp
  ultimately show ?thesis by blast
qed

theorem deallocate_dead_witness:
  "\<exists>s' t' xs'. mach_port_deallocate demo_dead demo_task 0x2ff = Some (s', KERN_SUCCESS) \<and> wf_at s' demo_task t' xs' \<and>
     caps t' 0x2ff = None"
proof -
  obtain s' t' xs' where d: "mach_port_deallocate demo_dead demo_task 0x2ff = Some (s', KERN_SUCCESS)" "wf_at s' demo_task t' xs'"
    "caps t' = (caps demo_table)(0x2ff := dead_less (dead_urefs 1 False))"
    using deallocate_dead [OF demo_dead_send demo_dead_refs] by blast
  have "caps t' 0x2ff = None" using d(3) by (simp add: dead_urefs_def dead_less_def)
  with d(1,2) show ?thesis by blast
qed

text \<open>
  C33 (error).  A change of the user references of a dead name that is out of range is refused; but when the
  name was a send right whose port has died, it has been turned into a dead name by then and the
  reference to the port that the entry held is not released.
\<close>

theorem mod_refs_dead_leak:
  assumes "dead_send s a t xs name p port n pending" "sint delta \<notin> {- 65535..65535}"
  shows "\<exists>s' t' port'. mach_port_mod_refs s a name MACH_PORT_RIGHT_DEAD_NAME delta = Some (s', KERN_INVALID_VALUE) \<and>
    wf_at s' a t' xs \<and> caps t' = (caps t)(name \<mapsto> (IO_NULL, MACH_PORT_TYPE_DEAD_NAME, dead_urefs n pending)) \<and>
    ports s' p = Some port' \<and> io_references port' = io_references port"
proof (rule check_dead [OF assms(1)])
  fix s1 t1 X
  let ?i = "unat (MACH_PORT_INDEX name)"
  assume 1: "ipc_right_check s a p name ?i IPC_OBJECT_COPYIN_FLAGS_NONE = Some (s1, True)"
    "s1 = s\<lparr>ports := (ports s)(p \<mapsto> port\<lparr>ip_srights := ip_srights port - 1\<rparr>), spaces := X\<rparr>" "wf_at s1 a t1 xs"
    "caps t1 = (caps t)(name \<mapsto> (IO_NULL, MACH_PORT_TYPE_DEAD_NAME, dead_urefs n pending))" "ie_request (t1 ! ?i) = IE_REQ_NONE"
  have wf: "wf_at s a t xs" and c: "caps t name = Some (p, MACH_PORT_TYPE_SEND, n)"
    and P: "n \<noteq> 0" "p \<noteq> IP_NULL" "a \<noteq> IS_NULL" using assms(1) by (simp_all add: dead_send_def)
  obtain i where i: "0 < i" "i < length t" "name = entry_name t i" "?i = i" "ie_object (t ! i) = p"
    "IE_BITS_TYPE (ie_bits (t ! i)) = MACH_PORT_TYPE_SEND" "IE_BITS_UREFS (ie_bits (t ! i)) = n"
    using caps_used [OF wf c] by metis
  note D = wf_atD [OF wf]
  have e: "get_entry s a i = Some (t ! i)" using get_entry_at [OF D(1) i(2)] .
  have valid: "MACH_PORT_VALID name" using entry_name_facts(3) [OF D(3) i(1,2)] i(3) by simp
  have c1: "caps t1 name = Some (IO_NULL, MACH_PORT_TYPE_DEAD_NAME, dead_urefs n pending)" using 1(4) by simp
  obtain j where j: "j < length t1" "?i = j" "ie_object (t1 ! j) = IO_NULL"
    "IE_BITS_TYPE (ie_bits (t1 ! j)) = MACH_PORT_TYPE_DEAD_NAME" "IE_BITS_UREFS (ie_bits (t1 ! j)) = dead_urefs n pending"
    using caps_used [OF 1(3) c1] by metis
  have e1: "get_entry s1 a i = Some (t1 ! i)" using get_entry_at [OF wf_atD(1) [OF 1(3)] j(1)] j(2) i(4) by simp
  have none: "ipc_right_urefs_delta (dead_urefs n pending) delta = None"
    using assms(2) by (auto simp: ipc_right_urefs_delta_def mach_consts)
  have "mach_port_mod_refs s a name MACH_PORT_RIGHT_DEAD_NAME delta = Some (ipc_right_invalid_value s1 name)"
    using lookup_write_at [OF D(1) c] e e1 valid i(4-7) j(2-5) P(2,3) dead_urefs_pos [OF P(1)] 1(1,5) none send_bits(4) [OF i(6)]
    by (simp add: mach_port_mod_refs_def ipc_right_delta_def ipc_right_delta_dead_name_def kassert_def word_gt_0 mach_consts)
  moreover have "wf_at (fst (ipc_right_invalid_value s1 name)) a t1 xs"
    using 1(3) by (subst wf_at_cong [of _ a s1]) (simp_all add: ipc_right_invalid_value_def mach_port_guard_exception_def)
  ultimately show ?thesis using 1(2,4) by (auto simp: ipc_right_invalid_value_def mach_port_guard_exception_def)
qed

theorem mod_refs_dead_leak_witness:
  "\<exists>s' port'. mach_port_mod_refs demo_dead demo_task 0x2ff MACH_PORT_RIGHT_DEAD_NAME 0x10000 = Some (s', KERN_INVALID_VALUE) \<and>
     ports s' demo_peer = Some port' \<and> io_references port' = 3"
  using mod_refs_dead_leak [OF demo_dead_send, of "0x10000"] by (auto simp: demo_dead_port_def demo_peer_port_def)

end
