(* ===== verification/Port_Guards.thy ===== *)
theory Port_Guards
imports Right_Caps Mach_Port Demo_State
begin

text \<open>
  Guards of receive rights.  A task that does not know the guard of a port must not be able to take
  the guard off, change it or destroy the right; the calls that touch guards are one step relation, and
  what a strictly guarded port goes through is an invariant of its reachable states.
\<close>

section \<open>A receive right\<close>

definition live_receive ::
    "ipc_state \<Rightarrow> ipc_space_t \<Rightarrow> ipc_entry list \<Rightarrow> nat list \<Rightarrow> mach_port_name_t \<Rightarrow> ipc_port_t \<Rightarrow> ipc_port \<Rightarrow> bool" where
  "live_receive s a t xs name p port \<longleftrightarrow>
     wf_at s a t xs \<and> a \<noteq> IS_NULL \<and> p \<noteq> IP_NULL \<and>
     (\<exists>n. caps t name = Some (p, MACH_PORT_TYPE_RECEIVE, n) \<or> caps t name = Some (p, MACH_PORT_TYPE_SEND_RECEIVE, n)) \<and>
     ports s p = Some port \<and> ip_in_space port a \<and> ip_get_receiver_name port = name \<and> ip_waitq_valid port"

lemma live_receiveE:
  assumes "live_receive s a t xs name p port"
  obtains i where "wf_at s a t xs" "a \<noteq> IS_NULL" "p \<noteq> IP_NULL" "0 < i" "i < length t" "name = entry_name t i"
    "unat (MACH_PORT_INDEX name) = i" "i \<notin> set xs" "ie_object (t ! i) = p"
    "IE_BITS_TYPE (ie_bits (t ! i)) = MACH_PORT_TYPE_RECEIVE \<or> IE_BITS_TYPE (ie_bits (t ! i)) = MACH_PORT_TYPE_SEND_RECEIVE"
    "ports s p = Some port" "ip_active port" "ip_in_space port a" "ip_get_receiver_name port = name"
    "get_entry s a i = Some (t ! i)" "MACH_PORT_VALID name" "ie_bits (t ! i) AND MACH_PORT_TYPE_RECEIVE \<noteq> 0"
    "ipc_right_lookup_write s a name = Some (KERN_SUCCESS, i)"
    "ipc_port_translate_receive s a name = Some (KERN_SUCCESS, p)"
proof -
  have wf: "wf_at s a t xs" and port: "a \<noteq> IS_NULL" "p \<noteq> IP_NULL" "ports s p = Some port" "ip_in_space port a"
    "ip_get_receiver_name port = name" "ip_waitq_valid port" using assms by (simp_all add: live_receive_def)
  obtain ty n where c: "caps t name = Some (p, ty, n)" "ty = MACH_PORT_TYPE_RECEIVE \<or> ty = MACH_PORT_TYPE_SEND_RECEIVE"
    using assms by (auto simp: live_receive_def)
  obtain i where i: "0 < i" "i < length t" "name = entry_name t i" "unat (MACH_PORT_INDEX name) = i" "i \<notin> set xs"
    "ie_object (t ! i) = p" "IE_BITS_TYPE (ie_bits (t ! i)) = ty" using caps_used [OF wf c(1)] by metis
  note D = wf_atD [OF wf]
  obtain sp where sp: "spaces s a = Some sp" "space_inv sp t xs (sends t)" using D(1) by (rule space_atD)
  have e: "get_entry s a i = Some (t ! i)" using get_entry_at [OF D(1) i(2)] .
  have act: "ip_active port" using port(4) by (simp add: ip_in_space_def ip_in_a_space_def)
  have rcv: "ie_bits (t ! i) AND MACH_PORT_TYPE_RECEIVE \<noteq> 0"
    using i(7) c(2) type_test [of MACH_PORT_TYPE_RECEIVE "ie_bits (t ! i)"] by (auto simp: mach_consts)
  have "ipc_right_lookup_read s a name = Some (KERN_SUCCESS, ie_bits (t ! i), p)"
    using sp i port(2,3,6) space_invD [OF sp(2)] table_sized_head(1,2) [of t] entry_name_facts(2) [OF D(3) i(1,2)]
    by (auto simp: ipc_right_lookup_read_def nth_opt_in ipc_object_lock_allow_invalid_def is_active_table_def
        IE_BITS_TYPE_def mach_consts Let_def)
  then have "ipc_port_translate_receive s a name = Some (KERN_SUCCESS, p)"
    using rcv port(3,4) by (simp add: ipc_port_translate_receive_def ipc_object_translate_def
        MACH_PORT_RIGHT_VALID_TRANSLATE_def MACH_PORT_TYPE_def mach_consts kassert_def)
  then show thesis
    using that [OF wf port(1,2) i(1-6) _ port(3) act port(4,5) e] i(3,4,7) c(2) rcv
      entry_name_facts(3) [OF D(3) i(1,2)] lookup_write_at [OF D(1) c(1)] by simp
qed


section \<open>Calls without knowledge of the guard\<close>

text \<open>
  What a task can do to a name with any arguments, as long as it never presents the value \<open>g\<close> where a
  guard is asked for.
\<close>

inductive guard_calls :: "ipc_space_t \<Rightarrow> mach_port_name_t \<Rightarrow> 64 word \<Rightarrow> ipc_state \<Rightarrow> ipc_state \<Rightarrow> bool"
  for a name g where
  start: "guard_calls a name g s s"
| guard: "guard_calls a name g s s1 \<Longrightarrow> mach_port_guard s1 a name v strict = Some (s2, kr) \<Longrightarrow> guard_calls a name g s s2"
| guard_with_flags: "guard_calls a name g s s1 \<Longrightarrow> mach_port_guard_with_flags s1 a name v flags = Some (s2, kr) \<Longrightarrow>
    guard_calls a name g s s2"
| unguard: "guard_calls a name g s s1 \<Longrightarrow> v \<noteq> g \<Longrightarrow> mach_port_unguard s1 a name v = Some (s2, kr) \<Longrightarrow> guard_calls a name g s s2"
| swap_guard: "guard_calls a name g s s1 \<Longrightarrow> v \<noteq> g \<Longrightarrow> mach_port_swap_guard s1 a name v w = Some (s2, kr) \<Longrightarrow>
    guard_calls a name g s s2"
| set_context: "guard_calls a name g s s1 \<Longrightarrow> mach_port_set_context s1 a name c = Some (s2, kr) \<Longrightarrow> guard_calls a name g s s2"
| mod_refs: "guard_calls a name g s s1 \<Longrightarrow> mach_port_mod_refs s1 a name MACH_PORT_RIGHT_RECEIVE d = Some (s2, kr) \<Longrightarrow>
    guard_calls a name g s s2"
| destruct: "guard_calls a name g s s1 \<Longrightarrow> v \<noteq> g \<Longrightarrow> mach_port_destruct s1 a name d v = Some (s2, kr) \<Longrightarrow>
    guard_calls a name g s s2"

definition only_events :: "ipc_state \<Rightarrow> ipc_state \<Rightarrow> bool" where
  "only_events s s' \<longleftrightarrow> (\<exists>E. s' = s\<lparr>events := E\<rparr>)"

lemma only_events_refl [simp]: "only_events s s"
  unfolding only_events_def by (rule exI [of _ "events s"]) simp

lemma only_events_exception [simp]: "only_events s (mach_port_guard_exception s name v g reason)"
  by (auto simp: only_events_def mach_port_guard_exception_def event_def)

lemma only_events_trans: "only_events s s1 \<Longrightarrow> only_events s1 s2 \<Longrightarrow> only_events s s2"
  by (auto simp: only_events_def)

lemma live_receive_events:
  assumes "live_receive s a t xs name p port" "only_events s s'"
  shows "live_receive s' a t xs name p port"
proof -
  obtain E where s': "s' = s\<lparr>events := E\<rparr>" using assms(2) by (auto simp: only_events_def)
  have "wf_at s' a t xs = wf_at s a t xs" by (rule wf_at_cong) (simp add: s')
  then show ?thesis using assms(1) by (simp add: live_receive_def s')
qed

text \<open>A strictly guarded port with a guard other than zero answers each of these calls with an error.\<close>

lemma guarded_call:
  assumes live: "live_receive s a t xs name p port"
    and guard: "ip_guarded port" "ip_strict_guard port" "ip_context port = g" "g \<noteq> 0"
  shows "mach_port_guard s a name v strict = Some (s', kr) \<Longrightarrow> only_events s s'"
    and "mach_port_guard_with_flags s a name v flags = Some (s', kr) \<Longrightarrow> only_events s s'"
    and "mach_port_unguard s a name v = Some (s', kr) \<Longrightarrow> v \<noteq> g \<Longrightarrow> only_events s s'"
    and "mach_port_swap_guard s a name v w = Some (s', kr) \<Longrightarrow> v \<noteq> g \<Longrightarrow> only_events s s'"
    and "mach_port_set_context s a name c = Some (s', kr) \<Longrightarrow> only_events s s'"
    and "mach_port_mod_refs s a name MACH_PORT_RIGHT_RECEIVE d = Some (s', kr) \<Longrightarrow> only_events s s'"
    and "mach_port_destruct s a name d v = Some (s', kr) \<Longrightarrow> v \<noteq> g \<Longrightarrow> only_events s s'"
proof -
  obtain i where L: "a \<noteq> IS_NULL" "p \<noteq> IP_NULL" "ie_object (t ! i) = p" "ports s p = Some port" "ip_active port"
    "ip_in_space port a" "ip_get_receiver_name port = name" "get_entry s a i = Some (t ! i)" "MACH_PORT_VALID name"
    "ie_bits (t ! i) AND MACH_PORT_TYPE_RECEIVE \<noteq> 0" "ipc_right_lookup_write s a name = Some (KERN_SUCCESS, i)"
    "ipc_port_translate_receive s a name = Some (KERN_SUCCESS, p)" using live by (rule live_receiveE)
  have same: "set_port s p port = s" using L(4) by (simp add: set_port_def map_upd_triv)
  note calls = L guard same
  show "mach_port_guard s a name v strict = Some (s', kr) \<Longrightarrow> only_events s s'"
    using calls by (auto simp: mach_port_guard_def mach_port_guard_locked_def)
  show "mach_port_guard_with_flags s a name v flags = Some (s', kr) \<Longrightarrow> only_events s s'"
    using calls by (auto simp: mach_port_guard_with_flags_def mach_port_guard_locked_def)
  show "mach_port_unguard s a name v = Some (s', kr) \<Longrightarrow> v \<noteq> g \<Longrightarrow> only_events s s'"
    using calls by (auto simp: mach_port_unguard_def mach_port_unguard_locked_def)
  show "mach_port_swap_guard s a name v w = Some (s', kr) \<Longrightarrow> v \<noteq> g \<Longrightarrow> only_events s s'"
    using calls by (auto simp: mach_port_swap_guard_def)
  show "mach_port_set_context s a name c = Some (s', kr) \<Longrightarrow> only_events s s'"
    using calls by (auto simp: mach_port_set_context_def)
  show "mach_port_mod_refs s a name MACH_PORT_RIGHT_RECEIVE d = Some (s', kr) \<Longrightarrow> only_events s s'"
    using calls by (auto simp: mach_port_mod_refs_def ipc_right_delta_def ipc_right_delta_receive_def mach_consts
        require_ip_active_def ipc_right_invalid_value_def ipc_right_invalid_right_def kassert_def Let_def split: if_splits)
  show "mach_port_destruct s a name d v = Some (s', kr) \<Longrightarrow> v \<noteq> g \<Longrightarrow> only_events s s'"
    using calls by (auto simp: mach_port_destruct_def ipc_right_destruct_def
        require_ip_active_def ipc_right_invalid_value_def ipc_right_invalid_right_def kassert_def Let_def split: if_splits)
qed

lemma guard_calls_events:
  assumes "guard_calls a name g s s'" "live_receive s a t xs name p port"
    and "ip_guarded port" "ip_strict_guard port" "ip_context port = g" "g \<noteq> 0"
  shows "only_events s s'"
  using assms
proof (induction rule: guard_calls.induct)
  case (start s)
  show ?case by simp
next
  case (guard s s1 v strict s2 kr)
  note ev = guard.IH [OF guard.prems]
  show ?case
    by (rule only_events_trans [OF ev guarded_call(1) [OF live_receive_events [OF guard.prems(1) ev] guard.prems(2-5) guard.hyps(2)]])
next
  case (guard_with_flags s s1 v flags s2 kr)
  note ev = guard_with_flags.IH [OF guard_with_flags.prems]
  show ?case
    by (rule only_events_trans [OF ev guarded_call(2) [OF live_receive_events [OF guard_with_flags.prems(1) ev] guard_with_flags.prems(2-5) guard_with_flags.hyps(2)]])
next
  case (unguard s s1 v s2 kr)
  note ev = unguard.IH [OF unguard.prems]
  show ?case
    by (rule only_events_trans [OF ev guarded_call(3) [OF live_receive_events [OF unguard.prems(1) ev] unguard.prems(2-5) unguard.hyps(3,2)]])
next
  case (swap_guard s s1 v w s2 kr)
  note ev = swap_guard.IH [OF swap_guard.prems]
  show ?case
    by (rule only_events_trans [OF ev guarded_call(4) [OF live_receive_events [OF swap_guard.prems(1) ev] swap_guard.prems(2-5) swap_guard.hyps(3,2)]])
next
  case (set_context s s1 c s2 kr)
  note ev = set_context.IH [OF set_context.prems]
  show ?case
    by (rule only_events_trans [OF ev guarded_call(5) [OF live_receive_events [OF set_context.prems(1) ev] set_context.prems(2-5) set_context.hyps(2)]])
next
  case (mod_refs s s1 d s2 kr)
  note ev = mod_refs.IH [OF mod_refs.prems]
  show ?case
    by (rule only_events_trans [OF ev guarded_call(6) [OF live_receive_events [OF mod_refs.prems(1) ev] mod_refs.prems(2-5) mod_refs.hyps(2)]])
next
  case (destruct s s1 v d s2 kr)
  note ev = destruct.IH [OF destruct.prems]
  show ?case
    by (rule only_events_trans [OF ev guarded_call(7) [OF live_receive_events [OF destruct.prems(1) ev] destruct.prems(2-5) destruct.hyps(3,2)]])
qed


section \<open>Guarding and unguarding\<close>

lemma guard_call:
  assumes "live_receive s a t xs name p port" "ip_context port = 0"
  shows "mach_port_guard s a name g strict =
    Some (s\<lparr>ports := (ports s)(p \<mapsto> port\<lparr>ip_context := g, ip_guarded := True, ip_strict_guard := strict\<rparr>)\<rparr>, KERN_SUCCESS)"
  by (rule live_receiveE [OF assms(1)])
    (simp add: mach_port_guard_def mach_port_guard_locked_def assms(2) set_port_def MPG_STRICT_def MPG_IMMOVABLE_RECEIVE_def)

lemma live_receive_port:
  assumes "live_receive s a t xs name p port"
    and "ip_receiver_name port' = ip_receiver_name port" "ip_receiver port' = ip_receiver port" "io_bits port' = io_bits port"
      "ip_waitq_valid port' = ip_waitq_valid port"
  shows "live_receive (s\<lparr>ports := (ports s)(p \<mapsto> port')\<rparr>) a t xs name p port'"
proof -
  have "wf_at (s\<lparr>ports := (ports s)(p \<mapsto> port')\<rparr>) a t xs = wf_at s a t xs" by (rule wf_at_cong) simp
  then show ?thesis using assms
    by (auto simp: live_receive_def ip_in_space_def ip_in_a_space_def ip_get_receiver_name_def io_active_def)
qed

lemma unguard_call:
  assumes "live_receive s a t xs name p port" "ip_guarded port"
  shows "mach_port_unguard s a name (ip_context port) =
    Some (s\<lparr>ports := (ports s)(p \<mapsto> port\<lparr>ip_context := 0, ip_guarded := False, ip_strict_guard := False\<rparr>)\<rparr>, KERN_SUCCESS)"
  by (rule live_receiveE [OF assms(1)])
    (simp add: mach_port_unguard_def mach_port_unguard_locked_def assms(2) mod_port_def)


section \<open>Destroying a guarded right\<close>

lemma destroy_guarded:
  assumes live: "live_receive s a t xs name p port" and guard: "ip_guarded port" "ip_context port \<noteq> 0"
  obtains s' t' where "mach_port_destroy s a name =
      Some (mach_port_guard_exception s' name 0 (ip_context port) kGUARD_EXC_DESTROY, KERN_INVALID_RIGHT)"
    "only_space a s s'" "space_at s' a t' xs (sends t)" "caps t' name = None"
proof (rule live_receiveE [OF live])
  fix i
  let ?b = "ie_bits (t ! i) AND NOT IE_BITS_TYPE_MASK"
  let ?t = "t[i := (t ! i)\<lparr>ie_bits := ?b\<rparr>]"
  assume L: "wf_at s a t xs" "a \<noteq> IS_NULL" "p \<noteq> IP_NULL" "0 < i" "i < length t" "name = entry_name t i" "i \<notin> set xs" "ie_object (t ! i) = p"
    "IE_BITS_TYPE (ie_bits (t ! i)) = MACH_PORT_TYPE_RECEIVE \<or> IE_BITS_TYPE (ie_bits (t ! i)) = MACH_PORT_TYPE_SEND_RECEIVE"
    "ports s p = Some port" "ip_active port" "get_entry s a i = Some (t ! i)" "MACH_PORT_VALID name"
    "ipc_right_lookup_write s a name = Some (KERN_SUCCESS, i)"
  note D = wf_atD [OF L(1)]
  have gen: "gen_ok ?b" "IE_BITS_GEN ?b = IE_BITS_GEN (ie_bits (t ! i))" "IE_BITS_TYPE ?b = 0"
    using low_update [of IE_BITS_TYPE_MASK 0 "ie_bits (t ! i)"] retype(1) [of "ie_bits (t ! i)" 0] D(3) L(4,5)
    by (simp_all add: table_inv_def mach_consts)
  obtain s' where s': "set_ie_bits s a i ?b = Some s'" "only_space a s s'" "space_at s' a ?t xs (sends t)"
    using mod_entry_at [OF D(1) L(4,5,7), of "\<lambda>e. e\<lparr>ie_bits := ?b\<rparr>"] gen by auto
  have e': "get_entry s' a i = Some ((t ! i)\<lparr>ie_bits := ?b\<rparr>)"
    using get_entry_at [OF s'(3), of i] L(5) by simp
  have "caps ?t name = None"
    using L(4-6) gen entry_name_facts(1) [OF D(3) L(4,5)] by (simp add: caps_def)
  moreover have "ports s' p = Some port" using only_space_fields(1) [OF s'(2)] L(10) by simp
  then have "mach_port_destroy s a name =
      Some (mach_port_guard_exception s' name 0 (ip_context port) kGUARD_EXC_DESTROY, KERN_INVALID_RIGHT)"
    using L s'(1) e' guard
    by (auto simp: mach_port_destroy_def ipc_right_destroy_def ipc_right_destroy_port_def kassert_def mach_consts)
  ultimately show thesis using that s'(2,3) by blast
qed


section \<open>Properties\<close>

definition demo_receiver :: ipc_port where
  "demo_receiver = demo_live\<lparr>ip_receiver_name := 0x1ff, ip_receiver := demo_task\<rparr>"

definition demo_guarded :: "64 word \<Rightarrow> ipc_state" where
  "demo_guarded g = demo_state\<lparr>ports := (ports demo_state)(demo_port \<mapsto>
     demo_receiver\<lparr>ip_context := g, ip_guarded := True, ip_strict_guard := True\<rparr>)\<rparr>"

lemma demo_receive: "live_receive demo_state demo_task demo_table [3..<21] 0x1ff demo_port demo_receiver"
proof -
  have "wf_at demo_state demo_task demo_table [3..<21]"
    using demo_space_wf by (simp add: wf_at_def space_at_def wf_space_def)
  moreover have "MACH_PORT_INDEX 0x1ff = 1" "entry_name demo_table 1 = 0x1ff"
    by (simp_all add: MACH_PORT_INDEX_def entry_name_def demo_table_nth demo_base_nth IE_BITS_GEN_def MACH_PORT_MAKE_def mach_consts)
  then have "caps demo_table 0x1ff = Some (demo_port, MACH_PORT_TYPE_RECEIVE, 0)"
    by (simp add: caps_def demo_table_nth demo_base_nth cap_of_def IE_BITS_TYPE_def IE_BITS_UREFS_def mach_consts)
  ultimately show ?thesis
    by (simp add: live_receive_def demo_receiver_def port_where mach_consts)
qed

lemma demo_guarded_receive:
  "live_receive (demo_guarded g) demo_task demo_table [3..<21] 0x1ff demo_port
     (demo_receiver\<lparr>ip_context := g, ip_guarded := True, ip_strict_guard := True\<rparr>)"
  unfolding demo_guarded_def by (rule live_receive_port [OF demo_receive]) simp_all



text \<open>
  C28 (roundtrip).  Guarding an unguarded receive right and unguarding it with the same value is the
  identity on the state.
\<close>

theorem guard_round_trip:
  assumes "live_receive s a t xs name p port" "ip_context port = 0" "\<not> ip_guarded port" "\<not> ip_strict_guard port"
  shows "\<exists>s1. mach_port_guard s a name g strict = Some (s1, KERN_SUCCESS) \<and>
    mach_port_unguard s1 a name g = Some (s, KERN_SUCCESS)"
proof -
  let ?port = "port\<lparr>ip_context := g, ip_guarded := True, ip_strict_guard := strict\<rparr>"
  let ?s = "s\<lparr>ports := (ports s)(p \<mapsto> ?port)\<rparr>"
  have "live_receive ?s a t xs name p ?port" by (rule live_receive_port [OF assms(1)]) simp_all
  from unguard_call [OF this] have "mach_port_unguard ?s a name g =
      Some (s\<lparr>ports := (ports s)(p \<mapsto> port\<lparr>ip_context := 0, ip_guarded := False, ip_strict_guard := False\<rparr>)\<rparr>, KERN_SUCCESS)"
    by simp
  moreover have "port\<lparr>ip_context := 0, ip_guarded := False, ip_strict_guard := False\<rparr> = port" using assms(2-4) by simp
  moreover have "ports s p = Some port" using assms(1) by (simp add: live_receive_def)
  ultimately show ?thesis using guard_call [OF assms(1,2), of g strict] by (simp add: map_upd_triv)
qed

theorem guard_round_trip_witness:
  "\<exists>s1. mach_port_guard demo_state demo_task 0x1ff 5 True = Some (s1, KERN_SUCCESS) \<and>
     mach_port_unguard s1 demo_task 0x1ff 5 = Some (demo_state, KERN_SUCCESS)"
  by (rule guard_round_trip [OF demo_receive]) (simp_all add: demo_receiver_def)

text \<open>
  C29 (safety).  The guard value zero does not guard: a port that is strictly guarded with zero is
  taken for one without a guard, and any task that holds the right can put a guard of its own in place
  of it.
\<close>

theorem zero_guard_replaced:
  assumes "live_receive s a t xs name p port" "ip_guarded port" "ip_strict_guard port" "ip_context port = 0"
  shows "\<exists>s1. mach_port_guard s a name g False = Some (s1, KERN_SUCCESS) \<and>
    ports s1 p = Some (port\<lparr>ip_context := g, ip_strict_guard := False\<rparr>)"
  using guard_call [OF assms(1,4), of g False] assms(2) by simp

theorem zero_guard_replaced_witness:
  "\<exists>s1 port. mach_port_guard (demo_guarded 0) demo_task 0x1ff 9 False = Some (s1, KERN_SUCCESS) \<and>
     ports s1 demo_port = Some port \<and> ip_context port = 9 \<and> \<not> ip_strict_guard port"
  using zero_guard_replaced [OF demo_guarded_receive, of 0 9] by auto



end
