(* ===== verification/Port_Corners.thy ===== *)
theory Port_Corners
imports Mach_Port Demo_State
begin

text \<open>
  Borders of the port layer: what is left of a kernel object port that becomes an ordinary port again,
  references to importance tasks, and send-once rights for dead ports.
\<close>

section \<open>Kernel object bits\<close>

lemma kobject_bits:
  fixes b :: "32 word"
  assumes "b AND IO_BITS_KOTYPE = 0"
  shows "(b OR (IKOT_HOST_NOTIFY OR IO_BITS_KOBJECT)) AND IO_BITS_KOTYPE = IKOT_HOST_NOTIFY"
    "(b OR (IKOT_HOST_NOTIFY OR IO_BITS_KOBJECT)) AND NOT IO_BITS_KOTYPE = b OR IO_BITS_KOBJECT"
proof -
  have "b AND NOT IO_BITS_KOTYPE = b"
    by (rule bit_word_eqI) (use assms in \<open>auto simp: bit_eq_iff bit_and_iff bit_not_iff\<close>)
  then show "(b OR (IKOT_HOST_NOTIFY OR IO_BITS_KOBJECT)) AND IO_BITS_KOTYPE = IKOT_HOST_NOTIFY"
    "(b OR (IKOT_HOST_NOTIFY OR IO_BITS_KOBJECT)) AND NOT IO_BITS_KOTYPE = b OR IO_BITS_KOBJECT"
    using assms by (simp_all add: bit.conj_disj_distrib2 IKOT_HOST_NOTIFY_def IO_BITS_KOBJECT_def IO_BITS_KOTYPE_def)
qed


section \<open>Properties\<close>

text \<open>
  C34 (roundtrip).  Making an ordinary port a host notification port and downgrading it again gives back the
  kernel object and the port as it was, but for one bit: the port still counts as a kernel object,
  of no type, so that its receive right can never be moved again.
\<close>

theorem downgrade_keeps_kobject:
  assumes "ports s p = Some port" "ipc_kobject_may_upgrade s port = Some True" "ip_kobject port = 0" "\<not> ip_is_kolabeled port"
    and "iko_op_allow_upgrade (env s) IKOT_HOST_NOTIFY" "\<not> iko_op_stable (env s) IKOT_HOST_NOTIFY"
  shows "\<exists>s1 s2 port2. ipc_kobject_upgrade s p kobject IKOT_HOST_NOTIFY = Some (s1, KERN_SUCCESS) \<and>
    ipc_kobject_downgrade_host_notify s1 p = Some (s2, kobject) \<and>
    ports s2 p = Some port2 \<and> port2 = port\<lparr>io_bits := io_bits port OR IO_BITS_KOBJECT\<rparr> \<and>
    ip_is_kobject port2 \<and> ip_kotype port2 = IKOT_NONE"
proof -
  have none: "io_bits port AND IO_BITS_KOTYPE = 0"
    using assms(2) by (auto simp: ipc_kobject_may_upgrade_def io_kotype_def IKOT_NONE_def split: if_splits)
  let ?b = "io_bits port OR (IKOT_HOST_NOTIFY OR IO_BITS_KOBJECT)"
  let ?port1 = "port\<lparr>io_bits := ?b, ip_kobject := kobject\<rparr>" and ?port2 = "port\<lparr>io_bits := io_bits port OR IO_BITS_KOBJECT\<rparr>"
  let ?s1 = "s\<lparr>ports := (ports s)(p \<mapsto> ?port1)\<rparr>" and ?s2 = "s\<lparr>ports := (ports s)(p \<mapsto> ?port2)\<rparr>"
  have up: "ipc_kobject_upgrade s p kobject IKOT_HOST_NOTIFY = Some (?s1, KERN_SUCCESS)"
    using assms(1,2,5)
    by (simp add: ipc_kobject_upgrade_def ipc_kobject_set_internal_def kassert_def mod_port_def io_bits_or_def
        IKOT_NONE_def IKOT_HOST_NOTIFY_def)
  have unlabeled: "\<not> ip_is_kolabeled ?port1"
    using assms(4) by (simp add: io_is_kolabeled_def bit.conj_disj_distrib2 IKOT_HOST_NOTIFY_def IO_BITS_KOBJECT_def IO_BITS_KOLABEL_def)
  have "port\<lparr>ip_kobject := 0, io_bits := io_bits port OR IO_BITS_KOBJECT\<rparr> = ?port2" using assms(3) by simp
  then have down: "ipc_kobject_downgrade_host_notify ?s1 p = Some (?s2, kobject)"
    using kobject_bits [OF none] assms(6) unlabeled
    by (simp add: ipc_kobject_downgrade_host_notify_def io_kotype_def ipc_kobject_disable_locked_def
        ipc_kobject_disable_internal_def kassert_def mod_port_def io_bits_andnot_def)
  have "ip_is_kobject ?port2" "ip_kotype ?port2 = IKOT_NONE"
    using none by (simp_all add: io_is_kobject_def io_kotype_def bit.conj_disj_distrib2 IO_BITS_KOBJECT_def IO_BITS_KOTYPE_def
        IKOT_NONE_def or_eq_0_iff)
  then show ?thesis using up down by auto
qed

theorem downgrade_keeps_kobject_witness:
  "\<exists>s1 s2 port2. ipc_kobject_upgrade demo_state demo_port 77 IKOT_HOST_NOTIFY = Some (s1, KERN_SUCCESS) \<and>
     ipc_kobject_downgrade_host_notify s1 demo_port = Some (s2, 77) \<and> ports s2 demo_port = Some port2 \<and> ip_is_kobject port2"
proof -
  let ?port = "demo_live\<lparr>ip_receiver_name := 0x1ff, ip_receiver := demo_task\<rparr>"
  have "ports demo_state demo_port = Some ?port" "ipc_kobject_may_upgrade demo_state ?port = Some True" "ip_kobject ?port = 0"
    "\<not> ip_is_kolabeled ?port" "iko_op_allow_upgrade (env demo_state) IKOT_HOST_NOTIFY"
    "\<not> iko_op_stable (env demo_state) IKOT_HOST_NOTIFY"
    by (simp_all add: ipc_kobject_may_upgrade_def ipc_port_has_prdrequest_def io_active_def io_kotype_def io_is_kolabeled_def
        IO_BITS_ACTIVE_def IO_BITS_KOTYPE_def IO_BITS_KOLABEL_def IKOT_NONE_def demo_env_def mach_consts)
  from downgrade_keeps_kobject [OF this, of 77] show ?thesis by blast
qed



text \<open>
  C36 (error).  Inside the kernel a message can copy or make send rights of a dead port, but making a
  send-once right of one panics, although the routine allows for dead ports before it asks for the right.
\<close>

theorem copyin_dead_sonce_panics:
  assumes "IO_VALID p" "ports s p = Some port" "\<not> ip_active port"
    and "0 < unat (io_references port)" "unat (io_references port) < unat OS_REFCNT_MAX_COUNT"
  shows "ipc_object_copyin_from_kernel s p MACH_MSG_TYPE_MAKE_SEND_ONCE = None \<and>
    (\<forall>type \<in> {MACH_MSG_TYPE_COPY_SEND, MACH_MSG_TYPE_MAKE_SEND}. ipc_object_copyin_from_kernel s p type =
       Some (s\<lparr>ports := (ports s)(p \<mapsto> port\<lparr>ip_srights := ip_srights port + 1, io_references := io_references port + 1\<rparr>)\<rparr>))"
proof -
  let ?port = "port\<lparr>ip_srights := ip_srights port + 1\<rparr>"
  have "ip_reference (s\<lparr>ports := (ports s)(p \<mapsto> ?port)\<rparr>) p =
      Some (s\<lparr>ports := (ports s)(p \<mapsto> ?port\<lparr>io_references := io_references port + 1\<rparr>)\<rparr>)"
    using reference_live(1) [of "s\<lparr>ports := (ports s)(p \<mapsto> ?port)\<rparr>" p ?port] assms(4,5) by simp
  then show ?thesis using assms(1-3)
    by (simp add: ipc_object_copyin_from_kernel_def kassert_def mod_port_def ipc_port_make_sonce_locked_def require_ip_active_def
        MACH_MSG_TYPE_MAKE_SEND_ONCE_def MACH_MSG_TYPE_MOVE_RECEIVE_def MACH_MSG_TYPE_COPY_SEND_def MACH_MSG_TYPE_MAKE_SEND_def
        MACH_MSG_TYPE_MOVE_SEND_def)
qed

theorem copyin_dead_sonce_panics_witness:
  "ipc_object_copyin_from_kernel (demo_state\<lparr>ports := (ports demo_state)(demo_peer \<mapsto> demo_live\<lparr>io_bits := 0\<rparr>)\<rparr>) demo_peer
     MACH_MSG_TYPE_MAKE_SEND_ONCE = None"
  using copyin_dead_sonce_panics [of demo_peer "demo_state\<lparr>ports := (ports demo_state)(demo_peer \<mapsto> demo_live\<lparr>io_bits := 0\<rparr>)\<rparr>"
      "demo_live\<lparr>io_bits := 0\<rparr>"]
  by (simp add: io_active_def OS_REFCNT_MAX_COUNT_def)

end
