(* ===== verification/Port_Alloc.thy ===== *)
theory Port_Alloc
imports Right_Caps Mach_Port Demo_State
begin

text \<open>
  Allocating a right: \<^verbatim>\<open>mach_port_allocate\<close> for the three kinds of right a task can create, from
  the free entry of the table to the initialised object.
\<close>

section \<open>A fresh entry and its right\<close>

text \<open>What the bits of an empty entry become when a right is written into them.\<close>

lemma fill_bits:
  assumes "b AND 0x003fffff = 0" "w AND 0x001fffff = w"
  shows "IE_BITS_TYPE (b OR w) = IE_BITS_TYPE w" "IE_BITS_UREFS (b OR w) = IE_BITS_UREFS w"
    "IE_BITS_GEN (b OR w) = IE_BITS_GEN b" "gen_ok (b OR w) = gen_ok b"
proof -
  have "(b AND 0x003fffff) AND 0x1f0000 = 0" "(b AND 0x003fffff) AND 0xffff = 0" using assms(1) by simp_all
  then have "b AND 0x1f0000 = 0" "b AND 0xffff = 0" by (simp_all add: and.assoc)
  then show "IE_BITS_TYPE (b OR w) = IE_BITS_TYPE w" "IE_BITS_UREFS (b OR w) = IE_BITS_UREFS w"
    by (simp_all add: IE_BITS_TYPE_def IE_BITS_UREFS_def mach_consts bit.conj_disj_distrib2)
  have "(w AND 0x001fffff) AND 0xffc00000 = 0" by (simp add: and.assoc)
  then have "w AND 0xffc00000 = 0" using assms(2) by simp
  then show "IE_BITS_GEN (b OR w) = IE_BITS_GEN b" "gen_ok (b OR w) = gen_ok b"
    using low_update [of 0 w b] by simp_all
qed

lemma entry_alloc_at:
  assumes wf: "wf_at s a t xs" and card: "card (sends t) \<le> IPC_ENTRY_DIST_MAX + 1"
  obtains (got) s' t' xs' i where "sp_entry_alloc mem s a object = Some (s', KERN_SUCCESS, Some (entry_name t' i, i))"
      "only_space a s s'" "space_at s' a t' xs' (sends t')" "caps t' = caps t" "0 < i" "i < length t'"
      "set xs' = frees t' - {i}" "ie_object (t' ! i) = object" "ie_bits (t' ! i) AND 0x003fffff = 0"
      "ie_request (t' ! i) = IE_REQ_NONE"
  | (failed) s' kr t' xs' where "sp_entry_alloc mem s a object = Some (s', kr, None)"
      "kr = KERN_NO_SPACE \<or> kr = KERN_RESOURCE_SHORTAGE" "only_space a s s'" "wf_at s' a t' xs'" "caps t' = caps t"
proof -
  note D = wf_atD [OF wf]
  obtain sp where sp: "spaces s a = Some sp" "space_inv sp t xs (sends t)" using D(1) by (rule space_atD)
  have "wf_space sp t xs" using sp(2) D(2) by (simp add: wf_space_def)
  from ipc_entry_alloc_outcome [OF this card, of object mem] consider
      (ok) sp' t' i xs' where "ipc_entry_alloc mem sp object = Some (sp', KERN_SUCCESS, Some (entry_name t' i, i))"
        "space_inv sp' t' xs' (sends t')" "caps_kept t t'" "0 < i" "i < length t'" "set xs' = frees t' - {i}"
        "ie_object (t' ! i) = object" "ie_request (t' ! i) = 0" "ie_bits (t' ! i) AND 0x003fffff = 0"
    | (no) sp' kr t' xs' where "ipc_entry_alloc mem sp object = Some (sp', kr, None)"
        "kr = KERN_NO_SPACE \<or> kr = KERN_RESOURCE_SHORTAGE" "wf_space sp' t' xs'" "caps_kept t t'"
    unfolding alloc_outcome_def by blast
  then show thesis
  proof cases
    case ok
    have "caps t' = caps t" by (rule caps_kept_eq [OF D(3) space_invD(3) [OF ok(2)] ok(3)])
    then show thesis
      using got [of "s\<lparr>spaces := (spaces s)(a \<mapsto> sp')\<rparr>" t' i xs'] ok sp(1) only_space_upd
      by (simp add: sp_entry_alloc_def space_at_def mach_consts)
  next
    case no
    have inv: "space_inv sp' t' xs' (sends t')" "set xs' = frees t'" using no(3) by (simp_all add: wf_space_def)
    have "caps t' = caps t" by (rule caps_kept_eq [OF D(3) space_invD(3) [OF inv(1)] no(4)])
    then show thesis
      using failed [of "s\<lparr>spaces := (spaces s)(a \<mapsto> sp')\<rparr>" kr t' xs'] no(1,2) inv sp(1) only_space_upd
      by (simp add: sp_entry_alloc_def space_at_def wf_at_def)
  qed
qed

text \<open>Writing a right that is not a pure send right into the entry makes the space well formed again.\<close>

lemma fill_entry_at:
  assumes at: "space_at s a t xs (sends t)" and i: "0 < i" "i < length t" "set xs = frees t - {i}"
    and low: "ie_bits (t ! i) AND 0x003fffff = 0" and w: "w AND 0x001fffff = w"
    and ty: "IE_BITS_TYPE w \<noteq> 0" "IE_BITS_TYPE w \<noteq> MACH_PORT_TYPE_SEND"
  obtains s' t' where
    "do { s \<leftarrow> mod_entry s a i (\<lambda>e. e\<lparr>ie_bits := ie_bits e OR w\<rparr>); sp_entry_modified s a (entry_name t i) i } = Some s'"
    "only_space a s s'" "wf_at s' a t' xs"
    "caps t' = (caps t)(entry_name t i \<mapsto> (ie_object (t ! i), IE_BITS_TYPE w, IE_BITS_UREFS w))"
proof -
  note inv = space_at_table [OF at]
  let ?e = "(t ! i)\<lparr>ie_bits := ie_bits (t ! i) OR w\<rparr>"
  note f = fill_bits [OF low w]
  have gen: "gen_ok (ie_bits (t ! i))" using inv i(1,2) by (simp add: table_inv_def)
  have ix: "i \<notin> set xs" using i(3) by simp
  obtain s1 where s1: "mod_entry s a i (\<lambda>e. e\<lparr>ie_bits := ie_bits e OR w\<rparr>) = Some s1" "only_space a s s1"
      "space_at s1 a (t[i := ?e]) xs (sends t)"
    using mod_entry_at [OF at i(1,2) ix, of "\<lambda>e. e\<lparr>ie_bits := ie_bits e OR w\<rparr>"] gen f(4) by auto
  obtain s2 where s2: "sp_entry_modified s1 a (entry_name t i) i = Some s2" "only_space a s1 s2"
      "space_at s2 a (t[i := ?e]) xs (sends t)"
    using modified_at [OF s1(3), of i "entry_name t i"] i(2) entry_name_facts(1) [OF inv i(1,2)] by auto
  have other: "ie_bits (t[i := ?e] ! j) = ie_bits (t ! j) \<and> ie_object (t[i := ?e] ! j) = ie_object (t ! j)" if "j \<noteq> i" for j
    using that by simp
  have sf: "sends (t[i := ?e]) - {i} = sends t - {i}" "frees (t[i := ?e]) - {i} = frees t - {i}"
    by (rule sends_frees_set [OF _ other], simp, assumption)+
  have "i \<notin> sends t" "i \<notin> sends (t[i := ?e])" "i \<notin> frees (t[i := ?e])"
    using type_of_low [OF low] f(1) ty i(2) by (auto simp: sends_def frees_def mach_consts)
  then have "sends (t[i := ?e]) = sends t" "frees (t[i := ?e]) = set xs" using sf i(3) by auto
  then have "wf_at s2 a (t[i := ?e]) xs" using s2(3) by (simp add: wf_at_def)
  moreover have "caps (t[i := ?e]) = (caps t)(entry_name t i \<mapsto> cap_of ?e)"
    using f(1,3) ty(1) by (intro caps_upd [OF inv i(1,2)]) simp_all
  ultimately show thesis
    using that [of s2 "t[i := ?e]"] s1(1) s2(1) only_space_trans [OF s1(2) s2(2)] f(1,2) by (simp add: cap_of_def)
qed

section \<open>Objects in a fresh entry\<close>

lemma io_new_spaces [simp]: "spaces (io_new s otype addr) = spaces s"
  by (simp add: io_new_def)

lemma only_spaceE:
  assumes "only_space a s s'"
  obtains f where "s' = s\<lparr>spaces := f\<rparr>" "\<forall>b. b \<noteq> a \<longrightarrow> f b = spaces s b"
  using assms unfolding only_space_def by blast

lemma only_spaceI: "\<forall>b. b \<noteq> a \<longrightarrow> f b = spaces s b \<Longrightarrow> only_space a s (s\<lparr>spaces := f\<rparr>)"
  by (simp add: only_space_def)

lemma object_alloc_at:
  assumes wf: "wf_at s a t xs" and card: "card (sends t) \<le> IPC_ENTRY_DIST_MAX + 1"
    and ot: "otype < IOT_NUMBER" and ty: "ty = MACH_PORT_TYPE_RECEIVE \<or> ty = MACH_PORT_TYPE_PORT_SET"
  obtains (got) s' name t' xs' where "ipc_object_alloc mem addr s a otype ty 0 = Some (s', KERN_SUCCESS, name)"
      "only_space a (io_new s otype addr) s'" "wf_at s' a t' xs'" "caps t name = None" "MACH_PORT_VALID name"
      "caps t' = (caps t)(name \<mapsto> (addr, ty, 0))"
  | (failed) s' kr t' xs' where
      "ipc_object_alloc mem addr s a otype ty 0 = Some (io_unalloc s' otype addr, kr, MACH_PORT_NULL)"
      "kr = KERN_NO_SPACE \<or> kr = KERN_RESOURCE_SHORTAGE" "only_space a (io_new s otype addr) s'"
      "wf_at s' a t' xs'" "caps t' = caps t"
proof -
  have wf': "wf_at (io_new s otype addr) a t xs" using wf by (subst wf_at_cong [of _ a s]) simp_all
  have tyw: "ty AND 0x001fffff = ty" "IE_BITS_TYPE ty = ty" "IE_BITS_UREFS ty = 0" "ty \<noteq> 0" "ty \<noteq> MACH_PORT_TYPE_SEND"
      "ty AND MACH_PORT_TYPE_ALL_RIGHTS = ty"
    using ty by (auto simp: IE_BITS_TYPE_def IE_BITS_UREFS_def mach_consts MACH_PORT_TYPE_ALL_RIGHTS_def)
  show thesis
  proof (rule entry_alloc_at [OF wf' card, of mem addr])
    fix s1 t1 xs1 i
    assume g: "sp_entry_alloc mem (io_new s otype addr) a addr = Some (s1, KERN_SUCCESS, Some (entry_name t1 i, i))"
      "only_space a (io_new s otype addr) s1" "space_at s1 a t1 xs1 (sends t1)" "caps t1 = caps t" "0 < i" "i < length t1"
      "set xs1 = frees t1 - {i}" "ie_object (t1 ! i) = addr" "ie_bits (t1 ! i) AND 0x003fffff = 0"
    obtain s' t' where s': "do { s \<leftarrow> mod_entry s1 a i (\<lambda>e. e\<lparr>ie_bits := ie_bits e OR ty\<rparr>);
        sp_entry_modified s a (entry_name t1 i) i } = Some s'"
      "only_space a s1 s'" "wf_at s' a t' xs1" "caps t' = (caps t1)(entry_name t1 i \<mapsto> (ie_object (t1 ! i), ty, 0))"
      by (rule fill_entry_at [OF g(3,5-7,9) tyw(1), unfolded tyw(2,3), OF tyw(4,5)])
    have name: "caps t (entry_name t1 i) = None" "MACH_PORT_VALID (entry_name t1 i)"
      using caps_entry_name [OF space_at_table [OF g(3)] g(5,6)] type_of_low [OF g(9)] g(4)
        entry_name_facts(3) [OF space_at_table [OF g(3)] g(5,6)] by simp_all
    obtain s2 where s2: "mod_entry s1 a i (\<lambda>e. e\<lparr>ie_bits := ie_bits e OR ty\<rparr>) = Some s2"
      "sp_entry_modified s2 a (entry_name t1 i) i = Some s'" using s'(1) by (auto simp: bind_eq_Some_conv)
    have "ipc_object_alloc mem addr s a otype ty 0 = Some (s', KERN_SUCCESS, entry_name t1 i)"
      using ot tyw(4,6) g(1) s2 by (simp add: ipc_object_alloc_def kassert_def mach_consts)
    then show thesis
      using got only_space_trans [OF g(2) s'(2)] s'(3,4) g(4,8) name by simp
  next
    fix s1 kr t1 xs1
    assume n: "sp_entry_alloc mem (io_new s otype addr) a addr = Some (s1, kr, None)"
      "kr = KERN_NO_SPACE \<or> kr = KERN_RESOURCE_SHORTAGE" "only_space a (io_new s otype addr) s1" "wf_at s1 a t1 xs1"
      "caps t1 = caps t"
    have "kr \<noteq> KERN_SUCCESS" using n(2) by (auto simp: mach_consts)
    then have "ipc_object_alloc mem addr s a otype ty 0 = Some (io_unalloc s1 otype addr, kr, MACH_PORT_NULL)"
      using ot tyw(4,6) n(1) by (simp add: ipc_object_alloc_def kassert_def mach_consts)
    then show thesis using failed n(2-5) by blast
  qed
qed

lemma unalloc_new:
  assumes "only_space a (io_new s otype addr) s'" "ports s addr = None" "psets s addr = None"
  shows "only_space a s (io_unalloc s' otype addr)" "spaces (io_unalloc s' otype addr) = spaces s'"
proof -
  obtain f where f: "s' = (io_new s otype addr)\<lparr>spaces := f\<rparr>" "\<forall>b. b \<noteq> a \<longrightarrow> f b = spaces s b"
    using only_spaceE [OF assms(1)] by (metis io_new_spaces)
  have "(ports s)(addr := None) = ports s" "(psets s)(addr := None) = psets s" using assms(2,3) by auto
  then have eq: "io_unalloc s' otype addr = s\<lparr>spaces := f\<rparr>" by (simp add: f(1) io_unalloc_def io_new_def)
  show "only_space a s (io_unalloc s' otype addr)" unfolding eq only_space_def using f(2) by simp
  show "spaces (io_unalloc s' otype addr) = spaces s'" unfolding eq by (simp add: f(1))
qed

section \<open>The call\<close>

definition new_cap :: "mach_port_right_t \<Rightarrow> ipc_object_t \<Rightarrow> capability" where
  "new_cap right addr =
     (if right = MACH_PORT_RIGHT_RECEIVE then (addr, MACH_PORT_TYPE_RECEIVE, 0)
      else if right = MACH_PORT_RIGHT_PORT_SET then (addr, MACH_PORT_TYPE_PORT_SET, 0)
      else (IO_NULL, MACH_PORT_TYPE_DEAD_NAME, 1))"

text \<open>The objects after a successful call: one new port or port set, or none.\<close>

definition new_objects :: "mach_port_right_t \<Rightarrow> ipc_object_t \<Rightarrow> ipc_space_t \<Rightarrow> mach_port_name_t \<Rightarrow> ipc_state \<Rightarrow> ipc_state" where
  "new_objects right addr a name s =
     (if right = MACH_PORT_RIGHT_RECEIVE
      then s\<lparr>ports := (ports s)(addr \<mapsto> ipc_port_init io_alloc_port a IPC_PORT_INIT_MESSAGE_QUEUE name)\<rparr>
      else if right = MACH_PORT_RIGHT_PORT_SET
      then s\<lparr>psets := (psets s)(addr \<mapsto> ipc_port_set_init io_alloc_pset name)\<rparr>
      else s)"

text \<open>What a call of the kind has to achieve: an outcome of the whole state.\<close>

definition allocated ::
    "ipc_state \<Rightarrow> ipc_space_t \<Rightarrow> ipc_entry list \<Rightarrow> mach_port_right_t \<Rightarrow> ipc_object_t \<Rightarrow>
     (ipc_state \<times> kern_return_t \<times> mach_port_name_t) option \<Rightarrow> bool" where
  "allocated s a t right addr r \<longleftrightarrow>
     (\<exists>s' kr name t' xs'. r = Some (s', kr, name) \<and> wf_at s' a t' xs' \<and>
        (if kr = KERN_SUCCESS
         then MACH_PORT_VALID name \<and> caps t name = None \<and> caps t' = (caps t)(name \<mapsto> new_cap right addr) \<and>
           only_space a (new_objects right addr a name s) s'
         else (kr = KERN_NO_SPACE \<or> kr = KERN_RESOURCE_SHORTAGE) \<and> name = MACH_PORT_NULL \<and> caps t' = caps t \<and>
           only_space a s s'))"

lemma allocatedI:
  assumes "wf_at s' a t' xs'" "MACH_PORT_VALID name" "caps t name = None"
    "caps t' = (caps t)(name \<mapsto> new_cap right addr)" "only_space a (new_objects right addr a name s) s'"
  shows "allocated s a t right addr (Some (s', KERN_SUCCESS, name))"
  using assms by (auto simp: allocated_def)

lemma allocated_failed:
  assumes "kr = KERN_NO_SPACE \<or> kr = KERN_RESOURCE_SHORTAGE" "wf_at s' a t' xs'" "caps t' = caps t" "only_space a s s'"
  shows "allocated s a t right addr (Some (s', kr, MACH_PORT_NULL))"
  using assms by (auto simp: allocated_def mach_consts)

lemma allocated_undone:
  assumes "kr = KERN_NO_SPACE \<or> kr = KERN_RESOURCE_SHORTAGE" "only_space a (io_new s otype addr) s'" "wf_at s' a t' xs'"
    "caps t' = caps t" "ports s addr = None" "psets s addr = None"
  shows "allocated s a t right addr (Some (io_unalloc s' otype addr, kr, MACH_PORT_NULL))"
proof (rule allocated_failed [OF assms(1) _ assms(4)])
  show "wf_at (io_unalloc s' otype addr) a t' xs'"
    using assms(3) unalloc_new(2) [OF assms(2,5,6)] by (subst wf_at_cong [of _ a s']) simp_all
  show "only_space a s (io_unalloc s' otype addr)" by (rule unalloc_new(1) [OF assms(2,5,6)])
qed

lemma port_alloc_at:
  assumes wf: "wf_at s a t xs" and card: "card (sends t) \<le> IPC_ENTRY_DIST_MAX + 1"
    and addr: "ports s addr = None" "psets s addr = None"
  shows "allocated s a t MACH_PORT_RIGHT_RECEIVE addr (ipc_port_alloc mem addr s a IPC_PORT_INIT_MESSAGE_QUEUE)"
proof (rule object_alloc_at [OF wf card, of IOT_PORT MACH_PORT_TYPE_RECEIVE mem addr])
  fix s1 name t' xs'
  assume g: "ipc_object_alloc mem addr s a IOT_PORT MACH_PORT_TYPE_RECEIVE 0 = Some (s1, KERN_SUCCESS, name)"
    "only_space a (io_new s IOT_PORT addr) s1" "wf_at s1 a t' xs'" "caps t name = None" "MACH_PORT_VALID name"
    "caps t' = (caps t)(name \<mapsto> (addr, MACH_PORT_TYPE_RECEIVE, 0))"
  obtain f where f: "s1 = (io_new s IOT_PORT addr)\<lparr>spaces := f\<rparr>" "\<forall>b. b \<noteq> a \<longrightarrow> f b = spaces s b"
    using only_spaceE [OF g(2)] by (metis io_new_spaces)
  let ?s = "(new_objects MACH_PORT_RIGHT_RECEIVE addr a name s)\<lparr>spaces := f\<rparr>"
  have call: "ipc_port_alloc mem addr s a IPC_PORT_INIT_MESSAGE_QUEUE = Some (?s, KERN_SUCCESS, name)"
    using g(1) by (simp add: ipc_port_alloc_def f(1) io_new_def new_objects_def mod_port_def IPC_PORT_INIT_MESSAGE_QUEUE_def
        IPC_PORT_INIT_MAKE_SEND_RIGHT_def)
  have "wf_at ?s a t' xs'" using g(3) by (subst wf_at_cong [of _ a s1]) (simp_all add: f(1))
  moreover have "only_space a (new_objects MACH_PORT_RIGHT_RECEIVE addr a name s) ?s"
    by (rule only_spaceI) (use f(2) in \<open>simp add: new_objects_def\<close>)
  ultimately show ?thesis unfolding call using g(4-6) by (intro allocatedI) (simp_all add: new_cap_def)
next
  fix s1 kr t' xs'
  assume n: "ipc_object_alloc mem addr s a IOT_PORT MACH_PORT_TYPE_RECEIVE 0 = Some (io_unalloc s1 IOT_PORT addr, kr, MACH_PORT_NULL)"
    "kr = KERN_NO_SPACE \<or> kr = KERN_RESOURCE_SHORTAGE" "only_space a (io_new s IOT_PORT addr) s1" "wf_at s1 a t' xs'"
    "caps t' = caps t"
  have "kr \<noteq> KERN_SUCCESS" using n(2) by (auto simp: mach_consts)
  then have call: "ipc_port_alloc mem addr s a IPC_PORT_INIT_MESSAGE_QUEUE = Some (io_unalloc s1 IOT_PORT addr, kr, MACH_PORT_NULL)"
    using n(1) by (simp add: ipc_port_alloc_def IPC_PORT_INIT_MESSAGE_QUEUE_def IPC_PORT_INIT_MAKE_SEND_RIGHT_def)
  show ?thesis unfolding call by (rule allocated_undone [OF n(2-5) addr])
qed (simp_all add: IOT_PORT_def IOT_NUMBER_def)

lemma pset_alloc_at:
  assumes wf: "wf_at s a t xs" and card: "card (sends t) \<le> IPC_ENTRY_DIST_MAX + 1"
    and addr: "ports s addr = None" "psets s addr = None"
  shows "allocated s a t MACH_PORT_RIGHT_PORT_SET addr (ipc_pset_alloc mem addr s a)"
proof (rule object_alloc_at [OF wf card, of IOT_PORT_SET MACH_PORT_TYPE_PORT_SET mem addr])
  fix s1 name t' xs'
  assume g: "ipc_object_alloc mem addr s a IOT_PORT_SET MACH_PORT_TYPE_PORT_SET 0 = Some (s1, KERN_SUCCESS, name)"
    "only_space a (io_new s IOT_PORT_SET addr) s1" "wf_at s1 a t' xs'" "caps t name = None" "MACH_PORT_VALID name"
    "caps t' = (caps t)(name \<mapsto> (addr, MACH_PORT_TYPE_PORT_SET, 0))"
  obtain f where f: "s1 = (io_new s IOT_PORT_SET addr)\<lparr>spaces := f\<rparr>" "\<forall>b. b \<noteq> a \<longrightarrow> f b = spaces s b"
    using only_spaceE [OF g(2)] by (metis io_new_spaces)
  let ?s = "(new_objects MACH_PORT_RIGHT_PORT_SET addr a name s)\<lparr>spaces := f\<rparr>"
  have call: "ipc_pset_alloc mem addr s a = Some (?s, KERN_SUCCESS, name)"
    using g(1)
    by (simp add: ipc_pset_alloc_def f(1) io_new_def new_objects_def mod_pset_def IOT_PORT_def IOT_PORT_SET_def mach_consts)
  have "wf_at ?s a t' xs'" using g(3) by (subst wf_at_cong [of _ a s1]) (simp_all add: f(1))
  moreover have "only_space a (new_objects MACH_PORT_RIGHT_PORT_SET addr a name s) ?s"
    by (rule only_spaceI) (use f(2) in \<open>simp add: new_objects_def\<close>)
  ultimately show ?thesis unfolding call using g(4-6) by (intro allocatedI) (simp_all add: new_cap_def mach_consts)
next
  fix s1 kr t' xs'
  assume n: "ipc_object_alloc mem addr s a IOT_PORT_SET MACH_PORT_TYPE_PORT_SET 0 = Some (io_unalloc s1 IOT_PORT_SET addr, kr, MACH_PORT_NULL)"
    "kr = KERN_NO_SPACE \<or> kr = KERN_RESOURCE_SHORTAGE" "only_space a (io_new s IOT_PORT_SET addr) s1" "wf_at s1 a t' xs'"
    "caps t' = caps t"
  have "kr \<noteq> KERN_SUCCESS" using n(2) by (auto simp: mach_consts)
  then have call: "ipc_pset_alloc mem addr s a = Some (io_unalloc s1 IOT_PORT_SET addr, kr, MACH_PORT_NULL)"
    using n(1) by (simp add: ipc_pset_alloc_def)
  show ?thesis unfolding call by (rule allocated_undone [OF n(2-5) addr])
qed (simp_all add: IOT_PORT_SET_def IOT_NUMBER_def)

lemma dead_alloc_at:
  assumes wf: "wf_at s a t xs" and card: "card (sends t) \<le> IPC_ENTRY_DIST_MAX + 1"
  shows "allocated s a t MACH_PORT_RIGHT_DEAD_NAME addr (ipc_object_alloc_dead mem s a)"
proof (rule entry_alloc_at [OF wf card, of mem IO_NULL])
  fix s1 t1 xs1 i
  assume g: "sp_entry_alloc mem s a IO_NULL = Some (s1, KERN_SUCCESS, Some (entry_name t1 i, i))"
    "only_space a s s1" "space_at s1 a t1 xs1 (sends t1)" "caps t1 = caps t" "0 < i" "i < length t1"
    "set xs1 = frees t1 - {i}" "ie_object (t1 ! i) = IO_NULL" "ie_bits (t1 ! i) AND 0x003fffff = 0"
  have w: "(MACH_PORT_TYPE_DEAD_NAME OR 1) AND 0x001fffff = MACH_PORT_TYPE_DEAD_NAME OR 1"
    "IE_BITS_TYPE (MACH_PORT_TYPE_DEAD_NAME OR 1) = MACH_PORT_TYPE_DEAD_NAME" "IE_BITS_UREFS (MACH_PORT_TYPE_DEAD_NAME OR 1) = 1"
    "MACH_PORT_TYPE_DEAD_NAME \<noteq> 0" "MACH_PORT_TYPE_DEAD_NAME \<noteq> MACH_PORT_TYPE_SEND"
    by (simp_all add: IE_BITS_TYPE_def IE_BITS_UREFS_def mach_consts)
  obtain s' t' where s': "do { s \<leftarrow> mod_entry s1 a i (\<lambda>e. e\<lparr>ie_bits := ie_bits e OR (MACH_PORT_TYPE_DEAD_NAME OR 1)\<rparr>);
      sp_entry_modified s a (entry_name t1 i) i } = Some s'"
    "only_space a s1 s'" "wf_at s' a t' xs1"
    "caps t' = (caps t1)(entry_name t1 i \<mapsto> (ie_object (t1 ! i), MACH_PORT_TYPE_DEAD_NAME, 1))"
    by (rule fill_entry_at [OF g(3,5-7,9) w(1), unfolded w(2,3), OF w(4,5)])
  obtain s2 where s2: "mod_entry s1 a i (\<lambda>e. e\<lparr>ie_bits := ie_bits e OR (MACH_PORT_TYPE_DEAD_NAME OR 1)\<rparr>) = Some s2"
    "sp_entry_modified s2 a (entry_name t1 i) i = Some s'" using s'(1) by (auto simp: bind_eq_Some_conv)
  have call: "ipc_object_alloc_dead mem s a = Some (s', KERN_SUCCESS, entry_name t1 i)"
    using g(1) s2 by (simp add: ipc_object_alloc_dead_def)
  have "caps t (entry_name t1 i) = None" "MACH_PORT_VALID (entry_name t1 i)"
    using caps_entry_name [OF space_at_table [OF g(3)] g(5,6)] type_of_low [OF g(9)] g(4)
      entry_name_facts(3) [OF space_at_table [OF g(3)] g(5,6)] by simp_all
  then show ?thesis
    unfolding call using s'(3,4) g(4,8) only_space_trans [OF g(2) s'(2)]
    by (intro allocatedI) (simp_all add: new_cap_def new_objects_def mach_consts)
next
  fix s1 kr t1 xs1
  assume n: "sp_entry_alloc mem s a IO_NULL = Some (s1, kr, None)" "kr = KERN_NO_SPACE \<or> kr = KERN_RESOURCE_SHORTAGE"
    "only_space a s s1" "wf_at s1 a t1 xs1" "caps t1 = caps t"
  have "kr \<noteq> KERN_SUCCESS" using n(2) by (auto simp: mach_consts)
  then have call: "ipc_object_alloc_dead mem s a = Some (s1, kr, MACH_PORT_NULL)"
    using n(1) by (simp add: ipc_object_alloc_dead_def)
  show ?thesis unfolding call by (rule allocated_failed [OF n(2,4,5,3)])
qed

text \<open>The port the interface promises: no rights for it, no messages, no requests, nothing special.\<close>

definition fresh_port :: "ipc_port \<Rightarrow> ipc_space_t \<Rightarrow> mach_port_name_t \<Rightarrow> bool" where
  "fresh_port port a name \<longleftrightarrow>
     ip_active port \<and> io_otype port = IOT_PORT \<and> io_references port = 1 \<and> ip_in_space port a \<and>
     ip_get_receiver_name port = name \<and> ip_srights port = 0 \<and> ip_sorights port = 0 \<and> ip_mscount port = 0 \<and>
     imq_messages port = [] \<and> imq_qlimit port = MACH_PORT_QLIMIT_DEFAULT \<and> ip_pdrequest port = 0 \<and>
     ip_nsrequest port = 0 \<and> ip_requests port = None \<and> ip_psets port = [] \<and> \<not> ip_guarded port \<and> \<not> ip_is_kobject port"

lemma fresh_port_init:
  "name \<noteq> 0 \<Longrightarrow> fresh_port (ipc_port_init io_alloc_port a IPC_PORT_INIT_MESSAGE_QUEUE name) a name"
  by (simp add: fresh_port_def ipc_port_init_def io_alloc_port_def ipc_port_zero_def Let_def port_where
      IPC_PORT_INIT_MESSAGE_QUEUE_def IPC_PORT_INIT_FILTER_MESSAGE_def IPC_PORT_INIT_TG_BLOCK_TRACKING_def
      IPC_PORT_INIT_SPECIAL_REPLY_def IPC_PORT_INIT_MAKE_SEND_RIGHT_def io_makebits_def io_otype_def io_is_kobject_def
      IOT_PORT_def IO_BITS_OTYPE_def IO_BITS_KOBJECT_def)

text \<open>
  C37 (functional, error).  Allocating a receive right, a port set or a dead name ends without a panic and
  keeps the space well formed.  On success the name is valid and denoted nothing before; it now denotes
  the new right, every other name denotes what it did, and the object is new: a port that the space
  receives from under that name, without rights, messages, requests or guard; on failure no name and no
  object changes.
\<close>

theorem allocate_right:
  assumes "wf_at s a t xs" "a \<noteq> IS_NULL" "card (sends t) \<le> IPC_ENTRY_DIST_MAX + 1"
    and "ports s addr = None" "psets s addr = None"
    and "right \<in> {MACH_PORT_RIGHT_RECEIVE, MACH_PORT_RIGHT_PORT_SET, MACH_PORT_RIGHT_DEAD_NAME}"
  shows "\<exists>s' kr name t' xs'. mach_port_allocate mem addr s a right = Some (s', kr, name) \<and> wf_at s' a t' xs' \<and>
    (if kr = KERN_SUCCESS
     then MACH_PORT_VALID name \<and> caps t name = None \<and> caps t' = (caps t)(name \<mapsto> new_cap right addr) \<and>
       (if right = MACH_PORT_RIGHT_RECEIVE
        then \<exists>port. ports s' = (ports s)(addr \<mapsto> port) \<and> fresh_port port a name
        else ports s' = ports s) \<and>
       (if right = MACH_PORT_RIGHT_PORT_SET
        then \<exists>pset. psets s' = (psets s)(addr \<mapsto> pset) \<and> ips_waitq_valid pset
        else psets s' = psets s)
     else (kr = KERN_NO_SPACE \<or> kr = KERN_RESOURCE_SHORTAGE) \<and> name = MACH_PORT_NULL \<and> caps t' = caps t \<and>
       ports s' = ports s \<and> psets s' = psets s) \<and>
    events s' = events s"
proof -
  have "mach_port_allocate mem addr s a right =
      (if right = MACH_PORT_RIGHT_RECEIVE then ipc_port_alloc mem addr s a IPC_PORT_INIT_MESSAGE_QUEUE
       else if right = MACH_PORT_RIGHT_PORT_SET then ipc_pset_alloc mem addr s a
       else ipc_object_alloc_dead mem s a)"
    using assms(2,6) by (auto simp: mach_port_allocate_def mach_port_allocate_full_def)
  then have "allocated s a t right addr (mach_port_allocate mem addr s a right)"
    using assms(6) port_alloc_at [OF assms(1,3-5)] pset_alloc_at [OF assms(1,3-5)] dead_alloc_at [OF assms(1,3)] by auto
  then obtain s' kr name t' xs' where r: "mach_port_allocate mem addr s a right = Some (s', kr, name)" "wf_at s' a t' xs'"
    "if kr = KERN_SUCCESS
     then MACH_PORT_VALID name \<and> caps t name = None \<and> caps t' = (caps t)(name \<mapsto> new_cap right addr) \<and>
       only_space a (new_objects right addr a name s) s'
     else (kr = KERN_NO_SPACE \<or> kr = KERN_RESOURCE_SHORTAGE) \<and> name = MACH_PORT_NULL \<and> caps t' = caps t \<and> only_space a s s'"
    unfolding allocated_def by blast
  have obj: "ports s' = ports (new_objects right addr a name s)" "psets s' = psets (new_objects right addr a name s)"
    "events s' = events s" if "kr = KERN_SUCCESS"
    using r(3) that only_space_fields(1,2,4) [of a "new_objects right addr a name s" s'] by (simp_all add: new_objects_def)
  have none: "ports s' = ports s" "psets s' = psets s" "events s' = events s" if "kr \<noteq> KERN_SUCCESS"
    using r(3) that only_space_fields(1,2,4) [of a s s'] by simp_all
  have valid: "name \<noteq> 0" if "MACH_PORT_VALID name" using that by (simp add: MACH_PORT_VALID_def mach_consts)
  show ?thesis
  proof (cases "kr = KERN_SUCCESS")
    case True
    then show ?thesis
      using r obj [OF True] fresh_port_init [OF valid]
      by (intro exI [of _ s'] exI [of _ kr] exI [of _ name] exI [of _ t'] exI [of _ xs'])
        (auto simp: new_objects_def ipc_port_set_init_def mach_consts)
  next
    case False
    then show ?thesis
      using r none [OF False]
      by (intro exI [of _ s'] exI [of _ kr] exI [of _ name] exI [of _ t'] exI [of _ xs']) simp
  qed
qed

theorem allocate_right_witness:
  "\<exists>s' kr name t' xs'. mach_port_allocate (\<lambda>_. True) 0xffffff8000006000 demo_state demo_task MACH_PORT_RIGHT_RECEIVE =
      Some (s', kr, name) \<and> wf_at s' demo_task t' xs' \<and>
    (if kr = KERN_SUCCESS
     then MACH_PORT_VALID name \<and> caps demo_table name = None \<and>
       caps t' = (caps demo_table)(name \<mapsto> new_cap MACH_PORT_RIGHT_RECEIVE 0xffffff8000006000) \<and>
       (\<exists>port. ports s' = (ports demo_state)(0xffffff8000006000 \<mapsto> port) \<and> fresh_port port demo_task name) \<and>
       psets s' = psets demo_state
     else (kr = KERN_NO_SPACE \<or> kr = KERN_RESOURCE_SHORTAGE) \<and> name = MACH_PORT_NULL \<and> caps t' = caps demo_table \<and>
       ports s' = ports demo_state \<and> psets s' = psets demo_state) \<and>
    events s' = events demo_state"
proof -
  have wf: "wf_at demo_state demo_task demo_table [3..<21]"
    using demo_space_wf by (simp add: wf_at_def space_at_def wf_space_def del: upt_rec_numeral)
  have addr: "ports demo_state 0xffffff8000006000 = None" "psets demo_state 0xffffff8000006000 = None"
    by (simp_all add: demo_state_def demo_ports_def demo_addrs)
  have ne: "demo_task \<noteq> IS_NULL" "card (sends demo_table) \<le> IPC_ENTRY_DIST_MAX + 1"
    "MACH_PORT_RIGHT_RECEIVE \<in> {MACH_PORT_RIGHT_RECEIVE, MACH_PORT_RIGHT_PORT_SET, MACH_PORT_RIGHT_DEAD_NAME}"
    "MACH_PORT_RIGHT_RECEIVE \<noteq> MACH_PORT_RIGHT_PORT_SET"
    by (simp_all add: demo_sends mach_consts)
  show ?thesis
    using allocate_right [OF wf ne(1,2) addr ne(3), of "\<lambda>_. True"] unfolding if_not_P [OF ne(4)] if_P [OF refl] .
qed

end
