(* ===== verification/Ipc_Frame.thy ===== *)
theory Ipc_Frame
imports Ipc_Right Ipc_Logic
begin

text \<open>
  The port layer does not touch the spaces.  Each rule of the collection \<open>frame\<close> replaces a call by the
  states it can leave behind, about which only the spaces are known; the rules are syntax directed, so
  that the frame of a routine follows from those of the routines it calls.
\<close>

named_theorems frame \<open>calls that leave the spaces alone\<close>

lemmas [frame] = post_Some post_None post_bind post_if post_Let post_option

lemma frame_pair [frame]: "post (f a b) Q \<Longrightarrow> post (case (a, b) of (x, y) \<Rightarrow> f x y) Q"
  by simp

lemma frame_kassert [frame]: "(c \<Longrightarrow> Q ()) \<Longrightarrow> post (kassert c) Q"
  by (simp add: post_def kassert_def)

lemma frame_active [frame]: "(ip_active port \<Longrightarrow> Q ()) \<Longrightarrow> post (require_ip_active port) Q"
  by (simp add: post_def require_ip_active_def kassert_def)

text \<open>Reading: any value may come out.\<close>

lemma frame_read: "(\<And>x. m = Some x \<Longrightarrow> Q x) \<Longrightarrow> post m Q"
  by (simp add: post_def)

lemmas [frame] = frame_read [of "ports s p" for s p] frame_read [of "psets s p" for s p]
  frame_read [of "twe_pdrequest s w" for s w] frame_read [of "os_ref_retain r" for r]
  frame_read [of "os_ref_release r" for r] frame_read [of "ip_requests port" for port]
  frame_read [of "nth_opt xs i" for xs i] frame_read [of "ipc_port_has_prdrequest s port" for s port]
  frame_read [of "ipc_importance_check_circle s p" for s p]


section \<open>References\<close>

lemma mod_port_keeps [frame]:
  assumes "\<And>s'. spaces s' = spaces s \<Longrightarrow> Q s'"
  shows "post (mod_port s p f) Q"
  unfolding mod_port_def by (intro frame assms) simp

lemma mod_pset_frame [frame]:
  assumes "\<And>s'. spaces s' = spaces s \<Longrightarrow> Q s'"
  shows "post (mod_pset s p f) Q"
  unfolding mod_pset_def by (intro frame assms) simp

lemma ipc_port_finalize_frame [frame]:
  assumes "\<And>s'. spaces s' = spaces s \<Longrightarrow> Q s'"
  shows "post (ipc_port_finalize s p) Q"
  unfolding ipc_port_finalize_def by (intro frame assms) simp_all

lemma ipc_object_free_frame [frame]:
  assumes "\<And>s'. spaces s' = spaces s \<Longrightarrow> Q s'"
  shows "post (ipc_object_free s p) Q"
  unfolding ipc_object_free_def by (intro frame assms) simp_all

lemma ipc_object_reference_frame [frame]:
  assumes "\<And>s'. spaces s' = spaces s \<Longrightarrow> Q s'"
  shows "post (ipc_object_reference s p) Q"
  unfolding ipc_object_reference_def by (intro frame assms) simp_all

lemma ipc_object_release_frame [frame]:
  assumes "\<And>s'. spaces s' = spaces s \<Longrightarrow> Q s'"
  shows "post (ipc_object_release s p) Q"
  unfolding ipc_object_release_def by (intro frame assms) simp_all

lemma ipc_object_release_live_frame [frame]:
  assumes "\<And>s'. spaces s' = spaces s \<Longrightarrow> Q s'"
  shows "post (ipc_object_release_live s p) Q"
  unfolding ipc_object_release_live_def by (intro frame assms) simp_all

section \<open>Notifications and naked rights\<close>

lemma notify_spaces [simp]:
  "spaces (ipc_notify_port_deleted s p name) = spaces s" "spaces (ipc_notify_send_possible s p name) = spaces s"
  "spaces (ipc_notify_dead_name s p name) = spaces s" "spaces (ipc_notify_port_destroyed s p q) = spaces s"
  by (simp_all add: ipc_notify_port_deleted_def ipc_notify_send_possible_def ipc_notify_dead_name_def
      ipc_notify_port_destroyed_def)


lemma ipc_port_adjust_special_reply_port_frame [frame]:
  assumes "\<And>s'. spaces s' = spaces s \<Longrightarrow> Q s'"
  shows "post (ipc_port_adjust_special_reply_port s p reset) Q"
  unfolding ipc_port_adjust_special_reply_port_def by (intro frame assms) simp_all

lemma ipc_port_release_sonce_and_unlock_frame [frame]:
  assumes "\<And>s'. spaces s' = spaces s \<Longrightarrow> Q s'"
  shows "post (ipc_port_release_sonce_and_unlock s p) Q"
  unfolding ipc_port_release_sonce_and_unlock_def by (intro frame assms) simp_all

lemma ipc_port_release_sonce_frame [frame]:
  assumes "\<And>s'. spaces s' = spaces s \<Longrightarrow> Q s'"
  shows "post (ipc_port_release_sonce s p) Q"
  unfolding ipc_port_release_sonce_def by (intro frame assms) simp_all

lemma ipc_kobject_notify_no_senders_frame [frame]:
  assumes "\<And>s'. spaces s' = spaces s \<Longrightarrow> Q s'"
  shows "post (ipc_kobject_notify_no_senders s p mscount) Q"
  unfolding ipc_kobject_notify_no_senders_def by (intro frame assms) simp_all

lemma ipc_kobject_notify_send_once_and_unlock_frame [frame]:
  assumes "\<And>s'. spaces s' = spaces s \<Longrightarrow> Q s'"
  shows "post (ipc_kobject_notify_send_once_and_unlock s p) Q"
  unfolding ipc_kobject_notify_send_once_and_unlock_def by (intro frame assms) simp_all

lemma ipc_kobject_destroy_frame [frame]:
  assumes "\<And>s'. spaces s' = spaces s \<Longrightarrow> Q s'"
  shows "post (ipc_kobject_destroy s p) Q"
  unfolding ipc_kobject_destroy_def by (intro frame assms) simp_all

lemma ipc_notify_no_senders_prepare_frame [frame]:
  assumes "\<And>s' n. spaces s' = spaces s \<Longrightarrow> Q (s', n)"
  shows "post (ipc_notify_no_senders_prepare s p) Q"
  unfolding ipc_notify_no_senders_prepare_def by (intro frame assms) simp_all

lemma ipc_notify_no_senders_frame [frame]:
  assumes "\<And>s'. spaces s' = spaces s \<Longrightarrow> Q s'"
  shows "post (ipc_notify_no_senders s p mscount kobject) Q"
  unfolding ipc_notify_no_senders_def by (intro frame assms) simp_all

lemma ipc_notify_no_senders_emit_frame [frame]:
  assumes "\<And>s'. spaces s' = spaces s \<Longrightarrow> Q s'"
  shows "post (ipc_notify_no_senders_emit s n) Q"
  unfolding ipc_notify_no_senders_emit_def by (intro frame assms) simp_all

lemma ipc_notify_no_senders_consume_frame [frame]:
  assumes "\<And>s'. spaces s' = spaces s \<Longrightarrow> Q s'"
  shows "post (ipc_notify_no_senders_consume s n) Q"
  unfolding ipc_notify_no_senders_consume_def by (intro frame assms) simp_all

lemma ipc_notify_send_once_and_unlock_frame [frame]:
  assumes "\<And>s'. spaces s' = spaces s \<Longrightarrow> Q s'"
  shows "post (ipc_notify_send_once_and_unlock s p) Q"
  unfolding ipc_notify_send_once_and_unlock_def by (intro frame assms) simp_all

lemma ipc_port_make_send_locked_frame [frame]:
  assumes "\<And>s'. spaces s' = spaces s \<Longrightarrow> Q s'"
  shows "post (ipc_port_make_send_locked s p) Q"
  unfolding ipc_port_make_send_locked_def by (intro frame assms) simp_all

lemma ipc_port_make_send_frame [frame]:
  assumes "\<And>s' q. spaces s' = spaces s \<Longrightarrow> Q (s', q)"
  shows "post (ipc_port_make_send s p) Q"
  unfolding ipc_port_make_send_def by (intro frame assms) simp_all

lemma ipc_port_copy_send_locked_frame [frame]:
  assumes "\<And>s'. spaces s' = spaces s \<Longrightarrow> Q s'"
  shows "post (ipc_port_copy_send_locked s p) Q"
  unfolding ipc_port_copy_send_locked_def by (intro frame assms) simp_all

lemma ipc_port_copy_send_frame [frame]:
  assumes "\<And>s' q. spaces s' = spaces s \<Longrightarrow> Q (s', q)"
  shows "post (ipc_port_copy_send s p) Q"
  unfolding ipc_port_copy_send_def by (intro frame assms) simp_all

lemma ipc_port_release_send_and_unlock_frame [frame]:
  assumes "\<And>s'. spaces s' = spaces s \<Longrightarrow> Q s'"
  shows "post (ipc_port_release_send_and_unlock s p) Q"
  unfolding ipc_port_release_send_and_unlock_def by (intro frame assms) simp_all

lemma ipc_port_release_send_frame [frame]:
  assumes "\<And>s'. spaces s' = spaces s \<Longrightarrow> Q s'"
  shows "post (ipc_port_release_send s p) Q"
  unfolding ipc_port_release_send_def by (intro frame assms) simp_all

lemma ipc_port_make_sonce_locked_frame [frame]:
  assumes "\<And>s'. spaces s' = spaces s \<Longrightarrow> Q s'"
  shows "post (ipc_port_make_sonce_locked s p) Q"
  unfolding ipc_port_make_sonce_locked_def by (intro frame assms) simp_all

lemma ipc_port_make_sonce_frame [frame]:
  assumes "\<And>s' q. spaces s' = spaces s \<Longrightarrow> Q (s', q)"
  shows "post (ipc_port_make_sonce s p) Q"
  unfolding ipc_port_make_sonce_def by (intro frame assms) simp_all

lemma ipc_port_nsrequest_frame [frame]:
  assumes "\<And>s' q. spaces s' = spaces s \<Longrightarrow> Q (s', q)"
  shows "post (ipc_port_nsrequest s p sync notify) Q"
  unfolding ipc_port_nsrequest_def by (intro frame assms) simp_all

lemma ipc_port_impcount_delta_frame [frame]:
  assumes "\<And>s' d. spaces s' = spaces s \<Longrightarrow> Q (s', d)"
  shows "post (ipc_port_impcount_delta s p delta) Q"
  unfolding ipc_port_impcount_delta_def by (intro frame assms) simp_all

section \<open>Chains\<close>

lemma frame_rec:
  assumes "\<And>r. m = Some r \<Longrightarrow> spaces (fst r) = spaces s" "\<And>s' x. spaces s' = spaces s \<Longrightarrow> Q (s', x)"
  shows "post m Q"
  using assms by (intro postI) (metis prod.collapse)

lemma frame_rec_state:
  assumes "\<And>r. m = Some r \<Longrightarrow> spaces r = spaces s" "\<And>s'. spaces s' = spaces s \<Longrightarrow> Q s'"
  shows "post m Q"
  using assms by (intro postI) simp

lemma ipc_port_destination_chain_lock_frame [frame]:
  assumes "\<And>s' b r. spaces s' = spaces s \<Longrightarrow> Q (s', b, r)"
  shows "post (ipc_port_destination_chain_lock s p) Q"
proof -
  have "spaces (fst r) = spaces s" if "ipc_port_destination_chain_lock s p = Some r" for r
    apply (rule ipc_port_destination_chain_lock.raw_induct [OF _ that, where P = "\<lambda>s p r. spaces (fst r) = spaces s"])
    subgoal premises prems for f s p r
      by (rule postD [OF _ prems(2)]) (intro frame frame_rec [of "f t q" t for t q]; (erule prems(1) | simp))
    done
  then show ?thesis using assms by (intro postI) (metis prod.collapse)
qed


lemma ipc_port_importance_chain_frame [frame]:
  assumes "\<And>s' d. spaces s' = spaces s \<Longrightarrow> Q (s', d)"
  shows "post (ipc_port_importance_chain s p base delta) Q"
proof -
  have "spaces (fst r) = spaces s" if "ipc_port_importance_chain s p base delta = Some r" for r
    apply (rule ipc_port_importance_chain.raw_induct [OF _ that, where P = "\<lambda>s p base delta r. spaces (fst r) = spaces s"])
    subgoal premises prems for f s p base delta r
      by (rule postD [OF _ prems(2)]) (intro frame frame_rec [of "f t q b d" t for t q b d]; (erule prems(1) | simp))
    done
  then show ?thesis using assms by (intro postI) (metis prod.collapse)
qed


lemma ipc_importance_charge_chain_frame [frame]:
  assumes "\<And>s'. spaces s' = spaces s \<Longrightarrow> Q s'"
  shows "post (ipc_importance_charge_chain s dest base assertcnt) Q"
proof -
  have "spaces r = spaces s" if "ipc_importance_charge_chain s dest base assertcnt = Some r" for r
    apply (rule ipc_importance_charge_chain.raw_induct [OF _ that, where P = "\<lambda>s dest base assertcnt r. spaces r = spaces s"])
    subgoal premises prems for f s dest base assertcnt r
      by (rule postD [OF _ prems(2)]) (intro frame frame_rec_state [of "f t q b d" t for t q b d]; (erule prems(1) | simp))
    done
  then show ?thesis using assms by (intro postI) simp
qed


lemma ipc_port_importance_delta_internal_frame [frame]:
  assumes "\<And>s' d e t. spaces s' = spaces s \<Longrightarrow> Q (s', d, e, t)"
  shows "post (ipc_port_importance_delta_internal s p options delta) Q"
  unfolding ipc_port_importance_delta_internal_def by (intro frame assms) simp_all

lemma ipc_port_importance_delta_frame [frame]:
  assumes "\<And>s' d. spaces s' = spaces s \<Longrightarrow> Q (s', d)"
  shows "post (ipc_port_importance_delta s p options delta) Q"
  unfolding ipc_port_importance_delta_def by (intro frame assms) simp_all

section \<open>Tearing a port down\<close>

lemma ipc_port_update_watchport_elem_frame [frame]:
  assumes "\<And>s' w. spaces s' = spaces s \<Longrightarrow> Q (s', w)"
  shows "post (ipc_port_update_watchport_elem s p we) Q"
  unfolding ipc_port_update_watchport_elem_def by (intro frame assms) simp_all

lemma ipc_port_clear_watchport_elem_internal_frame [frame]:
  assumes "\<And>s' w. spaces s' = spaces s \<Longrightarrow> Q (s', w)"
  shows "post (ipc_port_clear_watchport_elem_internal s p) Q"
  unfolding ipc_port_clear_watchport_elem_internal_def by (intro frame assms) simp_all

lemma ipc_kmsg_delayed_destroy_queue_frame [frame]:
  assumes "\<And>s' b. spaces s' = spaces s \<Longrightarrow> Q (s', b)"
  shows "post (ipc_kmsg_delayed_destroy_queue s p) Q"
  unfolding ipc_kmsg_delayed_destroy_queue_def by (intro frame assms) simp_all

lemma ipc_kmsg_reap_spaces [simp]: "spaces (ipc_kmsg_reap_loop q s) = spaces s" "spaces (ipc_kmsg_reap_delayed s) = spaces s"
proof -
  show "spaces (ipc_kmsg_reap_loop q s) = spaces s" for q by (induction q s rule: ipc_kmsg_reap_loop.induct) simp_all
  then show "spaces (ipc_kmsg_reap_delayed s) = spaces s" by (simp add: ipc_kmsg_reap_delayed_def)
qed


lemma ipc_mqueue_destroy_locked_frame [frame]:
  assumes "\<And>s' b. spaces s' = spaces s \<Longrightarrow> Q (s', b)"
  shows "post (ipc_mqueue_destroy_locked s p) Q"
  unfolding ipc_mqueue_destroy_locked_def by (intro frame assms) simp_all

lemma ipc_port_timestamp_pair: "ipc_port_timestamp s = (s\<lparr>ipc_port_timestamp_data := ipc_port_timestamp_data s + 1\<rparr>, ipc_port_timestamp_data s)"
  by (simp add: ipc_port_timestamp_def)


lemma ipc_port_clear_receiver_frame [frame]:
  assumes "\<And>s' b. spaces s' = spaces s \<Longrightarrow> Q (s', b)"
  shows "post (ipc_port_clear_receiver s p should_destroy) Q"
  unfolding ipc_port_clear_receiver_def ipc_port_timestamp_pair by (intro frame assms) simp_all

lemma ipc_port_spnotify_loop_frame [frame]:
  assumes "\<And>s'. spaces s' = spaces s \<Longrightarrow> Q s'"
  shows "post (ipc_port_spnotify_loop n i s p) Q"
  using assms
proof (induction n arbitrary: i s)
  case (Suc n)
  show ?case unfolding ipc_port_spnotify_loop.simps by (intro frame Suc.IH Suc.prems) simp_all
qed (simp add: post_def)


lemma ipc_port_spnotify_frame [frame]:
  assumes "\<And>s'. spaces s' = spaces s \<Longrightarrow> Q s'"
  shows "post (ipc_port_spnotify s p) Q"
  unfolding ipc_port_spnotify_def by (intro frame assms) simp_all

lemma ipc_port_dnnotify_loop_frame [frame]:
  assumes "\<And>s'. spaces s' = spaces s \<Longrightarrow> Q s'"
  shows "post (ipc_port_dnnotify_loop n i slots s) Q"
  using assms
proof (induction n arbitrary: i s)
  case (Suc n)
  show ?case unfolding ipc_port_dnnotify_loop.simps by (intro frame Suc.IH Suc.prems) (simp split: if_splits)
qed (simp add: post_def)


lemma ipc_port_dnnotify_frame [frame]:
  assumes "\<And>s'. spaces s' = spaces s \<Longrightarrow> Q s'"
  shows "post (ipc_port_dnnotify s p) Q"
  unfolding ipc_port_dnnotify_def by (intro frame assms) simp_all

lemma ipc_port_destroy_assertions_frame [frame]:
  assumes "\<And>s' t c b. spaces s' = spaces s \<Longrightarrow> Q (s', t, c, b)"
  shows "post (ipc_port_destroy_assertions s p pdrequest) Q"
  unfolding ipc_port_destroy_assertions_def by (intro frame assms) simp_all

lemma ipc_port_destroy_backup_frame [frame]:
  assumes "\<And>s'. spaces s' = spaces s \<Longrightarrow> Q s'"
  shows "post (ipc_port_destroy_backup s p pdrequest service_port) Q"
  unfolding ipc_port_destroy_backup_def by (intro frame assms) (simp_all add: ipc_service_port_label_set_flag_def)

lemma ipc_port_destroy_dead_frame [frame]:
  assumes "\<And>s'. spaces s' = spaces s \<Longrightarrow> Q s'"
  shows "post (ipc_port_destroy_dead s p special_reply service_port reap_msgs) Q"
  unfolding ipc_port_destroy_dead_def by (intro frame assms) simp_all

lemma ipc_port_destroy_drop_frame [frame]:
  assumes "\<And>s'. spaces s' = spaces s \<Longrightarrow> Q s'"
  shows "post (ipc_port_destroy_drop s t c b) Q"
  unfolding ipc_port_destroy_drop_def by (intro frame assms) simp_all

lemma ipc_port_destroy_frame [frame]:
  assumes "\<And>s'. spaces s' = spaces s \<Longrightarrow> Q s'"
  shows "post (ipc_port_destroy s p) Q"
  unfolding ipc_port_destroy_def by (intro frame assms) simp_all

lemma ipc_port_release_receive_frame [frame]:
  assumes "\<And>s'. spaces s' = spaces s \<Longrightarrow> Q s'"
  shows "post (ipc_port_release_receive s p) Q"
  unfolding ipc_port_release_receive_def by (intro frame assms) simp_all

lemma ipc_importance_enter_transit_frame [frame]:
  assumes "\<And>s'. spaces s' = spaces s \<Longrightarrow> Q s'"
  shows "post (ipc_importance_enter_transit s p dest base took_base_ref) Q"
  unfolding ipc_importance_enter_transit_def by (intro frame assms) simp_all

lemma ipc_importance_check_circularity_frame [frame]:
  assumes "\<And>s' b. spaces s' = spaces s \<Longrightarrow> Q (s', b)"
  shows "post (ipc_importance_check_circularity s p dest) Q"
  unfolding ipc_importance_check_circularity_def by (intro frame assms) simp_all

lemma ipc_port_check_circularity_frame [frame]:
  assumes "\<And>s' b. spaces s' = spaces s \<Longrightarrow> Q (s', b)"
  shows "post (ipc_port_check_circularity s p dest) Q"
  unfolding ipc_port_check_circularity_def by (intro frame assms) simp_all

lemma ipc_right_drop_send_frame [frame]:
  assumes "\<And>s' n. spaces s' = spaces s \<Longrightarrow> Q (s', n)"
  shows "post (ipc_right_drop_send s p type) Q"
  unfolding ipc_right_drop_send_def by (intro frame assms) simp_all

lemma ipc_pset_destroy_frame [frame]:
  assumes "\<And>s'. spaces s' = spaces s \<Longrightarrow> Q s'"
  shows "post (ipc_pset_destroy s space ps) Q"
  unfolding ipc_pset_destroy_def by (intro frame assms) (simp_all add: waitq_set_unlink_all_def)

lemma guard_exception_spaces [simp]: "spaces (mach_port_guard_exception s name i g r) = spaces s"
  by (simp add: mach_port_guard_exception_def)


lemma mach_port_guard_exception_immovable_frame [frame]:
  assumes "\<And>s'. spaces s' = spaces s \<Longrightarrow> Q s'"
  shows "post (mach_port_guard_exception_immovable s space name port g) Q"
  unfolding mach_port_guard_exception_immovable_def by (intro frame assms) simp_all

lemma mach_port_guard_exception_pinned_frame [frame]:
  assumes "\<And>s'. spaces s' = spaces s \<Longrightarrow> Q s'"
  shows "post (mach_port_guard_exception_pinned s space name port g) Q"
  unfolding mach_port_guard_exception_pinned_def by (intro frame assms) simp_all

end
