(* ===== verification/Right_Types.thy ===== *)
theory Right_Types
imports Ipc_Frame Right_Bits Urefs_Delta
begin

text \<open>
  The type invariant of capability tables: which rights an entry can denote, and with how many user
  references, as the assertions of \<^verbatim>\<open>ipc_right.c\<close> expect it.  Every operation of the right layer keeps
  it; the rules in the collection \<open>typed\<close> state that for each of them and compose like those of \<open>frame\<close>.
\<close>

section \<open>The invariant\<close>

definition bits_ok :: "ipc_entry_bits_t \<Rightarrow> bool" where
  "bits_ok b \<longleftrightarrow>
     (let type = IE_BITS_TYPE b; urefs = IE_BITS_UREFS b
      in type = MACH_PORT_TYPE_NONE \<or>
         (type = MACH_PORT_TYPE_SEND \<or> type = MACH_PORT_TYPE_SEND_RECEIVE \<or> type = MACH_PORT_TYPE_DEAD_NAME) \<and> urefs \<noteq> 0 \<or>
         (type = MACH_PORT_TYPE_RECEIVE \<or> type = MACH_PORT_TYPE_PORT_SET) \<and> urefs = 0 \<or>
         type = MACH_PORT_TYPE_SEND_ONCE \<and> urefs = 1)"

definition right_ok :: "ipc_entry \<Rightarrow> bool" where
  "right_ok e \<longleftrightarrow> bits_ok (ie_bits e) \<and>
     (IE_BITS_TYPE (ie_bits e) = MACH_PORT_TYPE_DEAD_NAME \<longrightarrow> ie_object e = IO_NULL \<and> ie_request e = IE_REQ_NONE)"

text \<open>Entry 0 is the head of the table, whose bits are the size of the table.\<close>

definition table_ok :: "ipc_entry list \<Rightarrow> bool" where
  "table_ok t \<longleftrightarrow> (\<forall>i. 0 < i \<longrightarrow> i < length t \<longrightarrow> right_ok (t ! i))"

definition types_ok :: "(ipc_space_t \<rightharpoonup> ipc_space) \<Rightarrow> bool" where
  "types_ok S \<longleftrightarrow> (\<forall>a sp t. S a = Some sp \<longrightarrow> is_table sp = Some t \<longrightarrow> table_ok t)"

lemma types_okD:
  assumes "types_ok S" "S a = Some sp" "is_active_table sp = Some t"
  shows "table_ok t"
  using assms by (auto simp: types_ok_def is_active_table_def)

lemma types_ok_upd:
  assumes "types_ok S" "\<And>t. is_table sp = Some t \<Longrightarrow> table_ok t"
  shows "types_ok (S(a \<mapsto> sp))"
  using assms by (auto simp: types_ok_def)

lemma get_entry_ok:
  assumes "types_ok (spaces s)" "get_entry s a i = Some e" "0 < i"
  shows "right_ok e"
proof -
  obtain sp t where t: "spaces s a = Some sp" "is_active_table sp = Some t" "nth_opt t i = Some e"
    using assms(2) by (auto simp: get_entry_def bind_eq_Some_conv)
  then have "table_ok t" using types_okD [OF assms(1)] by blast
  then show ?thesis using t(3) assms(3) by (auto simp: table_ok_def nth_opt_def split: if_splits)
qed

lemma get_entry_cong: "spaces s' = spaces s \<Longrightarrow> get_entry s' a i = get_entry s a i"
  by (simp add: get_entry_def)


section \<open>Bits\<close>

lemma type_bits:
  "b AND MACH_PORT_TYPE_SEND = IE_BITS_TYPE b AND MACH_PORT_TYPE_SEND"
  "b AND MACH_PORT_TYPE_RECEIVE = IE_BITS_TYPE b AND MACH_PORT_TYPE_RECEIVE"
  "b AND MACH_PORT_TYPE_SEND_ONCE = IE_BITS_TYPE b AND MACH_PORT_TYPE_SEND_ONCE"
  "b AND MACH_PORT_TYPE_PORT_SET = IE_BITS_TYPE b AND MACH_PORT_TYPE_PORT_SET"
  "b AND MACH_PORT_TYPE_DEAD_NAME = IE_BITS_TYPE b AND MACH_PORT_TYPE_DEAD_NAME"
  "b AND MACH_PORT_TYPE_SEND_RIGHTS = IE_BITS_TYPE b AND MACH_PORT_TYPE_SEND_RIGHTS"
  "b AND MACH_PORT_TYPE_PORT_RIGHTS = IE_BITS_TYPE b AND MACH_PORT_TYPE_PORT_RIGHTS"
  by (rule type_test, simp add: mach_consts)+

lemma bits_ok_type:
  "bits_ok b \<Longrightarrow> IE_BITS_TYPE b \<in> {MACH_PORT_TYPE_NONE, MACH_PORT_TYPE_SEND, MACH_PORT_TYPE_SEND_RECEIVE,
     MACH_PORT_TYPE_DEAD_NAME, MACH_PORT_TYPE_RECEIVE, MACH_PORT_TYPE_PORT_SET, MACH_PORT_TYPE_SEND_ONCE}"
  by (auto simp: bits_ok_def Let_def)

lemma bits_ok_none: "IE_BITS_TYPE b = MACH_PORT_TYPE_NONE \<Longrightarrow> bits_ok b"
  by (simp add: bits_ok_def)

lemma clear_type: "IE_BITS_TYPE (b AND NOT IE_BITS_TYPE_MASK) = MACH_PORT_TYPE_NONE"
  by (simp add: IE_BITS_TYPE_def mach_consts and.assoc)

text \<open>A change of the user references that leaves some.\<close>

lemma bits_ok_add:
  assumes ok: "bits_ok b" and le: "IE_BITS_UREFS b + d \<le> MACH_PORT_UREFS_MAX" and nz: "IE_BITS_UREFS b + d \<noteq> 0"
    and some: "IE_BITS_UREFS b \<noteq> 0" "IE_BITS_TYPE b \<noteq> MACH_PORT_TYPE_SEND_ONCE"
  shows "bits_ok (b + d)" "IE_BITS_TYPE (b + d) = IE_BITS_TYPE b"
proof -
  show type: "IE_BITS_TYPE (b + d) = IE_BITS_TYPE b" by (rule high_fields(1) [OF UREFS_add(2) [OF le]])
  show "bits_ok (b + d)"
    using ok nz some UREFS_add(1) [OF le] by (auto simp: bits_ok_def Let_def type)
qed

lemma bits_ok_dec:
  assumes ok: "bits_ok b" and some: "IE_BITS_UREFS b > 0" "IE_BITS_UREFS b \<noteq> 1"
  shows "bits_ok (b - 1)" "IE_BITS_TYPE (b - 1) = IE_BITS_TYPE b"
proof -
  have nz: "IE_BITS_UREFS b \<noteq> 0" using some(1) by auto
  then have le: "IE_BITS_UREFS b + - 1 \<le> MACH_PORT_UREFS_MAX" using UREFS_le [of b] UREFS_le [of "b - 1"] UREFS_sub1(1) by simp
  have "IE_BITS_TYPE b \<noteq> MACH_PORT_TYPE_SEND_ONCE" using ok some(2) nz by (auto simp: bits_ok_def Let_def mach_consts)
  moreover have "IE_BITS_UREFS b + - 1 \<noteq> 0" using some(2) by simp
  ultimately show "bits_ok (b - 1)" "IE_BITS_TYPE (b - 1) = IE_BITS_TYPE b"
    using bits_ok_add [OF ok le _ nz] by simp_all
qed

lemma bits_ok_inc:
  assumes ok: "bits_ok b" and some: "IE_BITS_UREFS b \<noteq> 0" "IE_BITS_UREFS b < MACH_PORT_UREFS_MAX"
    and "IE_BITS_TYPE b \<noteq> MACH_PORT_TYPE_SEND_ONCE"
  shows "bits_ok (b + 1)" "IE_BITS_TYPE (b + 1) = IE_BITS_TYPE b"
proof -
  have le: "IE_BITS_UREFS b + 1 \<le> MACH_PORT_UREFS_MAX" using some(2) by (simp add: inc_le)
  have "IE_BITS_UREFS b + 1 \<noteq> 0" using some(2) by (auto simp: mach_consts add_eq_0_iff2)
  then show "bits_ok (b + 1)" "IE_BITS_TYPE (b + 1) = IE_BITS_TYPE b" using bits_ok_add [OF ok le] some(1) assms(4) by simp_all
qed

lemma bits_ok_dead:
  assumes "IE_BITS_UREFS b \<noteq> 0" "v AND IE_BITS_TYPE_MASK = MACH_PORT_TYPE_DEAD_NAME" "v AND 0xffff = 0"
  shows "bits_ok ((b AND NOT IE_BITS_TYPE_MASK) OR v)"
    "IE_BITS_TYPE ((b AND NOT IE_BITS_TYPE_MASK) OR v) = MACH_PORT_TYPE_DEAD_NAME"
    "IE_BITS_UREFS ((b AND NOT IE_BITS_TYPE_MASK) OR v) = IE_BITS_UREFS b"
  using retype(1) [of b v] retype(2) [OF assms(3), of b] assms(1,2) by (simp_all add: bits_ok_def Let_def)

text \<open>The dead name gets one more reference for a notification, unless the count is pegged.\<close>

lemma bits_ok_dead_inc:
  assumes "IE_BITS_UREFS b \<noteq> 0" "v AND IE_BITS_TYPE_MASK = MACH_PORT_TYPE_DEAD_NAME" "v AND 0xffff = 0"
    "IE_BITS_UREFS ((b AND NOT IE_BITS_TYPE_MASK) OR v) < MACH_PORT_UREFS_MAX"
  shows "bits_ok (((b AND NOT IE_BITS_TYPE_MASK) OR v) + 1)"
    "IE_BITS_TYPE (((b AND NOT IE_BITS_TYPE_MASK) OR v) + 1) = MACH_PORT_TYPE_DEAD_NAME"
  using bits_ok_inc [OF bits_ok_dead(1) [OF assms(1-3)]] bits_ok_dead [OF assms(1-3)] assms(1,4)
  by (simp_all add: mach_consts)

lemma bits_ok_clear_send:
  assumes "IE_BITS_TYPE b = MACH_PORT_TYPE_SEND_RECEIVE"
  shows "bits_ok (b AND NOT (IE_BITS_UREFS_MASK OR MACH_PORT_TYPE_SEND))"
    "IE_BITS_TYPE (b AND NOT (IE_BITS_UREFS_MASK OR MACH_PORT_TYPE_SEND)) = MACH_PORT_TYPE_RECEIVE"
  using clear_send [of b] assms by (simp_all add: bits_ok_def Let_def mach_consts)


section \<open>Steps on a space\<close>

named_theorems typed \<open>steps that keep the type invariant\<close>

lemma table_ok_same_caps:
  assumes "same_caps t t'" "table_ok t"
  shows "table_ok t'"
  using assms by (auto simp: same_caps_def table_ok_def right_ok_def)

lemma hash_table_insert_loop_caps: "ipc_hash_table_insert_loop fuel t sz h d i = Some t' \<Longrightarrow> same_caps t t'"
proof (induction fuel t sz h d i rule: ipc_hash_table_insert_loop.induct)
  case (2 fuel t sz h d i)
  obtain slot where slot: "nth_opt t h = Some slot" using 2(3) by (auto simp: bind_eq_Some_conv)
  have upd: "same_caps t (t[h := slot\<lparr>ie_dist := x, ie_index := y\<rparr>])" "same_caps t (t[h := slot\<lparr>ie_index := y, ie_dist := x\<rparr>])" for x y
    using slot by (auto simp: same_caps_def nth_list_update nth_opt_def split: if_splits)
  show ?case
    using 2 slot upd by (auto split: if_splits intro: same_caps_trans [OF upd(1)])
qed simp

lemma hash_table_delete_shift_caps: "ipc_hash_table_delete_shift fuel t sz h = Some t' \<Longrightarrow> same_caps t t'"
proof (induction fuel arbitrary: t h)
  case (Suc fuel)
  obtain hole where hole: "nth_opt t h = Some hole" using Suc.prems by (auto simp: bind_eq_Some_conv Let_def)
  have upd: "same_caps t (t[h := hole\<lparr>ie_index := y, ie_dist := x\<rparr>])" for x y
    using hole by (auto simp: same_caps_def nth_list_update nth_opt_def split: if_splits)
  consider x y where "t' = t[h := hole\<lparr>ie_index := y, ie_dist := x\<rparr>]"
    | x y where "ipc_hash_table_delete_shift fuel (t[h := hole\<lparr>ie_index := y, ie_dist := x\<rparr>]) sz (hnext sz h) = Some t'"
    using Suc.prems hole by (auto simp: Let_def bind_eq_Some_conv simp del: of_nat_unat split: if_splits)
  then show ?case using upd Suc.IH same_caps_trans by cases blast+
qed simp

lemma on_space_typed:
  assumes ok: "types_ok (spaces s)"
    and f: "\<And>sp sp' t. f sp = Some sp' \<Longrightarrow> (\<And>t. is_table sp = Some t \<Longrightarrow> table_ok t) \<Longrightarrow> is_table sp' = Some t \<Longrightarrow> table_ok t"
    and Q: "\<And>s'. types_ok (spaces s') \<Longrightarrow> Q s'"
  shows "post (on_space s a f) Q"
proof (rule postI)
  fix s' assume "on_space s a f = Some s'"
  then obtain sp sp' where sp: "spaces s a = Some sp" "f sp = Some sp'" "s' = s\<lparr>spaces := (spaces s)(a \<mapsto> sp')\<rparr>"
    by (auto simp: on_space_def bind_eq_Some_conv)
  have "types_ok ((spaces s)(a \<mapsto> sp'))"
    using f [OF sp(2)] ok sp(1) by (intro types_ok_upd) (auto simp: types_ok_def)
  then show "Q s'" using Q sp(3) by simp
qed

lemma hash_insert_typed [typed]:
  assumes "types_ok (spaces s)" "\<And>s'. types_ok (spaces s') \<Longrightarrow> Q s'"
  shows "post (sp_hash_insert s a obj name i) Q"
  by (rule on_space_typed [OF assms(1) _ assms(2)])
    (auto simp: ipc_hash_insert_def ipc_hash_table_insert_def bind_eq_Some_conv Let_def is_active_table_def kassert_def
      split: if_splits intro: table_ok_same_caps [OF hash_table_insert_loop_caps])

lemma hash_delete_typed [typed]:
  assumes "types_ok (spaces s)" "\<And>s'. types_ok (spaces s') \<Longrightarrow> Q s'"
  shows "post (sp_hash_delete s a obj name i) Q"
  by (rule on_space_typed [OF assms(1) _ assms(2)])
    (auto simp: ipc_hash_delete_def ipc_hash_table_delete_def bind_eq_Some_conv Let_def is_active_table_def kassert_def
      split: if_splits intro: table_ok_same_caps [OF hash_table_delete_shift_caps])

lemma entry_modified_table: "ipc_entry_modified sp name i = Some sp' \<Longrightarrow> is_table sp' = is_table sp"
  by (auto simp: ipc_entry_modified_def bind_eq_Some_conv Let_def kassert_def split: if_splits)

lemma modified_typed [typed]:
  assumes "types_ok (spaces s)" "\<And>s'. types_ok (spaces s') \<Longrightarrow> Q s'"
  shows "post (sp_entry_modified s a name i) Q"
  by (rule on_space_typed [OF assms(1) _ assms(2)]) (simp add: entry_modified_table)

lemma entry_dealloc_table_ok:
  assumes "ipc_entry_dealloc sp object name i = Some sp'" "\<And>t. is_table sp = Some t \<Longrightarrow> table_ok t" "is_table sp' = Some t'"
  shows "table_ok t'"
proof -
  obtain t e head where t: "is_table sp = Some t" "nth_opt t i = Some e" "nth_opt t 0 = Some head" "0 < i"
    "t' = t[i := e\<lparr>ie_bits := ie_bits e AND (IE_BITS_GEN_MASK OR IE_BITS_ROLL_MASK), ie_request := ie_next head, ie_object := IO_NULL\<rparr>,
            0 := head\<lparr>ie_request := word_of_nat i\<rparr>]"
    using assms(1,3)
    by (auto simp: ipc_entry_dealloc_def bind_eq_Some_conv Let_def is_active_table_def kassert_def split: if_splits
        dest!: entry_modified_table)
  have "IE_BITS_TYPE (b AND (IE_BITS_GEN_MASK OR IE_BITS_ROLL_MASK)) = MACH_PORT_TYPE_NONE" for b
    by (simp add: IE_BITS_TYPE_def mach_consts and.assoc)
  then have "right_ok (e\<lparr>ie_bits := ie_bits e AND (IE_BITS_GEN_MASK OR IE_BITS_ROLL_MASK), ie_request := ie_next head, ie_object := IO_NULL\<rparr>)"
    by (simp add: right_ok_def bits_ok_none mach_consts)
  then show ?thesis
    using assms(2) [OF t(1)] t(2-5) by (auto simp: table_ok_def nth_list_update nth_opt_def split: if_splits)
qed

lemma dealloc_typed [typed]:
  assumes "types_ok (spaces s)" "\<And>s'. types_ok (spaces s') \<Longrightarrow> Q s'"
  shows "post (sp_entry_dealloc s a object name i) Q"
  by (rule on_space_typed [OF assms(1) _ assms(2)]) (rule entry_dealloc_table_ok)

lemma mod_entry_typed [typed]:
  assumes ok: "types_ok (spaces s)" and f: "\<And>e. get_entry s a i = Some e \<Longrightarrow> 0 < i \<Longrightarrow> right_ok (f e)"
    and Q: "\<And>s'. types_ok (spaces s') \<Longrightarrow> Q s'"
  shows "post (mod_entry s a i f) Q"
proof (rule postI)
  fix s' assume "mod_entry s a i f = Some s'"
  then obtain sp t e where sp: "spaces s a = Some sp" "is_active_table sp = Some t" "nth_opt t i = Some e"
      "s' = s\<lparr>spaces := (spaces s)(a \<mapsto> sp\<lparr>is_table := Some (t[i := f e])\<rparr>)\<rparr>"
    by (auto simp: mod_entry_def on_space_def bind_eq_Some_conv)
  have "0 < i \<Longrightarrow> right_ok (f e)" by (rule f) (simp_all add: get_entry_def sp(1-3))
  then have "table_ok (t[i := f e])"
    using types_okD [OF ok sp(1,2)] sp(3) by (auto simp: table_ok_def nth_list_update nth_opt_def split: if_splits)
  then have "types_ok (spaces s')" unfolding sp(4) using types_ok_upd [OF ok, of "sp\<lparr>is_table := Some (t[i := f e])\<rparr>"] by simp
  then show "Q s'" by (rule Q)
qed

section \<open>The operations\<close>

lemmas [typed] = frame frame_read [of "get_entry s a i" for s a i] frame_read [of "ipc_port_request_type port name i" for port name i]

lemma read_pair: "(\<And>x y. m = Some (x, y) \<Longrightarrow> Q (x, y)) \<Longrightarrow> post m Q"
  by (auto simp: post_def)

lemmas [typed] = read_pair [of "ipc_port_request_cancel port name i" for port name i]
  read_pair [of "ipc_port_request_grow mem port t" for mem port t]
  read_pair [of "ipc_right_lookup_write s a name" for s a name]

lemma read_quad: "(\<And>x y z w. m = Some (x, y, z, w) \<Longrightarrow> Q (x, y, z, w)) \<Longrightarrow> post m Q"
  by (auto simp: post_def)

lemmas [typed] = read_quad [of "ipc_port_request_alloc d port name soright sp im" for d port name soright sp im]

text \<open>A write that does not depend on the entry, or only on the entry that was read before.\<close>

lemma right_ok_bits: "bits_ok b \<Longrightarrow> IE_BITS_TYPE b \<noteq> MACH_PORT_TYPE_DEAD_NAME \<Longrightarrow> right_ok (e\<lparr>ie_bits := b\<rparr>)"
  by (simp add: right_ok_def)

lemma right_ok_request: "right_ok e \<Longrightarrow> right_ok (e\<lparr>ie_request := IE_REQ_NONE\<rparr>)"
  by (simp add: right_ok_def)

lemma right_ok_dead: "bits_ok b \<Longrightarrow> right_ok (e\<lparr>ie_request := IE_REQ_NONE, ie_bits := b, ie_object := IO_NULL\<rparr>)"
  "bits_ok b \<Longrightarrow> right_ok (e\<lparr>ie_request := IE_REQ_NONE, ie_object := IO_NULL, ie_bits := b\<rparr>)"
  by (simp_all add: right_ok_def)

lemma dead_masks:
  "MACH_PORT_TYPE_DEAD_NAME AND IE_BITS_TYPE_MASK = MACH_PORT_TYPE_DEAD_NAME" "MACH_PORT_TYPE_DEAD_NAME AND 0xffff = 0"
  "(MACH_PORT_TYPE_DEAD_NAME OR MACH_PORT_TYPE_EX_RECEIVE) AND IE_BITS_TYPE_MASK = MACH_PORT_TYPE_DEAD_NAME"
  "(MACH_PORT_TYPE_DEAD_NAME OR MACH_PORT_TYPE_EX_RECEIVE) AND 0xffff = 0"
  by (simp_all add: mach_consts)

lemmas dead_rights = right_ok_dead [OF bits_ok_dead(1)] right_ok_dead [OF bits_ok_dead_inc(1)]

lemma ipc_right_check_typed [typed]:
  assumes ok: "types_ok (spaces s)" and live: "Q (s, False)" and dead: "\<And>s'. types_ok (spaces s') \<Longrightarrow> Q (s', True)"
  shows "post (ipc_right_check s a p name i flags) Q"
  unfolding ipc_right_check_def
  by (intro typed live dead; (simp add: ok)?) (auto simp: word_gt_0 dead_masks intro!: dead_rights)

lemma type_neq:
  "MACH_PORT_TYPE_SEND \<noteq> MACH_PORT_TYPE_DEAD_NAME" "MACH_PORT_TYPE_SEND_RECEIVE \<noteq> MACH_PORT_TYPE_DEAD_NAME"
  "MACH_PORT_TYPE_RECEIVE \<noteq> MACH_PORT_TYPE_DEAD_NAME" "MACH_PORT_TYPE_SEND_ONCE \<noteq> MACH_PORT_TYPE_DEAD_NAME"
  "MACH_PORT_TYPE_SEND \<noteq> MACH_PORT_TYPE_SEND_ONCE" "MACH_PORT_TYPE_SEND_RECEIVE \<noteq> MACH_PORT_TYPE_SEND_ONCE"
  "MACH_PORT_TYPE_DEAD_NAME \<noteq> MACH_PORT_TYPE_SEND_ONCE" "MACH_PORT_TYPE_NONE \<noteq> MACH_PORT_TYPE_DEAD_NAME"
  by (simp_all add: mach_consts)

lemma right_ok_clear_send:
  "IE_BITS_TYPE b = MACH_PORT_TYPE_SEND_RECEIVE \<Longrightarrow> right_ok (e\<lparr>ie_bits := b AND NOT (IE_BITS_UREFS_MASK OR MACH_PORT_TYPE_SEND)\<rparr>)"
  by (rule right_ok_bits) (simp_all add: bits_ok_clear_send type_neq del: bit.de_Morgan_disj)

text \<open>Fewer user references, of an entry that was read before.\<close>

lemma right_ok_dec:
  assumes "types_ok (spaces s)" "get_entry s a i = Some x" "0 < i" "IE_BITS_UREFS (ie_bits x) > 0" "IE_BITS_UREFS (ie_bits x) \<noteq> 1"
    and e: "e = x \<or> IE_BITS_TYPE (ie_bits x) \<noteq> MACH_PORT_TYPE_DEAD_NAME"
  shows "right_ok (e\<lparr>ie_bits := ie_bits x - 1\<rparr>)"
proof -
  have "right_ok x" by (rule get_entry_ok [OF assms(1-3)])
  then show ?thesis
    using bits_ok_dec [of "ie_bits x"] assms(4,5) e by (auto simp: right_ok_def)
qed

lemma right_ok_inc:
  assumes "types_ok (spaces s)" "get_entry s a i = Some x" "0 < i" "IE_BITS_UREFS (ie_bits x) > 0"
    "IE_BITS_UREFS (ie_bits x) < MACH_PORT_UREFS_MAX" "IE_BITS_TYPE (ie_bits x) \<noteq> MACH_PORT_TYPE_SEND_ONCE"
    and e: "e = x \<or> IE_BITS_TYPE (ie_bits x) \<noteq> MACH_PORT_TYPE_DEAD_NAME"
  shows "right_ok (e\<lparr>ie_bits := ie_bits x + 1\<rparr>)"
proof -
  have "right_ok x" by (rule get_entry_ok [OF assms(1-3)])
  then show ?thesis
    using bits_ok_inc [of "ie_bits x"] assms(4-6) e by (auto simp: right_ok_def)
qed

lemma right_ok_new_request:
  assumes "types_ok (spaces s)" "get_entry s a i = Some e" "0 < i" "IE_BITS_TYPE (ie_bits e) \<noteq> MACH_PORT_TYPE_DEAD_NAME"
  shows "right_ok (e\<lparr>ie_request := r\<rparr>)"
  using get_entry_ok [OF assms(1-3)] assms(4) by (simp add: right_ok_def)

lemma ipc_right_request_cancel_typed [typed]:
  assumes ok: "types_ok (spaces s)" and Q: "\<And>s' r. types_ok (spaces s') \<Longrightarrow> Q (s', r)"
  shows "post (ipc_right_request_cancel s a p name i) Q"
  unfolding ipc_right_request_cancel_def
  by (intro typed Q; (simp add: ok)?) (auto simp: get_entry_cong [of "set_port s p q" s for q] intro!: right_ok_request get_entry_ok [OF ok])

lemma ipc_right_request_cancel_macro_typed [typed]:
  assumes ok: "types_ok (spaces s)" and Q: "\<And>s' r. types_ok (spaces s') \<Longrightarrow> Q (s', r)"
  shows "post (ipc_right_request_cancel_macro s a p name i) Q"
  unfolding ipc_right_request_cancel_macro_def by (intro typed Q; (simp add: ok)?)

lemma ipc_right_dealloc_pset_typed [typed]:
  assumes ok: "types_ok (spaces s)" and Q: "\<And>s'. types_ok (spaces s') \<Longrightarrow> Q s'"
  shows "post (ipc_right_dealloc_pset s a name i) Q"
  unfolding ipc_right_dealloc_pset_def by (intro typed Q; (simp add: ok)?)

lemma ipc_right_dealloc_dead_typed [typed]:
  assumes ok: "types_ok (spaces s)" and Q: "\<And>s'. types_ok (spaces s') \<Longrightarrow> Q s'"
  shows "post (ipc_right_dealloc_dead s a name i relport) Q"
  unfolding ipc_right_dealloc_dead_def by (intro typed Q; (simp add: ok)?) (auto intro: right_ok_dec [OF ok])

lemma ipc_right_dealloc_send_once_typed [typed]:
  assumes ok: "types_ok (spaces s)" and Q: "\<And>s'. types_ok (spaces s') \<Longrightarrow> Q s'"
  shows "post (ipc_right_dealloc_send_once s a name i) Q"
  unfolding ipc_right_dealloc_send_once_def by (intro typed Q; (simp add: ok)?)

lemma ipc_right_dealloc_send_typed:
  assumes ok: "types_ok (spaces s)" and type: "\<And>e. get_entry s a i = Some e \<Longrightarrow> IE_BITS_TYPE (ie_bits e) = MACH_PORT_TYPE_SEND"
    and Q: "\<And>s' kr. types_ok (spaces s') \<Longrightarrow> Q (s', kr)"
  shows "post (ipc_right_dealloc_send s a name i) Q"
  unfolding ipc_right_dealloc_send_def
  by (intro typed Q; (simp add: ok)?) (auto intro!: right_ok_dec [OF ok] simp: type type_neq)

lemma ipc_right_dealloc_send_receive_typed:
  assumes ok: "types_ok (spaces s)" and type: "\<And>e. get_entry s a i = Some e \<Longrightarrow> IE_BITS_TYPE (ie_bits e) = MACH_PORT_TYPE_SEND_RECEIVE"
    and Q: "\<And>s'. types_ok (spaces s') \<Longrightarrow> Q s'"
  shows "post (ipc_right_dealloc_send_receive s a name i) Q"
  unfolding ipc_right_dealloc_send_receive_def
  by (intro typed Q; (simp add: ok del: bit.de_Morgan_disj)?)
    (auto intro!: right_ok_dec [OF ok] right_ok_clear_send simp: type type_neq simp del: bit.de_Morgan_disj)

lemma ipc_right_dealloc_typed [typed]:
  assumes ok: "types_ok (spaces s)" and Q: "\<And>s' kr. types_ok (spaces s') \<Longrightarrow> Q (s', kr)"
  shows "post (ipc_right_dealloc s a name i) Q"
  unfolding ipc_right_dealloc_def
  by (intro typed ipc_right_dealloc_send_typed ipc_right_dealloc_send_receive_typed Q; (simp add: ok)?)

section \<open>Destruction and changes of the references\<close>

lemma right_ok_cleared: "right_ok (e\<lparr>ie_bits := b AND NOT IE_BITS_TYPE_MASK\<rparr>)"
  by (rule right_ok_bits) (simp_all add: clear_type bits_ok_none type_neq)

lemma ipc_right_destroy_live_typed [typed]:
  assumes ok: "types_ok (spaces s)" and Q: "\<And>s'. types_ok (spaces s') \<Longrightarrow> Q s'"
  shows "post (ipc_right_destroy_live s a name i p type) Q"
  unfolding ipc_right_destroy_live_def by (intro typed Q; (simp add: ok)?)

lemma ipc_right_destroy_port_typed [typed]:
  assumes ok: "types_ok (spaces s)" and Q: "\<And>s' kr. types_ok (spaces s') \<Longrightarrow> Q (s', kr)"
  shows "post (ipc_right_destroy_port s a name i type check_guard guard) Q"
  unfolding ipc_right_destroy_port_def
  by (intro typed Q; (simp add: ok)?) (auto intro!: right_ok_request intro: get_entry_ok [OF ok] get_entry_ok)

lemma ipc_right_destroy_typed [typed]:
  assumes ok: "types_ok (spaces s)" and Q: "\<And>s' kr. types_ok (spaces s') \<Longrightarrow> Q (s', kr)"
  shows "post (ipc_right_destroy s a name i check_guard guard) Q"
  unfolding ipc_right_destroy_def by (intro typed Q; (simp add: ok right_ok_cleared)?)

lemma ipc_right_invalid [simp]:
  "ipc_right_invalid_value s name = (mach_port_guard_exception s name 0 0 kGUARD_EXC_INVALID_VALUE, KERN_INVALID_VALUE)"
  "ipc_right_invalid_right s name = (mach_port_guard_exception s name 0 0 kGUARD_EXC_INVALID_RIGHT, KERN_INVALID_RIGHT)"
  by (simp_all add: ipc_right_invalid_value_def ipc_right_invalid_right_def)

lemma ipc_right_delta_pset_typed [typed]:
  assumes ok: "types_ok (spaces s)" and Q: "\<And>s' kr. types_ok (spaces s') \<Longrightarrow> Q (s', kr)"
  shows "post (ipc_right_delta_pset s a name i delta) Q"
  unfolding ipc_right_delta_pset_def ipc_right_invalid by (intro typed Q; (simp add: ok)?)

text \<open>What a test of one right says about the type.\<close>

lemma has_send:
  assumes "right_ok x" "ie_bits x AND MACH_PORT_TYPE_SEND \<noteq> 0"
  shows "IE_BITS_TYPE (ie_bits x) = MACH_PORT_TYPE_SEND \<or> IE_BITS_TYPE (ie_bits x) = MACH_PORT_TYPE_SEND_RECEIVE"
    "IE_BITS_UREFS (ie_bits x) \<noteq> 0"
proof -
  have b: "bits_ok (ie_bits x)" using assms(1) by (simp add: right_ok_def)
  show type: "IE_BITS_TYPE (ie_bits x) = MACH_PORT_TYPE_SEND \<or> IE_BITS_TYPE (ie_bits x) = MACH_PORT_TYPE_SEND_RECEIVE"
    using bits_ok_type [OF b] assms(2) unfolding type_bits(1) [of "ie_bits x"] by (auto simp: mach_consts)
  show "IE_BITS_UREFS (ie_bits x) \<noteq> 0" using b type by (auto simp: bits_ok_def Let_def mach_consts)
qed

lemma lose_receive_bits:
  assumes "IE_BITS_TYPE b = MACH_PORT_TYPE_SEND \<or> IE_BITS_TYPE b = MACH_PORT_TYPE_SEND_RECEIVE" "IE_BITS_UREFS b \<noteq> 0"
  shows "right_ok (e\<lparr>ie_bits := (b AND NOT MACH_PORT_TYPE_RECEIVE) OR MACH_PORT_TYPE_EX_RECEIVE\<rparr>)"
proof -
  have "IE_BITS_TYPE ((b AND NOT MACH_PORT_TYPE_RECEIVE) OR MACH_PORT_TYPE_EX_RECEIVE) = IE_BITS_TYPE b AND NOT MACH_PORT_TYPE_RECEIVE"
    "IE_BITS_UREFS ((b AND NOT MACH_PORT_TYPE_RECEIVE) OR MACH_PORT_TYPE_EX_RECEIVE) = IE_BITS_UREFS b"
    by (simp_all add: IE_BITS_TYPE_def IE_BITS_UREFS_def mach_consts bit.conj_disj_distrib2 and.assoc)
  then show ?thesis using assms by (intro right_ok_bits) (auto simp: bits_ok_def Let_def mach_consts)
qed

lemma ipc_right_lose_receive_typed:
  assumes ok: "types_ok (spaces s)"
    and type: "\<And>e. get_entry s a i = Some e \<Longrightarrow> ie_bits e AND MACH_PORT_TYPE_SEND \<noteq> 0"
    and Q: "\<And>s'. types_ok (spaces s') \<Longrightarrow> Q s'"
  shows "post (ipc_right_lose_receive s a name i p) Q"
proof -
  have send: "(IE_BITS_TYPE (ie_bits e) = MACH_PORT_TYPE_SEND \<or> IE_BITS_TYPE (ie_bits e) = MACH_PORT_TYPE_SEND_RECEIVE) \<and>
      IE_BITS_UREFS (ie_bits e) \<noteq> 0" if "get_entry s a i = Some e" "0 < i" for e
    using has_send [OF get_entry_ok [OF ok that] type [OF that(1)]] by simp
  show ?thesis
    unfolding ipc_right_lose_receive_def
    by (intro typed Q; (simp add: ok)?) (auto simp: dead_masks dest: send intro!: dead_rights lose_receive_bits)
qed

text \<open>A change by \<open>ipc_right_urefs_delta\<close>.\<close>

lemma urefs_delta_le:
  assumes "ipc_right_urefs_delta (IE_BITS_UREFS b) delta = Some d"
  shows "IE_BITS_UREFS b + d \<le> MACH_PORT_UREFS_MAX"
  using urefs_delta_cases [OF UREFS_le, of delta b] assms by (simp add: word_le_def mach_consts)

lemma right_ok_delta:
  assumes "right_ok x" "IE_BITS_UREFS (ie_bits x) + d \<le> MACH_PORT_UREFS_MAX"
    "IE_BITS_UREFS (ie_bits x) + d \<noteq> 0" "IE_BITS_UREFS (ie_bits x) \<noteq> 0" "IE_BITS_TYPE (ie_bits x) \<noteq> MACH_PORT_TYPE_SEND_ONCE"
    and e: "e = x \<or> IE_BITS_TYPE (ie_bits x) \<noteq> MACH_PORT_TYPE_DEAD_NAME"
  shows "right_ok (e\<lparr>ie_bits := ie_bits x + d\<rparr>)"
  using bits_ok_add [of "ie_bits x" d] assms by (auto simp: right_ok_def)

lemma right_ok_delta_send:
  assumes "right_ok x" "ie_bits x AND MACH_PORT_TYPE_SEND \<noteq> 0"
    "ipc_right_urefs_delta (IE_BITS_UREFS (ie_bits x)) delta = Some d" "IE_BITS_UREFS (ie_bits x) + d \<noteq> 0"
  shows "right_ok (e\<lparr>ie_bits := ie_bits x + d\<rparr>)"
proof -
  have "IE_BITS_TYPE (ie_bits x) \<noteq> MACH_PORT_TYPE_SEND_ONCE" "IE_BITS_TYPE (ie_bits x) \<noteq> MACH_PORT_TYPE_DEAD_NAME"
    using has_send(1) [OF assms(1,2)] by (auto simp: type_neq)
  then show ?thesis
    using right_ok_delta [OF assms(1) urefs_delta_le [OF assms(3)] assms(4) has_send(2) [OF assms(1,2)]] by simp
qed

lemma ipc_right_delta_receive_typed [typed]:
  assumes ok: "types_ok (spaces s)" and Q: "\<And>s' kr. types_ok (spaces s') \<Longrightarrow> Q (s', kr)"
  shows "post (ipc_right_delta_receive s a name i delta) Q"
  unfolding ipc_right_delta_receive_def ipc_right_invalid
  by (intro typed ipc_right_lose_receive_typed Q; (simp add: ok)?) (auto split: if_splits intro: Q simp: ok)

lemma ipc_right_delta_send_once_typed [typed]:
  assumes ok: "types_ok (spaces s)" and Q: "\<And>s' kr. types_ok (spaces s') \<Longrightarrow> Q (s', kr)"
  shows "post (ipc_right_delta_send_once s a name i delta) Q"
  unfolding ipc_right_delta_send_once_def ipc_right_invalid by (intro typed Q; (simp add: ok)?)

lemma ipc_right_delta_dead_name_typed [typed]:
  assumes ok: "types_ok (spaces s)" and Q: "\<And>s' kr. types_ok (spaces s') \<Longrightarrow> Q (s', kr)"
  shows "post (ipc_right_delta_dead_name s a name i delta) Q"
  unfolding ipc_right_delta_dead_name_def ipc_right_invalid
  by (intro typed Q; (simp add: ok)?)
    (auto intro!: right_ok_delta urefs_delta_le intro: get_entry_ok get_entry_ok [OF ok] simp: type_neq)

lemma ipc_right_delta_send_gone_typed [typed]:
  assumes ok: "types_ok (spaces s)" and Q: "\<And>s'. types_ok (spaces s') \<Longrightarrow> Q s'"
  shows "post (ipc_right_delta_send_gone s a name i p) Q"
  unfolding ipc_right_delta_send_gone_def
  by (intro typed Q; (simp add: ok del: bit.de_Morgan_disj)?) (auto intro!: right_ok_clear_send simp del: bit.de_Morgan_disj)

lemma ipc_right_delta_send_typed [typed]:
  assumes ok: "types_ok (spaces s)" and Q: "\<And>s' kr. types_ok (spaces s') \<Longrightarrow> Q (s', kr)"
  shows "post (ipc_right_delta_send s a name i delta) Q"
  unfolding ipc_right_delta_send_def ipc_right_invalid
  by (intro typed Q; (simp add: ok)?)
    (auto split: if_splits intro: Q right_ok_delta_send [OF get_entry_ok [OF ok]] simp: ok)

lemma ipc_right_delta_typed [typed]:
  assumes ok: "types_ok (spaces s)" and Q: "\<And>s' kr. types_ok (spaces s') \<Longrightarrow> Q (s', kr)"
  shows "post (ipc_right_delta s a name i right delta) Q"
  unfolding ipc_right_delta_def by (intro typed Q; (simp add: ok)?)

lemma urefs_underflow_le:
  assumes "\<not> MACH_PORT_UREFS_UNDERFLOW u d" "\<not> sint d > 0" "u \<le> MACH_PORT_UREFS_MAX"
  shows "u + d \<le> MACH_PORT_UREFS_MAX"
proof -
  have "uint u \<le> 65535" using assms(3) by (simp add: word_le_def mach_consts)
  moreover have "uint (u + d) = (uint u + sint d) mod 2 ^ 32" by (rule uint_add_sint)
  moreover have "0 \<le> uint u + sint d"
  proof (cases "sint d < 0")
    case True
    then have "\<not> u < - d" using assms(1) by (simp add: MACH_PORT_UREFS_UNDERFLOW_def)
    then have "(- sint d) mod 2 ^ 32 \<le> uint u" by (simp add: word_less_def uint_minus_sint)
    moreover have "(- sint d) mod 2 ^ 32 = - sint d"
      using True sint_greater_eq [of d] by (intro mod_pos_pos_trivial) auto
    ultimately show ?thesis by simp
  qed (use assms(2) in auto)
  moreover have "sint d \<le> 0" using assms(2) by simp
  ultimately show ?thesis by (simp add: word_le_def mach_consts)
qed

lemma ipc_right_destruct_sends_typed:
  assumes ok: "types_ok (spaces s)" and neg: "\<not> sint srdelta > 0"
    and type: "\<And>e. get_entry s a i = Some e \<Longrightarrow> ie_bits e AND MACH_PORT_TYPE_SEND \<noteq> 0"
    and none: "Q None" and some: "\<And>s' n. types_ok (spaces s') \<Longrightarrow> Q (Some (s', n))"
  shows "post (ipc_right_destruct_sends s a i p srdelta) Q"
proof -
  have add: "right_ok (e\<lparr>ie_bits := ie_bits x + d\<rparr>)"
    if "get_entry s a i = Some x" "0 < i" "\<not> MACH_PORT_UREFS_UNDERFLOW (IE_BITS_UREFS (ie_bits x)) d" "\<not> sint d > 0"
      "IE_BITS_UREFS (ie_bits x) + d \<noteq> 0" for e x d
  proof -
    have x: "right_ok x" by (rule get_entry_ok [OF ok that(1,2)])
    note t = has_send [OF x type [OF that(1)]]
    have "IE_BITS_TYPE (ie_bits x) \<noteq> MACH_PORT_TYPE_SEND_ONCE" "IE_BITS_TYPE (ie_bits x) \<noteq> MACH_PORT_TYPE_DEAD_NAME"
      using t(1) by (auto simp: type_neq)
    then show ?thesis
      using right_ok_delta [OF x urefs_underflow_le [OF that(3,4) UREFS_le] that(5) t(2)] by simp
  qed
  have zero: "\<not> MACH_PORT_UREFS_UNDERFLOW u 0" for u by (simp add: MACH_PORT_UREFS_UNDERFLOW_def)
  show ?thesis
    unfolding ipc_right_destruct_sends_def
    by (intro typed none some; (simp add: ok del: bit.de_Morgan_disj)?)
      (use neg zero get_entry_ok [OF ok] in \<open>auto intro!: right_ok_clear_send add simp del: bit.de_Morgan_disj split: if_splits\<close>)
qed

lemma ipc_right_destruct_typed [typed]:
  assumes ok: "types_ok (spaces s)" and Q: "\<And>s' kr. types_ok (spaces s') \<Longrightarrow> Q (s', kr)"
  shows "post (ipc_right_destruct s a name i srdelta guard) Q"
  unfolding ipc_right_destruct_def ipc_right_invalid
  by (intro typed post_prod ipc_right_destruct_sends_typed ipc_right_lose_receive_typed Q; (simp add: ok)?)
    (auto split: if_splits intro: Q simp: ok)

lemma ipc_right_info_typed [typed]:
  assumes ok: "types_ok (spaces s)" and Q: "\<And>s' t u. types_ok (spaces s') \<Longrightarrow> Q (s', t, u)"
  shows "post (ipc_right_info s a name i) Q"
  unfolding ipc_right_info_def by (intro typed Q; (simp add: ok)?)

section \<open>Requests\<close>

lemma has_port_right:
  assumes "right_ok x" "ie_bits x AND MACH_PORT_TYPE_PORT_RIGHTS \<noteq> 0"
  shows "IE_BITS_TYPE (ie_bits x) \<noteq> MACH_PORT_TYPE_DEAD_NAME"
  using assms(2) unfolding type_bits(7) [of "ie_bits x"] by (auto simp: mach_consts)

lemma has_dead_name:
  assumes "right_ok x" "ie_bits x AND MACH_PORT_TYPE_DEAD_NAME \<noteq> 0"
  shows "IE_BITS_TYPE (ie_bits x) = MACH_PORT_TYPE_DEAD_NAME"
proof -
  have "bits_ok (ie_bits x)" using assms(1) by (simp add: right_ok_def)
  from bits_ok_type [OF this] show ?thesis
    using assms(2) unfolding type_bits(5) [of "ie_bits x"] by (auto simp: mach_consts)
qed

lemma ipc_right_request_alloc_live_typed:
  assumes ok: "types_ok (spaces s)"
    and type: "\<And>e. get_entry s a i = Some e \<Longrightarrow> 0 < i \<Longrightarrow> IE_BITS_TYPE (ie_bits e) \<noteq> MACH_PORT_TYPE_DEAD_NAME"
    and Q: "\<And>s' r. types_ok (spaces s') \<Longrightarrow> Q (s', r)"
  shows "post (ipc_right_request_alloc_live mem s a name i p immediate send_possible notify) Q"
proof -
  have cong: "get_entry (set_port s p q) a i = get_entry s a i" for q by (rule get_entry_cong) simp
  have new: "right_ok (e\<lparr>ie_request := r\<rparr>)" if "get_entry s a i = Some e" "0 < i" for e r
    by (rule right_ok_new_request [OF ok that type [OF that]])
  show ?thesis
    unfolding ipc_right_request_alloc_live_def
    by (intro typed Q; (simp add: ok)?) (auto simp: cong new ok intro: Q)
qed

lemma ipc_right_request_alloc_dead_typed [typed]:
  assumes ok: "types_ok (spaces s)" and Q: "\<And>s' r. types_ok (spaces s') \<Longrightarrow> Q (s', r)"
  shows "post (ipc_right_request_alloc_dead s a name i relport immediate send_possible notify) Q"
  unfolding ipc_right_request_alloc_dead_def
  by (intro typed Q; (simp add: ok)?)
    (auto intro!: right_ok_inc [OF ok] simp: type_neq dest: has_dead_name [OF get_entry_ok [OF ok]])

lemma ipc_right_request_alloc_round_typed [typed]:
  assumes ok: "types_ok (spaces s)" and Q: "\<And>s' r. types_ok (spaces s') \<Longrightarrow> Q (s', r)"
  shows "post (ipc_right_request_alloc_round mem s a name immediate send_possible notify) Q"
  unfolding ipc_right_request_alloc_round_def
  by (intro typed ipc_right_request_alloc_live_typed Q; (simp add: ok)?)
    (auto dest: has_port_right [OF get_entry_ok [OF ok]])

lemma ipc_right_request_alloc_typed [typed]:
  assumes ok: "types_ok (spaces s)" and Q: "\<And>s' kr r. types_ok (spaces s') \<Longrightarrow> Q (s', kr, r)"
  shows "post (ipc_right_request_alloc mem s a name immediate send_possible notify) Q"
proof -
  have "types_ok (spaces s) \<longrightarrow> types_ok (spaces (fst r))"
    if "ipc_right_request_alloc mem s a name immediate send_possible notify = Some r" for r
    apply (rule ipc_right_request_alloc.raw_induct [OF _ that, where
        P = "\<lambda>mem s a name immediate send_possible notify r. types_ok (spaces s) \<longrightarrow> types_ok (spaces (fst r))"])
    subgoal premises prems for f mem s a name immediate send_possible notify r
    proof
      assume s: "types_ok (spaces s)"
      have rec: "post (f mem s a name immediate send_possible notify) (\<lambda>r. types_ok (spaces (fst r)))"
        if "types_ok (spaces s)" for mem s a name immediate send_possible notify
        using prems(1) that by (intro postI) blast
      show "types_ok (spaces (fst r))"
        by (rule postD [OF _ prems(2)]) (intro typed post_prod rec; simp add: s)
    qed
    done
  then show ?thesis using assms by (intro postI) (metis prod.collapse)
qed


section \<open>Copying in\<close>

lemma ipc_right_copyin_check_guard_spaces [simp]:
  "spaces (fst (ipc_right_copyin_check_guard_locked s name port context flags)) = spaces s"
  by (simp add: ipc_right_copyin_check_guard_locked_def)

lemma ipc_right_copyin_check_reply_typed [typed]:
  assumes Q: "\<And>s' r. spaces s' = spaces s \<Longrightarrow> Q (s', r)"
  shows "post (ipc_right_copyin_check_reply s a name i ty) Q"
  unfolding ipc_right_copyin_check_reply_def by (intro typed Q; simp?)

lemma ipc_right_copy_dead_typed [typed]:
  assumes Q: "\<And>s' kr r. spaces s' = spaces s \<Longrightarrow> Q (s', kr, r)"
  shows "post (ipc_right_copy_dead s a i deadok release) Q"
  unfolding ipc_right_copy_dead_def by (intro typed; simp add: Q)

lemma ipc_right_move_dead_typed [typed]:
  assumes ok: "types_ok (spaces s)" and Q: "\<And>s' kr r. types_ok (spaces s') \<Longrightarrow> Q (s', kr, r)"
  shows "post (ipc_right_move_dead s a name i deadok release) Q"
  unfolding ipc_right_move_dead_def by (intro typed Q; (simp add: ok)?) (auto intro: right_ok_dec [OF ok])

lemma ipc_right_copyin_make_typed [typed]:
  assumes Q: "\<And>s' kr r. spaces s' = spaces s \<Longrightarrow> Q (s', kr, r)"
  shows "post (ipc_right_copyin_make s a name i once) Q"
  unfolding ipc_right_copyin_make_def by (intro typed Q; simp)

lemma ipc_right_copyin_move_receive_typed [typed]:
  assumes ok: "types_ok (spaces s)" and Q: "\<And>s' kr r. types_ok (spaces s') \<Longrightarrow> Q (s', kr, r)"
  shows "post (ipc_right_copyin_move_receive s a name i context guard_flags) Q"
proof -
  have guard: "types_ok (spaces s')"
    if "(case guard_flags of None \<Rightarrow> (s, KERN_SUCCESS)
          | Some flags \<Rightarrow> ipc_right_copyin_check_guard_locked s name port context flags) = (s', kr)" for s' kr port
    using that ok ipc_right_copyin_check_guard_spaces [of s name port "context" "the guard_flags"]
    by (cases guard_flags) (simp_all add: ok)
  show ?thesis
    unfolding ipc_right_copyin_move_receive_def
    by (intro typed post_prod Q; (simp add: ok)?) (auto intro: guard lose_receive_bits simp: ok word_gt_0)
qed

lemma ipc_right_copyin_copy_send_typed [typed]:
  assumes ok: "types_ok (spaces s)" and Q: "\<And>s' kr r. types_ok (spaces s') \<Longrightarrow> Q (s', kr, r)"
  shows "post (ipc_right_copyin_copy_send s a name i deadok imm) Q"
  unfolding ipc_right_copyin_copy_send_def by (intro typed Q; (simp add: ok)?)

lemma ipc_right_copyin_move_last_typed [typed]:
  assumes ok: "types_ok (spaces s)" and Q: "\<And>s' kr r. types_ok (spaces s') \<Longrightarrow> Q (s', kr, r)"
  shows "post (ipc_right_copyin_move_last s a name i p) Q"
  unfolding ipc_right_copyin_move_last_def
  by (intro typed Q; (simp add: ok del: bit.de_Morgan_disj)?) (auto intro!: right_ok_clear_send simp del: bit.de_Morgan_disj)

lemma no_dead_name: "b AND MACH_PORT_TYPE_DEAD_NAME = 0 \<Longrightarrow> IE_BITS_TYPE b \<noteq> MACH_PORT_TYPE_DEAD_NAME"
  unfolding type_bits(5) [of b] by (auto simp: mach_consts)

lemma ipc_right_copyin_move_send_typed [typed]:
  assumes ok: "types_ok (spaces s)" and Q: "\<And>s' kr r. types_ok (spaces s') \<Longrightarrow> Q (s', kr, r)"
  shows "post (ipc_right_copyin_move_send s a name i deadok imm) Q"
  unfolding ipc_right_copyin_move_send_def
  by (intro typed Q; (simp add: ok)?) (auto intro!: right_ok_dec [OF ok] simp: no_dead_name)

lemma ipc_right_copyin_move_send_once_typed [typed]:
  assumes ok: "types_ok (spaces s)" and Q: "\<And>s' kr r. types_ok (spaces s') \<Longrightarrow> Q (s', kr, r)"
  shows "post (ipc_right_copyin_move_send_once s a name i flags) Q"
  unfolding ipc_right_copyin_move_send_once_def by (intro typed Q; (simp add: ok)?)

lemma ipc_right_copyin_typed [typed]:
  assumes ok: "types_ok (spaces s)" and Q: "\<And>s' kr r. types_ok (spaces s') \<Longrightarrow> Q (s', kr, r)"
  shows "post (ipc_right_copyin s a name i ty flags context guard_flags) Q"
  unfolding ipc_right_copyin_def by (intro typed Q; (simp add: ok)?)

lemma right_ok_dec2:
  assumes "right_ok x" "ie_bits x AND MACH_PORT_TYPE_SEND \<noteq> 0" "IE_BITS_UREFS (ie_bits x) > 2"
  shows "right_ok (e\<lparr>ie_bits := ie_bits x - 2\<rparr>)"
proof -
  have nz: "IE_BITS_UREFS (ie_bits x) + - 2 \<noteq> 0" using assms(3) by auto
  have "2 \<le> IE_BITS_UREFS (ie_bits x)" using assms(3) by simp
  then have "IE_BITS_UREFS (ie_bits x) - 2 \<le> IE_BITS_UREFS (ie_bits x)" by (rule word_sub_le)
  then have le: "IE_BITS_UREFS (ie_bits x) + - 2 \<le> MACH_PORT_UREFS_MAX" using UREFS_le [of "ie_bits x"] by simp
  have "IE_BITS_TYPE (ie_bits x) \<noteq> MACH_PORT_TYPE_SEND_ONCE" "IE_BITS_TYPE (ie_bits x) \<noteq> MACH_PORT_TYPE_DEAD_NAME"
    using has_send(1) [OF assms(1,2)] by (auto simp: type_neq)
  then show ?thesis using right_ok_delta [OF assms(1) le nz has_send(2) [OF assms(1,2)]] by simp
qed

lemma ipc_right_copyin_two_move_sends_typed [typed]:
  assumes ok: "types_ok (spaces s)" and Q: "\<And>s' kr r. types_ok (spaces s') \<Longrightarrow> Q (s', kr, r)"
  shows "post (ipc_right_copyin_two_move_sends s a name i) Q"
  unfolding ipc_right_copyin_two_move_sends_def
  by (intro typed Q; (simp add: ok del: bit.de_Morgan_disj)?)
    (auto intro!: right_ok_clear_send right_ok_dec2 [OF get_entry_ok [OF ok]] simp del: bit.de_Morgan_disj)

lemma ipc_right_copyin_two_typed [typed]:
  assumes ok: "types_ok (spaces s)" and Q: "\<And>s' kr r. types_ok (spaces s') \<Longrightarrow> Q (s', kr, r)"
  shows "post (ipc_right_copyin_two s a name i ty1 ty2) Q"
  unfolding ipc_right_copyin_two_def by (intro typed Q; (simp add: ok)?)

section \<open>Copying out\<close>

lemma fields_or:
  "IE_BITS_TYPE (b OR w) = IE_BITS_TYPE b OR IE_BITS_TYPE w" "IE_BITS_UREFS (b OR w) = IE_BITS_UREFS b OR IE_BITS_UREFS w"
  by (simp_all add: IE_BITS_TYPE_def IE_BITS_UREFS_def bit.conj_disj_distrib2)

lemma fields_consts:
  "IE_BITS_TYPE (MACH_PORT_TYPE_SEND_ONCE OR 1) = MACH_PORT_TYPE_SEND_ONCE" "IE_BITS_UREFS (MACH_PORT_TYPE_SEND_ONCE OR 1) = 1"
  "IE_BITS_TYPE MACH_PORT_TYPE_SEND = MACH_PORT_TYPE_SEND" "IE_BITS_UREFS MACH_PORT_TYPE_SEND = 0"
  "IE_BITS_TYPE MACH_PORT_TYPE_RECEIVE = MACH_PORT_TYPE_RECEIVE" "IE_BITS_UREFS MACH_PORT_TYPE_RECEIVE = 0"
  by (simp_all add: IE_BITS_TYPE_def IE_BITS_UREFS_def mach_consts)

lemma right_ok_gain_send_once:
  assumes "IE_BITS_TYPE b = MACH_PORT_TYPE_NONE" "IE_BITS_UREFS b = 0"
  shows "right_ok (e\<lparr>ie_bits := b OR (MACH_PORT_TYPE_SEND_ONCE OR 1)\<rparr>)"
proof -
  have "IE_BITS_TYPE (b OR (MACH_PORT_TYPE_SEND_ONCE OR 1)) = MACH_PORT_TYPE_SEND_ONCE"
    "IE_BITS_UREFS (b OR (MACH_PORT_TYPE_SEND_ONCE OR 1)) = 1"
    unfolding fields_or(1) [of b "MACH_PORT_TYPE_SEND_ONCE OR 1"] fields_or(2) [of b "MACH_PORT_TYPE_SEND_ONCE OR 1"] fields_consts
    using assms by (simp_all add: mach_consts)
  then show ?thesis by (intro right_ok_bits) (simp_all add: bits_ok_def type_neq)
qed

lemma right_ok_gain_send:
  assumes b: "IE_BITS_TYPE b = MACH_PORT_TYPE_NONE \<or> IE_BITS_TYPE b = MACH_PORT_TYPE_RECEIVE" "IE_BITS_UREFS b = 0"
  shows "right_ok (e\<lparr>ie_bits := (b OR MACH_PORT_TYPE_SEND) + 1\<rparr>)"
proof -
  have u: "IE_BITS_UREFS (b OR MACH_PORT_TYPE_SEND) = 0"
    and t: "IE_BITS_TYPE (b OR MACH_PORT_TYPE_SEND) = MACH_PORT_TYPE_SEND \<or>
      IE_BITS_TYPE (b OR MACH_PORT_TYPE_SEND) = MACH_PORT_TYPE_SEND_RECEIVE"
    using b by (auto simp: fields_or IE_BITS_TYPE_def [of "0x10000"] IE_BITS_UREFS_def [of "0x10000"] mach_consts)
  have lt: "IE_BITS_UREFS (b OR MACH_PORT_TYPE_SEND) < MACH_PORT_UREFS_MAX" unfolding u by (simp add: mach_consts)
  note add = UREFS_add1 [OF lt]
  have "IE_BITS_UREFS ((b OR MACH_PORT_TYPE_SEND) + 1) = 1" using add(1) u by simp
  moreover have "IE_BITS_TYPE ((b OR MACH_PORT_TYPE_SEND) + 1) = MACH_PORT_TYPE_SEND \<or>
      IE_BITS_TYPE ((b OR MACH_PORT_TYPE_SEND) + 1) = MACH_PORT_TYPE_SEND_RECEIVE"
    using t high_fields(1) [OF add(2)] by simp
  ultimately show ?thesis by (intro right_ok_bits) (auto simp: bits_ok_def type_neq)
qed

lemma right_ok_more_send:
  assumes x: "right_ok x" "ie_bits x AND MACH_PORT_TYPE_SEND \<noteq> 0" "IE_BITS_UREFS (ie_bits x) \<noteq> MACH_PORT_UREFS_MAX"
  shows "right_ok (e\<lparr>ie_bits := (ie_bits x OR MACH_PORT_TYPE_SEND) + 1\<rparr>)"
proof -
  note t = has_send [OF x(1,2)]
  have "ie_bits x AND 0x10000 = 0x10000" using t(1) type_test [of "0x10000" "ie_bits x"] by (auto simp: mach_consts)
  then have eq: "ie_bits x OR MACH_PORT_TYPE_SEND = ie_bits x" by (simp add: or_absorb_iff mach_consts and.commute)
  have lt: "IE_BITS_UREFS (ie_bits x) < MACH_PORT_UREFS_MAX" using x(3) UREFS_le [of "ie_bits x"] by simp
  have type: "IE_BITS_TYPE (ie_bits x) \<noteq> MACH_PORT_TYPE_SEND_ONCE" "IE_BITS_TYPE (ie_bits x) \<noteq> MACH_PORT_TYPE_DEAD_NAME"
    using t(1) by (auto simp: type_neq)
  have "bits_ok (ie_bits x)" using x(1) by (simp add: right_ok_def)
  from bits_ok_inc [OF this t(2) lt type(1)] show ?thesis unfolding eq using type(2) by (intro right_ok_bits) simp_all
qed

lemma right_ok_gain_receive:
  assumes "if b AND MACH_PORT_TYPE_SEND \<noteq> 0 then IE_BITS_TYPE b = MACH_PORT_TYPE_SEND \<and> IE_BITS_UREFS b > 0 \<and> q
           else IE_BITS_TYPE b = MACH_PORT_TYPE_NONE \<and> IE_BITS_UREFS b = 0"
  shows "right_ok (e\<lparr>ie_bits := b OR MACH_PORT_TYPE_RECEIVE\<rparr>)"
proof -
  have u: "IE_BITS_UREFS (b OR MACH_PORT_TYPE_RECEIVE) = IE_BITS_UREFS b"
    and t: "IE_BITS_TYPE (b OR MACH_PORT_TYPE_RECEIVE) = IE_BITS_TYPE b OR MACH_PORT_TYPE_RECEIVE"
    by (simp_all add: fields_or fields_consts)
  have or: "MACH_PORT_TYPE_SEND OR MACH_PORT_TYPE_RECEIVE = MACH_PORT_TYPE_SEND_RECEIVE"
    "MACH_PORT_TYPE_NONE OR MACH_PORT_TYPE_RECEIVE = MACH_PORT_TYPE_RECEIVE" by (simp_all add: mach_consts)
  show ?thesis
    using assms by (intro right_ok_bits) (auto simp: bits_ok_def Let_def u t or type_neq split: if_splits)
qed

lemma ipc_right_copyout_service_frame [typed]:
  assumes "\<And>s'. spaces s' = spaces s \<Longrightarrow> Q s'"
  shows "post (ipc_right_copyout_service s name p) Q"
  unfolding ipc_right_copyout_service_def ipc_service_port_label_clear_flag_def
  by (intro typed post_prod assms; simp)

lemma ipc_right_copyout_send_once_typed [typed]:
  assumes ok: "types_ok (spaces s)" and Q: "\<And>s'. types_ok (spaces s') \<Longrightarrow> Q s'"
  shows "post (ipc_right_copyout_send_once s a name i p) Q"
  unfolding ipc_right_copyout_send_once_def by (intro typed Q right_ok_gain_send_once; (simp add: ok)?)

lemma ipc_right_copyout_send_typed [typed]:
  assumes ok: "types_ok (spaces s)" and Q: "\<And>s'. types_ok (spaces s') \<Longrightarrow> Q s'"
  shows "post (ipc_right_copyout_send s a name i p) Q"
  unfolding ipc_right_copyout_send_def
  by (intro typed Q; (simp add: ok)?) (auto intro: right_ok_gain_send right_ok_more_send [OF get_entry_ok [OF ok]])

lemma ipc_right_copyout_receive_typed [typed]:
  assumes ok: "types_ok (spaces s)" and Q: "\<And>s' r. types_ok (spaces s') \<Longrightarrow> Q (s', r)"
  shows "post (ipc_right_copyout_receive s a name i guard_flags p) Q"
  unfolding ipc_right_copyout_receive_def
  by (intro typed Q right_ok_gain_receive; (assumption | simp add: ok)?)

lemma ipc_right_copyout_typed [typed]:
  assumes ok: "types_ok (spaces s)" and Q: "\<And>s' r. types_ok (spaces s') \<Longrightarrow> Q (s', r)"
  shows "post (ipc_right_copyout s a name i ty flags guard_flags p) Q"
  unfolding ipc_right_copyout_def by (intro typed Q; (simp add: ok)?)

end
