(* ===== verification/Right_Steps.thy ===== *)
theory Right_Steps
imports Right_Types Right_Caps Demo_State
begin

text \<open>
  The right layer as a transition system: a step is a call of one of the operations of
  \<^verbatim>\<open>ipc_right.c\<close> on some name of some space, or the allocation of an entry in a well-formed space.  The
  type invariant of the capability tables holds along every sequence of steps.
\<close>

inductive right_step :: "ipc_state \<Rightarrow> ipc_state \<Rightarrow> bool" where
  step_check: "ipc_right_check s a p name i flags = Some (s', dead) \<Longrightarrow> right_step s s'"
| step_request_alloc:
    "ipc_right_request_alloc mem s a name immediate send_possible notify = Some (s', kr, previous) \<Longrightarrow> right_step s s'"
| step_request_cancel: "ipc_right_request_cancel s a p name i = Some (s', previous) \<Longrightarrow> right_step s s'"
| step_destroy: "ipc_right_destroy s a name i check_guard guard = Some (s', kr) \<Longrightarrow> right_step s s'"
| step_dealloc: "ipc_right_dealloc s a name i = Some (s', kr) \<Longrightarrow> right_step s s'"
| step_delta: "ipc_right_delta s a name i right delta = Some (s', kr) \<Longrightarrow> right_step s s'"
| step_destruct: "ipc_right_destruct s a name i srdelta guard = Some (s', kr) \<Longrightarrow> right_step s s'"
| step_info: "ipc_right_info s a name i = Some (s', type, urefs) \<Longrightarrow> right_step s s'"
| step_copyin: "ipc_right_copyin s a name i msgt flags ctx gflags = Some (s', kr, r) \<Longrightarrow> right_step s s'"
| step_copyin_two: "ipc_right_copyin_two s a name i msgt1 msgt2 = Some (s', kr, r) \<Longrightarrow> right_step s s'"
| step_copyout: "ipc_right_copyout s a name i msgt cflags gflags p = Some (s', out) \<Longrightarrow> right_step s s'"
| step_alloc:
    "spaces s a = Some sp \<Longrightarrow> wf_space sp t xs \<Longrightarrow> card (sends t) \<le> IPC_ENTRY_DIST_MAX + 1 \<Longrightarrow>
     ipc_entry_alloc mem sp object = Some (sp', kr, r) \<Longrightarrow> right_step s (s\<lparr>spaces := (spaces s)(a \<mapsto> sp')\<rparr>)"

lemma table_ok_kept:
  assumes "caps_kept t t'" "table_ok t"
  shows "table_ok t'"
  unfolding table_ok_def
proof (intro allI impI)
  fix i assume i: "0 < i" "i < length t'"
  show "right_ok (t' ! i)"
  proof (cases "IE_BITS_TYPE (ie_bits (t' ! i)) = 0")
    case True
    then show ?thesis by (simp add: right_ok_def bits_ok_none mach_consts)
  next
    case False
    then have "i < length t" "same_cap (t ! i) (t' ! i)" using assms(1) i by (auto simp: caps_kept_def)
    then show ?thesis using assms(2) i(1) by (simp add: table_ok_def same_cap_def right_ok_def)
  qed
qed

lemma entry_alloc_types:
  assumes "types_ok (spaces s)" "spaces s a = Some sp" "wf_space sp t xs" "card (sends t) \<le> IPC_ENTRY_DIST_MAX + 1"
    "ipc_entry_alloc mem sp object = Some (sp', kr, r)"
  shows "types_ok ((spaces s)(a \<mapsto> sp'))"
proof (rule types_ok_upd [OF assms(1)])
  have "is_active_table sp = Some t" using assms(3) space_invD(1) by (auto simp: wf_space_def is_active_table_def)
  then have ok: "table_ok t" using types_okD [OF assms(1,2)] by blast
  obtain t' xs' H where t': "space_inv sp' t' xs' H" "caps_kept t t'"
    using ipc_entry_alloc_outcome [OF assms(3,4), of object mem] assms(5) by (auto simp: alloc_outcome_def wf_space_def)
  fix u assume "is_table sp' = Some u"
  then have "u = t'" using space_invD(1) [OF t'(1)] by (simp add: is_active_table_def)
  then show "table_ok u" using table_ok_kept [OF t'(2) ok] by simp
qed

lemma typedD:
  assumes "\<And>Q. (\<And>s' r. types_ok (spaces s') \<Longrightarrow> Q (s', r)) \<Longrightarrow> post m Q" "m = Some (s', r)"
  shows "types_ok (spaces s')"
  using postD [OF assms(1) [of "\<lambda>(s', r). types_ok (spaces s')"] assms(2)] by simp

lemma right_step_types:
  assumes "right_step s s'" "types_ok (spaces s)"
  shows "types_ok (spaces s')"
  using assms(1)
proof (cases rule: right_step.cases)
  case step_check
  show ?thesis by (rule typedD [OF _ step_check]) (intro ipc_right_check_typed, simp_all add: assms(2))
next
  case step_alloc
  then show ?thesis using entry_alloc_types [OF assms(2)] by simp
qed (erule typedD [rotated], intro typed; simp add: assms(2))+

text \<open>
  C38 (type).  The type invariant of capability tables.  Whatever operations of the right layer run, in
  whatever order, in whatever spaces and with whatever arguments, and also when rights are being
  copied in and out, ports die and calls fail half-way: an entry that denotes something is a send
  right, a receive right, both, a send-once right, a port set or a dead name; it has at least one
  user reference if it is a send right or a dead name, none if it is a pure receive right or a port
  set, and exactly one if it is a send-once right; and a dead name has no object and no request.
\<close>

theorem rights_typed:
  assumes "right_step\<^sup>*\<^sup>* s s'" "types_ok (spaces s)"
  shows "types_ok (spaces s')"
  using assms by (induction rule: rtranclp_induct) (auto intro: right_step_types)

lemma demo_types: "types_ok (spaces demo_state)"
proof -
  have "right_ok (demo_table ! i)" if "i < 21" for i
    using that
    by (auto simp: demo_table_nth demo_base_nth ipc_entry_zero_def right_ok_def bits_ok_def Let_def
        IE_BITS_TYPE_def IE_BITS_UREFS_def mach_consts)
  then show ?thesis
    by (auto simp: types_ok_def table_ok_def demo_state_def demo_space_def split: if_splits)
qed

theorem rights_typed_witness:
  "\<exists>s' t xs. right_step\<^sup>*\<^sup>* demo_state s' \<and> wf_at s' demo_task t xs \<and>
     caps t 0x2ff = Some (demo_peer, MACH_PORT_TYPE_SEND, 2) \<and> types_ok (spaces s')"
proof -
  have wf: "wf_at demo_state demo_task demo_table [3..<21]"
    using demo_space_wf by (simp add: wf_at_def space_at_def wf_space_def del: upt_rec_numeral)
  have e: "entry_name demo_table 2 = 0x2ff" "ie_object (demo_table ! 2) = demo_peer"
    "IE_BITS_TYPE (ie_bits (demo_table ! 2)) = MACH_PORT_TYPE_SEND" "ie_bits (demo_table ! 2) = 0xff010001"
    by (simp_all add: entry_name_def demo_table_nth demo_base_nth IE_BITS_GEN_def MACH_PORT_MAKE_def IE_BITS_TYPE_def mach_consts)
  have entry: "get_entry demo_state demo_task 2 = Some (demo_table ! 2)"
    by (simp add: get_entry_def demo_space_def is_active_table_def nth_opt_in)
  have "(0xff010002 :: 32 word) AND 0xffff0000 = ie_bits (demo_table ! 2) AND 0xffff0000"
    by (simp add: demo_table_nth demo_base_nth)
  moreover have "0 < (2 :: nat)" "2 < length demo_table" "2 \<notin> set [3..<21]" by simp_all
  ultimately obtain s1 t where s1: "set_ie_bits demo_state demo_task 2 0xff010002 = Some s1" "wf_at s1 demo_task t [3..<21]"
    "length t = length demo_table"
    "caps t = (caps demo_table)(0x2ff \<mapsto> (demo_peer, MACH_PORT_TYPE_SEND, IE_BITS_UREFS 0xff010002))"
    using set_bits_at [OF wf, of 2 "0xff010002"] unfolding e(1-3) by blast
  have "2 < length t" "unat (MACH_PORT_INDEX 0x2ff) = 2" using s1(3) by (simp_all add: MACH_PORT_INDEX_def)
  then obtain s2 where s2: "sp_entry_modified s1 demo_task 0x2ff 2 = Some s2" "space_at s2 demo_task t [3..<21] (sends t)"
    using modified_at [OF wf_atD(1) [OF s1(2)]] by blast
  have "ipc_right_urefs_delta 1 1 = Some 1"
    by (simp add: ipc_right_urefs_delta_def MACH_PORT_UREFS_UNDERFLOW_def MACH_PORT_UREFS_OVERFLOW_def mach_consts
        word_le_nat_alt)
  moreover have "ip_active (demo_live\<lparr>ip_receiver_name := 0x103, ip_receiver := demo_other, ip_srights := 1,
      ip_nsrequest := demo_watcher\<rparr>)"
    by (simp add: io_active_def IO_BITS_ACTIVE_def)
  ultimately have "ipc_right_delta demo_state demo_task 0x2ff 2 MACH_PORT_RIGHT_SEND 1 = Some (s2, KERN_SUCCESS)"
    using s1(1) s2(1)
    by (simp add: ipc_right_delta_def ipc_right_delta_send_def ipc_right_check_def entry e kassert_def IE_BITS_UREFS_def mach_consts)
  then have "right_step\<^sup>*\<^sup>* demo_state s2" by (intro r_into_rtranclp step_delta)
  moreover have "wf_at s2 demo_task t [3..<21]" using s1(2) s2(2) by (simp add: wf_at_def)
  moreover have "caps t 0x2ff = Some (demo_peer, MACH_PORT_TYPE_SEND, 2)"
    using s1(4) by (simp add: IE_BITS_UREFS_def mach_consts)
  ultimately show ?thesis using rights_typed [OF _ demo_types] by blast
qed

end
