(* ===== verification/Ipc_Kmsg.thy ===== *)
theory Ipc_Kmsg
imports Ipc_State
begin

text \<open>
  The queue of messages of a port (\<^verbatim>\<open>ipc_kmsg.c\<close>): a ring of messages linked both ways through the
  messages themselves.  Messages live in a store by address; the queue is the address of its first
  message, \<open>IKM_NULL\<close> when it is empty.  The routines that move overrides towards the head of the queue
  follow the links until they meet an override that is high enough; they are recursive functions that
  yield \<open>None\<close> when they run into memory that is not a message or never end.

  The lemmas relate the ring to the list of its messages: adding is appending, removing is removing
  from the list, and raising the overrides is a maximum over the messages ahead.
\<close>

section \<open>Messages\<close>

type_synonym mach_msg_qos_t = "8 word"

record ipc_kmsg =
  ikm_next :: ipc_kmsg_t
  ikm_prev :: ipc_kmsg_t
  ikm_qos_override :: mach_msg_qos_t
  msgh_bits :: "32 word"

type_synonym kmsg_store = "ipc_kmsg_t \<rightharpoonup> ipc_kmsg"

definition IKM_NULL :: ipc_kmsg_t where
  "IKM_NULL = 0"

definition mod_kmsg :: "kmsg_store \<Rightarrow> ipc_kmsg_t \<Rightarrow> (ipc_kmsg \<Rightarrow> ipc_kmsg) \<Rightarrow> kmsg_store option" where
  "mod_kmsg h kmsg f = do { k \<leftarrow> h kmsg; Some (h(kmsg \<mapsto> f k)) }"


section \<open>The queue\<close>

definition ipc_kmsg_queue_empty :: "ipc_kmsg_t \<Rightarrow> bool" where
  "ipc_kmsg_queue_empty queue \<longleftrightarrow> queue = IKM_NULL"

definition ipc_kmsg_queue_first :: "ipc_kmsg_t \<Rightarrow> ipc_kmsg_t" where
  "ipc_kmsg_queue_first queue = queue"

definition ipc_kmsg_enqueue ::
    "kmsg_store \<Rightarrow> ipc_kmsg_t \<Rightarrow> ipc_kmsg_t \<Rightarrow> (kmsg_store \<times> ipc_kmsg_t) option" where
  "ipc_kmsg_enqueue h queue kmsg =
     (let first = queue in
      if first = IKM_NULL
      then do {
        h \<leftarrow> mod_kmsg h kmsg (\<lambda>k. k\<lparr>ikm_next := kmsg, ikm_prev := kmsg\<rparr>);
        Some (h, kmsg)
      }
      else do {
        k \<leftarrow> h first;
        let last = ikm_prev k;
        h \<leftarrow> mod_kmsg h kmsg (\<lambda>k. k\<lparr>ikm_next := first, ikm_prev := last\<rparr>);
        h \<leftarrow> mod_kmsg h first (\<lambda>k. k\<lparr>ikm_prev := kmsg\<rparr>);
        h \<leftarrow> mod_kmsg h last (\<lambda>k. k\<lparr>ikm_next := kmsg\<rparr>);
        Some (h, queue)
      })"

partial_function (option) ipc_kmsg_enqueue_qos_loop ::
    "kmsg_store \<Rightarrow> ipc_kmsg_t \<Rightarrow> ipc_kmsg_t \<Rightarrow> mach_msg_qos_t \<Rightarrow> (kmsg_store \<times> bool) option" where
  "ipc_kmsg_enqueue_qos_loop h prev kmsg qos_ovr =
     (if prev = kmsg then Some (h, True)
      else do {
        k \<leftarrow> h prev;
        if qos_ovr > ikm_qos_override k
        then do {
          h \<leftarrow> mod_kmsg h prev (\<lambda>k. k\<lparr>ikm_qos_override := qos_ovr\<rparr>);
          ipc_kmsg_enqueue_qos_loop h (ikm_prev k) kmsg qos_ovr
        }
        else Some (h, False)
      })"

definition ipc_kmsg_enqueue_qos ::
    "kmsg_store \<Rightarrow> ipc_kmsg_t \<Rightarrow> ipc_kmsg_t \<Rightarrow> (kmsg_store \<times> ipc_kmsg_t \<times> bool) option" where
  "ipc_kmsg_enqueue_qos h queue kmsg =
     (let first = queue in
      if first = IKM_NULL
      then do {
        h \<leftarrow> mod_kmsg h kmsg (\<lambda>k. k\<lparr>ikm_next := kmsg, ikm_prev := kmsg\<rparr>);
        Some (h, kmsg, True)
      }
      else do {
        k \<leftarrow> h first;
        let prev = ikm_prev k;
        h \<leftarrow> mod_kmsg h kmsg (\<lambda>k. k\<lparr>ikm_next := first, ikm_prev := prev\<rparr>);
        h \<leftarrow> mod_kmsg h first (\<lambda>k. k\<lparr>ikm_prev := kmsg\<rparr>);
        h \<leftarrow> mod_kmsg h prev (\<lambda>k. k\<lparr>ikm_next := kmsg\<rparr>);
        k \<leftarrow> h kmsg;
        (h, adjusted) \<leftarrow> ipc_kmsg_enqueue_qos_loop h prev kmsg (ikm_qos_override k);
        Some (h, queue, adjusted)
      })"

partial_function (option) ipc_kmsg_override_qos_loop ::
    "kmsg_store \<Rightarrow> ipc_kmsg_t \<Rightarrow> ipc_kmsg_t \<Rightarrow> mach_msg_qos_t \<Rightarrow> (kmsg_store \<times> bool) option" where
  "ipc_kmsg_override_qos_loop h first cur qos_ovr = do {
     k \<leftarrow> h cur;
     if qos_ovr > ikm_qos_override k
     then do {
       h \<leftarrow> mod_kmsg h cur (\<lambda>k. k\<lparr>ikm_qos_override := qos_ovr\<rparr>);
       if cur = first then Some (h, True)
       else ipc_kmsg_override_qos_loop h first (ikm_prev k) qos_ovr
     }
     else Some (h, False)
   }"

definition ipc_kmsg_override_qos ::
    "kmsg_store \<Rightarrow> ipc_kmsg_t \<Rightarrow> ipc_kmsg_t \<Rightarrow> mach_msg_qos_t \<Rightarrow> (kmsg_store \<times> bool) option" where
  "ipc_kmsg_override_qos h queue kmsg qos_ovr = ipc_kmsg_override_qos_loop h queue kmsg qos_ovr"

definition ipc_kmsg_rmqueue ::
    "kmsg_store \<Rightarrow> ipc_kmsg_t \<Rightarrow> ipc_kmsg_t \<Rightarrow> (kmsg_store \<times> ipc_kmsg_t) option" where
  "ipc_kmsg_rmqueue h queue kmsg = do {
     kassert (queue \<noteq> IKM_NULL);
     k \<leftarrow> h kmsg;
     let next = ikm_next k;
     let prev = ikm_prev k;
     if next = kmsg
     then do {
       kassert (prev = kmsg);
       kassert (queue = kmsg);
       Some (h, IKM_NULL)
     }
     else do {
       n \<leftarrow> h next;
       p \<leftarrow> h prev;
       kassert (\<not> (ikm_prev n \<noteq> kmsg \<or> ikm_next p \<noteq> kmsg));
       let queue = (if queue = kmsg then next else queue);
       h \<leftarrow> mod_kmsg h next (\<lambda>k. k\<lparr>ikm_prev := prev\<rparr>);
       h \<leftarrow> mod_kmsg h prev (\<lambda>k. k\<lparr>ikm_next := next\<rparr>);
       Some (h, queue)
     }
   }"

definition ipc_kmsg_dequeue ::
    "kmsg_store \<Rightarrow> ipc_kmsg_t \<Rightarrow> (kmsg_store \<times> ipc_kmsg_t \<times> ipc_kmsg_t) option" where
  "ipc_kmsg_dequeue h queue = do {
     let first = ipc_kmsg_queue_first queue;
     (h, queue) \<leftarrow> (if first \<noteq> IKM_NULL then ipc_kmsg_rmqueue h queue first else Some (h, queue));
     Some (h, queue, first)
   }"

definition ipc_kmsg_queue_next :: "kmsg_store \<Rightarrow> ipc_kmsg_t \<Rightarrow> ipc_kmsg_t \<Rightarrow> ipc_kmsg_t option" where
  "ipc_kmsg_queue_next h queue kmsg = do {
     kassert (queue \<noteq> IKM_NULL);
     k \<leftarrow> h kmsg;
     let next = ikm_next k;
     Some (if queue = next then IKM_NULL else next)
   }"


section \<open>Rings\<close>

fun seg :: "kmsg_store \<Rightarrow> ipc_kmsg_t \<Rightarrow> ipc_kmsg_t list \<Rightarrow> ipc_kmsg_t \<Rightarrow> bool" where
  "seg h p [] n \<longleftrightarrow> True"
| "seg h p (x # xs) n \<longleftrightarrow>
     (\<exists>k. h x = Some k \<and> ikm_prev k = p \<and> ikm_next k = hd (xs @ [n])) \<and> seg h x xs n"

definition ring :: "kmsg_store \<Rightarrow> ipc_kmsg_t list \<Rightarrow> bool" where
  "ring h ms \<longleftrightarrow> ms = [] \<or> seg h (last ms) ms (hd ms)"

definition kmsgq :: "kmsg_store \<Rightarrow> ipc_kmsg_t \<Rightarrow> ipc_kmsg_t list \<Rightarrow> bool" where
  "kmsgq h queue ms \<longleftrightarrow> distinct ms \<and> IKM_NULL \<notin> set ms \<and> queue = hd (ms @ [IKM_NULL]) \<and> ring h ms"

lemma seg_append: "seg h p (xs @ ys) n \<longleftrightarrow> seg h p xs (hd (ys @ [n])) \<and> seg h (last (p # xs)) ys n"
  by (induction xs arbitrary: p) (auto simp: hd_append)

lemma seg_cong:
  assumes "\<And>a. a \<in> set xs \<Longrightarrow> map_option (\<lambda>k. (ikm_prev k, ikm_next k)) (h' a) = map_option (\<lambda>k. (ikm_prev k, ikm_next k)) (h a)"
  shows "seg h' p xs n = seg h p xs n"
  using assms
proof (induction xs arbitrary: p)
  case (Cons x xs)
  then have "seg h' x xs n = seg h x xs n" by simp
  then show ?case using Cons.prems [of x] by (auto simp: map_option_case split: option.splits)
qed simp

lemma seg_upd [simp]: "w \<notin> set xs \<Longrightarrow> seg (h(w \<mapsto> m)) p xs n = seg h p xs n"
  by (rule seg_cong) auto

lemma ring_rotate: "ring h (xs @ ys) \<longleftrightarrow> ring h (ys @ xs)"
  by (cases xs rule: rev_cases; cases ys rule: rev_cases) (auto simp: ring_def seg_append hd_append)

lemma ring_in: "ring h ms \<Longrightarrow> a \<in> set ms \<Longrightarrow> \<exists>k. h a = Some k"
  by (auto simp: ring_def in_set_conv_decomp seg_append)

section \<open>Adding and removing\<close>

lemma mod_kmsg_Some: "h a = Some k \<Longrightarrow> mod_kmsg h a f = Some (h(a \<mapsto> f k))"
  by (simp add: mod_kmsg_def)

text \<open>What the links do not touch: the other fields of the messages.\<close>

definition same_msgs :: "kmsg_store \<Rightarrow> kmsg_store \<Rightarrow> bool" where
  "same_msgs h h' \<longleftrightarrow>
     (\<forall>a. map_option (\<lambda>k. (ikm_qos_override k, msgh_bits k)) (h' a) = map_option (\<lambda>k. (ikm_qos_override k, msgh_bits k)) (h a))"

lemma same_msgs_upd:
  assumes "h a = Some k" "ikm_qos_override k' = ikm_qos_override k" "msgh_bits k' = msgh_bits k"
  shows "same_msgs h (h(a \<mapsto> k'))"
  using assms by (simp add: same_msgs_def)

lemma same_msgs_trans: "same_msgs h h' \<Longrightarrow> same_msgs h' h'' \<Longrightarrow> same_msgs h h''"
  by (simp add: same_msgs_def)

lemma same_msgs_Some: "same_msgs h h' \<Longrightarrow> h a = Some k \<Longrightarrow> \<exists>k'. h' a = Some k' \<and> ikm_qos_override k' = ikm_qos_override k"
  by (auto simp: same_msgs_def dest!: spec [of _ a])

text \<open>The three updates that hang a message in front of the first one of a ring.\<close>

lemma hang_ring:
  assumes r: "ring h ms" "ms \<noteq> []" "distinct ms" and k: "h k = Some m" "k \<notin> set ms"
  obtains f h' where "h (hd ms) = Some f" "ikm_prev f = last ms"
    "do { h \<leftarrow> mod_kmsg h k (\<lambda>m. m\<lparr>ikm_next := hd ms, ikm_prev := last ms\<rparr>);
          h \<leftarrow> mod_kmsg h (hd ms) (\<lambda>m. m\<lparr>ikm_prev := k\<rparr>);
          mod_kmsg h (last ms) (\<lambda>m. m\<lparr>ikm_next := k\<rparr>) } = Some h'"
    "ring h' (ms @ [k])" "same_msgs h h'" "\<And>a. a \<notin> set ms \<Longrightarrow> a \<noteq> k \<Longrightarrow> h' a = h a"
proof (cases ms)
  case Nil
  then show ?thesis using r by simp
next
  case ms: (Cons x xs)
  show ?thesis
  proof (cases xs rule: rev_cases)
    case Nil
    obtain f where f: "h x = Some f" "ikm_prev f = x" using r ms Nil by (auto simp: ring_def)
    let ?h = "h(k \<mapsto> m\<lparr>ikm_next := x, ikm_prev := x\<rparr>, x \<mapsto> f\<lparr>ikm_prev := k, ikm_next := k\<rparr>)"
    show ?thesis
      by (rule that [of f ?h]) (use f k ms Nil in \<open>auto simp: mod_kmsg_def ring_def same_msgs_def\<close>)
  next
    case (snoc ys l)
    have seg: "seg h l (x # ys @ [l]) x" using r ms snoc by (simp add: ring_def)
    obtain f where f: "h x = Some f" "ikm_prev f = l" "ikm_next f = hd (ys @ [l])" using seg by (auto simp: hd_append)
    obtain g where g: "h l = Some g" "ikm_prev g = last (x # ys)" "ikm_next g = x"
      using seg seg_append [of h x ys "[l]" x] by auto
    have ys: "seg h x ys l" using seg seg_append [of h x ys "[l]" x] by auto
    have ne: "x \<noteq> l" "x \<noteq> k" "l \<noteq> k" "x \<notin> set ys" "l \<notin> set ys" "k \<notin> set ys" using r(3) k ms snoc by auto
    let ?h = "h(k \<mapsto> m\<lparr>ikm_next := x, ikm_prev := l\<rparr>, x \<mapsto> f\<lparr>ikm_prev := k\<rparr>, l \<mapsto> g\<lparr>ikm_next := k\<rparr>)"
    have "seg ?h x ys l" using ys ne by simp
    then have "ring ?h (ms @ [k])"
      using ne f g ms snoc by (auto simp: ring_def seg_append hd_append)
    then show ?thesis
      by (intro that [of f ?h]) (use f g k ne ms snoc in \<open>auto simp: mod_kmsg_def same_msgs_def\<close>)
  qed
qed

lemma ipc_kmsg_enqueue_spec:
  assumes q: "kmsgq h queue ms" and k: "h k = Some m" "k \<notin> set ms" "k \<noteq> IKM_NULL"
  obtains h' where "ipc_kmsg_enqueue h queue k = Some (h', hd (ms @ [k]))" "kmsgq h' (hd (ms @ [k])) (ms @ [k])"
    "same_msgs h h'" "\<And>a. a \<notin> set ms \<Longrightarrow> a \<noteq> k \<Longrightarrow> h' a = h a"
proof (cases "ms = []")
  case True
  then show ?thesis
    by (intro that [of "h(k \<mapsto> m\<lparr>ikm_next := k, ikm_prev := k\<rparr>)"])
      (use q k in \<open>auto simp: kmsgq_def ipc_kmsg_enqueue_def mod_kmsg_def ring_def intro!: same_msgs_upd\<close>)
next
  case False
  have r: "ring h ms" "distinct ms" using q by (simp_all add: kmsgq_def)
  obtain f h' where h': "h (hd ms) = Some f" "ikm_prev f = last ms"
    "do { h \<leftarrow> mod_kmsg h k (\<lambda>m. m\<lparr>ikm_next := hd ms, ikm_prev := last ms\<rparr>);
          h \<leftarrow> mod_kmsg h (hd ms) (\<lambda>m. m\<lparr>ikm_prev := k\<rparr>);
          mod_kmsg h (last ms) (\<lambda>m. m\<lparr>ikm_next := k\<rparr>) } = Some h'"
    "ring h' (ms @ [k])" "same_msgs h h'" "\<And>a. a \<notin> set ms \<Longrightarrow> a \<noteq> k \<Longrightarrow> h' a = h a"
    by (rule hang_ring [OF r(1) False r(2) k(1,2)]) (rule that)
  have "queue = hd ms" "queue \<noteq> IKM_NULL" using q False by (cases ms; auto simp: kmsgq_def)+
  then have "ipc_kmsg_enqueue h queue k = Some (h', hd (ms @ [k]))"
    using h'(1-3) False by (auto simp: ipc_kmsg_enqueue_def bind_Some_iff hd_append)
  moreover have "kmsgq h' (hd (ms @ [k])) (ms @ [k])"
    using q k h'(4) False by (auto simp: kmsgq_def hd_append)
  ultimately show ?thesis using that h'(5,6) by blast
qed

lemma unhang_ring:
  assumes r: "ring h (k # ms)" "ms \<noteq> []" "distinct (k # ms)"
  obtains m n p h' where "h k = Some m" "ikm_next m = hd ms" "ikm_prev m = last ms"
    "h (hd ms) = Some n" "ikm_prev n = k" "h (last ms) = Some p" "ikm_next p = k"
    "do { h \<leftarrow> mod_kmsg h (hd ms) (\<lambda>m. m\<lparr>ikm_prev := last ms\<rparr>);
          mod_kmsg h (last ms) (\<lambda>m. m\<lparr>ikm_next := hd ms\<rparr>) } = Some h'"
    "ring h' ms" "same_msgs h h'" "\<And>a. a \<notin> set ms \<Longrightarrow> h' a = h a"
proof (cases ms)
  case Nil
  then show ?thesis using r by simp
next
  case ms: (Cons x xs)
  show ?thesis
  proof (cases xs rule: rev_cases)
    case Nil
    obtain m f where f: "h k = Some m" "ikm_prev m = x" "ikm_next m = x" "h x = Some f" "ikm_prev f = k" "ikm_next f = k"
      using r ms Nil by (auto simp: ring_def)
    let ?h = "h(x \<mapsto> f\<lparr>ikm_prev := x, ikm_next := x\<rparr>)"
    show ?thesis
      by (rule that [of m f f ?h]) (use f ms Nil in \<open>auto simp: mod_kmsg_def ring_def intro!: same_msgs_upd\<close>)
  next
    case (snoc ys l)
    have seg: "seg h l (k # x # ys @ [l]) k" using r ms snoc by (simp add: ring_def)
    obtain m where m: "h k = Some m" "ikm_prev m = l" "ikm_next m = x" using seg by auto
    obtain f where f: "h x = Some f" "ikm_prev f = k" "ikm_next f = hd (ys @ [l])" using seg by (auto simp: hd_append)
    obtain g where g: "h l = Some g" "ikm_prev g = last (x # ys)" "ikm_next g = k"
      using seg seg_append [of h x ys "[l]" k] by auto
    have ys: "seg h x ys l" using seg seg_append [of h x ys "[l]" k] by auto
    have ne: "x \<noteq> l" "x \<noteq> k" "l \<noteq> k" "x \<notin> set ys" "l \<notin> set ys" "k \<notin> set ys" using r(3) ms snoc by auto
    let ?h = "h(x \<mapsto> f\<lparr>ikm_prev := l\<rparr>, l \<mapsto> g\<lparr>ikm_next := x\<rparr>)"
    have "seg ?h x ys l" using ys ne by simp
    then have "ring ?h ms" using ne f g ms snoc by (auto simp: ring_def seg_append hd_append)
    moreover have "same_msgs h ?h"
      using f(1) g(1) ne(1) by (auto simp: same_msgs_def)
    ultimately show ?thesis
      by (intro that [of m f g ?h]) (use m f g ne ms snoc in \<open>auto simp: mod_kmsg_def\<close>)
  qed
qed

lemma ipc_kmsg_rmqueue_spec:
  assumes q: "kmsgq h queue (us @ k # vs)"
  obtains h' where "ipc_kmsg_rmqueue h queue k = Some (h', hd (us @ vs @ [IKM_NULL]))"
    "kmsgq h' (hd (us @ vs @ [IKM_NULL])) (us @ vs)" "same_msgs h h'" "\<And>a. a \<notin> set (us @ vs) \<Longrightarrow> h' a = h a"
proof -
  have k: "k \<noteq> IKM_NULL" "queue \<noteq> IKM_NULL" using q by (cases us; auto simp: kmsgq_def)+
  have r: "ring h (k # vs @ us)" using q ring_rotate [of h us "k # vs"] by (simp add: kmsgq_def)
  show ?thesis
  proof (cases "us @ vs = []")
    case True
    then show ?thesis
      by (intro that [of h]) (use q r k in \<open>auto simp: kmsgq_def ipc_kmsg_rmqueue_def ring_def kassert_def same_msgs_def\<close>)
  next
    case False
    have d: "vs @ us \<noteq> []" "distinct (k # vs @ us)" using q False by (auto simp: kmsgq_def)
    obtain m n p h' where h': "h k = Some m" "ikm_next m = hd (vs @ us)" "ikm_prev m = last (vs @ us)"
      "h (hd (vs @ us)) = Some n" "ikm_prev n = k" "h (last (vs @ us)) = Some p" "ikm_next p = k"
      "do { h \<leftarrow> mod_kmsg h (hd (vs @ us)) (\<lambda>m. m\<lparr>ikm_prev := last (vs @ us)\<rparr>);
          mod_kmsg h (last (vs @ us)) (\<lambda>m. m\<lparr>ikm_next := hd (vs @ us)\<rparr>) } = Some h'"
      "ring h' (vs @ us)" "same_msgs h h'" "\<And>a. a \<notin> set (vs @ us) \<Longrightarrow> h' a = h a"
      by (rule unhang_ring [OF r d]) (rule that)
    have "hd (vs @ us) \<in> set (vs @ us)" using False by (intro hd_in_set) auto
    then have ne: "hd (vs @ us) \<noteq> k" using q by (auto simp: kmsgq_def)
    have base: "(if queue = k then hd (vs @ us) else queue) = hd (us @ vs @ [IKM_NULL])"
      using q False by (cases us; cases vs) (auto simp: kmsgq_def)
    have "ipc_kmsg_rmqueue h queue k = Some (h', hd (us @ vs @ [IKM_NULL]))"
      using h'(1-8) ne k(2) by (auto simp: ipc_kmsg_rmqueue_def kassert_def bind_Some_iff base simp flip: base)
    moreover have "kmsgq h' (hd (us @ vs @ [IKM_NULL])) (us @ vs)"
      using q h'(9) ring_rotate [of h' vs us] by (auto simp: kmsgq_def)
    ultimately show ?thesis using that h'(10,11) by (metis Un_iff set_append)
  qed
qed

lemma ipc_kmsg_dequeue_spec:
  assumes q: "kmsgq h queue ms"
  obtains h' where "ipc_kmsg_dequeue h queue = Some (h', hd (tl ms @ [IKM_NULL]), hd (ms @ [IKM_NULL]))"
    "kmsgq h' (hd (tl ms @ [IKM_NULL])) (tl ms)" "same_msgs h h'" "\<And>a. a \<notin> set (tl ms) \<Longrightarrow> h' a = h a"
proof (cases ms)
  case Nil
  then show ?thesis
    by (intro that [of h]) (use q in \<open>auto simp: kmsgq_def ipc_kmsg_dequeue_def ipc_kmsg_queue_first_def same_msgs_def\<close>)
next
  case (Cons k vs)
  then have first: "queue = k" "k \<noteq> IKM_NULL" using q by (auto simp: kmsgq_def)
  have q': "kmsgq h queue ([] @ k # vs)" using q Cons by simp
  obtain h' where "ipc_kmsg_rmqueue h queue k = Some (h', hd ([] @ vs @ [IKM_NULL]))"
    "kmsgq h' (hd ([] @ vs @ [IKM_NULL])) ([] @ vs)" "same_msgs h h'" "\<And>a. a \<notin> set ([] @ vs) \<Longrightarrow> h' a = h a"
    by (rule ipc_kmsg_rmqueue_spec [OF q']) (rule that)
  then show ?thesis
    by (intro that [of h']) (use Cons first in \<open>auto simp: ipc_kmsg_dequeue_def ipc_kmsg_queue_first_def\<close>)
qed

lemma ipc_kmsg_queue_next_spec:
  assumes q: "kmsgq h queue (us @ k # vs)"
  shows "ipc_kmsg_queue_next h queue k = Some (hd (vs @ [IKM_NULL]))"
proof -
  have k: "queue \<noteq> IKM_NULL" using q by (cases us; auto simp: kmsgq_def)
  have "seg h (last (us @ k # vs)) (us @ k # vs) queue" using q by (cases us) (auto simp: kmsgq_def ring_def)
  then obtain m where m: "h k = Some m" "ikm_next m = hd (vs @ [queue])" by (auto simp: seg_append)
  have "hd vs \<noteq> queue" if "vs \<noteq> []"
    using q that hd_in_set [OF that] by (cases us) (auto simp: kmsgq_def)
  then show ?thesis using k m by (cases vs) (auto simp: ipc_kmsg_queue_next_def kassert_def)
qed


section \<open>Overrides\<close>

definition qos_of :: "kmsg_store \<Rightarrow> ipc_kmsg_t \<Rightarrow> mach_msg_qos_t" where
  "qos_of h a = (case h a of None \<Rightarrow> 0 | Some k \<Rightarrow> ikm_qos_override k)"

definition raise_qos :: "kmsg_store \<Rightarrow> ipc_kmsg_t set \<Rightarrow> mach_msg_qos_t \<Rightarrow> kmsg_store" where
  "raise_qos h A q =
     (\<lambda>a. if a \<in> A then map_option (\<lambda>k. k\<lparr>ikm_qos_override := max (ikm_qos_override k) q\<rparr>) (h a) else h a)"

text \<open>Overrides never increase from the head of the queue to its tail.\<close>

definition qos_sorted :: "kmsg_store \<Rightarrow> ipc_kmsg_t list \<Rightarrow> bool" where
  "qos_sorted h ms \<longleftrightarrow> sorted_wrt (\<lambda>a b. qos_of h b \<le> qos_of h a) ms"

lemma raise_qos_empty [simp]: "raise_qos h {} q = h"
  by (simp add: raise_qos_def)

lemma raise_qos_id:
  assumes "\<And>a. a \<in> A \<Longrightarrow> q \<le> qos_of h a"
  shows "raise_qos h A q = h"
proof
  fix a
  show "raise_qos h A q a = h a"
    using assms [of a] by (auto simp: raise_qos_def qos_of_def max_def split: option.splits)
qed

lemma raise_qos_insert:
  assumes "h a = Some k" "ikm_qos_override k < q" "a \<notin> A"
  shows "raise_qos (h(a \<mapsto> k\<lparr>ikm_qos_override := q\<rparr>)) A q = raise_qos h (insert a A) q"
  using assms by (auto simp: raise_qos_def fun_eq_iff max_def)

lemma enqueue_qos_loop_spec:
  assumes "seg h k us n" "distinct us" "k \<notin> set us" "qos_sorted h us"
  shows "ipc_kmsg_enqueue_qos_loop h (last (k # us)) k q = Some (raise_qos h (set us) q, \<forall>a\<in>set us. qos_of h a < q)"
  using assms
proof (induction us arbitrary: h n rule: rev_induct)
  case Nil
  then show ?case by (simp add: ipc_kmsg_enqueue_qos_loop.simps)
next
  case (snoc w us)
  obtain m where m: "h w = Some m" "ikm_prev m = last (k # us)" using snoc.prems(1) by (auto simp: seg_append)
  have ne: "w \<noteq> k" "w \<notin> set us" using snoc.prems(2,3) by auto
  have step: "ipc_kmsg_enqueue_qos_loop h w k q =
      (if q > ikm_qos_override m
       then ipc_kmsg_enqueue_qos_loop (h(w \<mapsto> m\<lparr>ikm_qos_override := q\<rparr>)) (last (k # us)) k q else Some (h, False))"
    using ipc_kmsg_enqueue_qos_loop.simps [of h w k q] m ne(1) by (simp add: mod_kmsg_def)
  have above: "qos_of h w \<le> qos_of h a" if "a \<in> set us" for a
    using snoc.prems(4) that by (auto simp: qos_sorted_def sorted_wrt_append)
  show ?case
  proof (cases "q > ikm_qos_override m")
    case True
    define h1 where "h1 = h(w \<mapsto> m\<lparr>ikm_qos_override := q\<rparr>)"
    have seg: "seg h1 k us w" using snoc.prems(1) ne by (simp add: h1_def seg_append)
    have q: "qos_of h1 a = qos_of h a" if "a \<in> set us" for a using that ne by (auto simp: h1_def qos_of_def)
    have "qos_sorted h us" using snoc.prems(4) by (simp add: qos_sorted_def sorted_wrt_append)
    then have "qos_sorted h1 us" unfolding qos_sorted_def by (rule sorted_wrt_mono_rel [rotated]) (simp add: q)
    with seg have "ipc_kmsg_enqueue_qos_loop h1 (last (k # us)) k q = Some (raise_qos h1 (set us) q, \<forall>a\<in>set us. qos_of h1 a < q)"
      using snoc.prems(2,3) by (intro snoc.IH) auto
    moreover have "raise_qos h1 (set us) q = raise_qos h (set (us @ [w])) q"
      using raise_qos_insert [of h w m q "set us"] m(1) True ne(2) by (simp add: h1_def)
    moreover have "(\<forall>a\<in>set us. qos_of h1 a < q) \<longleftrightarrow> (\<forall>a\<in>set (us @ [w]). qos_of h a < q)"
      using q True m(1) by (auto simp: qos_of_def)
    ultimately show ?thesis using step True by (simp add: h1_def)
  next
    case False
    then have "q \<le> qos_of h a" if "a \<in> set (us @ [w])" for a
      using that above [of a] m(1) by (auto simp: qos_of_def)
    then show ?thesis using step False m(1) raise_qos_id [of "set (us @ [w])" q h] by (auto simp: qos_of_def)
  qed
qed

lemma qos_sorted_cong: "qos_sorted h ms \<Longrightarrow> (\<And>a. a \<in> set ms \<Longrightarrow> qos_of h' a = qos_of h a) \<Longrightarrow> qos_sorted h' ms"
  unfolding qos_sorted_def by (erule sorted_wrt_mono_rel [rotated]) simp

lemma override_qos_loop_spec:
  assumes "seg h p us n" "us \<noteq> []" "distinct us" "qos_sorted h us"
  shows "ipc_kmsg_override_qos_loop h (hd us) (last us) q = Some (raise_qos h (set us) q, \<forall>a\<in>set us. qos_of h a < q)"
  using assms
proof (induction us arbitrary: h n rule: rev_induct)
  case (snoc w us)
  obtain m where m: "h w = Some m" "ikm_prev m = last (p # us)" using snoc.prems(1) by (auto simp: seg_append)
  have ne: "w \<notin> set us" using snoc.prems(3) by auto
  define h1 where "h1 = h(w \<mapsto> m\<lparr>ikm_qos_override := q\<rparr>)"
  have step: "ipc_kmsg_override_qos_loop h f w q =
      (if q > ikm_qos_override m
       then if w = f then Some (h1, True) else ipc_kmsg_override_qos_loop h1 f (last (p # us)) q
       else Some (h, False))" for f
    using ipc_kmsg_override_qos_loop.simps [of h f w q] m by (simp add: mod_kmsg_def h1_def)
  have above: "qos_of h w \<le> qos_of h a" if "a \<in> set us" for a
    using snoc.prems(4) that by (auto simp: qos_sorted_def sorted_wrt_append)
  show ?case
  proof (cases "q > ikm_qos_override m")
    case True
    have raise: "raise_qos h1 (set us) q = raise_qos h (set (us @ [w])) q"
      using raise_qos_insert [of h w m q "set us"] m(1) True ne by (simp add: h1_def)
    show ?thesis
    proof (cases "us = []")
      case True
      then show ?thesis using step [of w] raise \<open>q > ikm_qos_override m\<close> m(1) by (simp add: qos_of_def)
    next
      case False
      then have "hd us \<noteq> w" using ne by (metis hd_in_set)
      have q: "qos_of h1 a = qos_of h a" if "a \<in> set us" for a using that ne by (auto simp: h1_def qos_of_def)
      have "qos_sorted h us" using snoc.prems(4) by (simp add: qos_sorted_def sorted_wrt_append)
      then have "qos_sorted h1 us" using q by (rule qos_sorted_cong)
      moreover have "seg h1 p us w" using snoc.prems(1) ne by (simp add: h1_def seg_append)
      ultimately have "ipc_kmsg_override_qos_loop h1 (hd us) (last us) q =
          Some (raise_qos h1 (set us) q, \<forall>a\<in>set us. qos_of h1 a < q)"
        using snoc.prems(3) False by (intro snoc.IH) auto
      moreover have "(\<forall>a\<in>set us. qos_of h1 a < q) \<longleftrightarrow> (\<forall>a\<in>set (us @ [w]). qos_of h a < q)"
        using q True m(1) by (auto simp: qos_of_def)
      ultimately show ?thesis using step [of "hd us"] True False raise \<open>hd us \<noteq> w\<close> by simp
    qed
  next
    case False
    then have "q \<le> qos_of h a" if "a \<in> set (us @ [w])" for a
      using that above [of a] m(1) by (auto simp: qos_of_def)
    then show ?thesis
      using step [of "hd (us @ [w])"] False m(1) raise_qos_id [of "set (us @ [w])" q h] by (auto simp: qos_of_def)
  qed
qed simp

lemma raise_qos_links: "map_option (\<lambda>k. (ikm_prev k, ikm_next k)) (raise_qos h A q a) = map_option (\<lambda>k. (ikm_prev k, ikm_next k)) (h a)"
  by (simp add: raise_qos_def option.map_comp comp_def)

lemma ring_raise_qos [simp]: "ring (raise_qos h A q) ms = ring h ms"
  using seg_cong [of ms "raise_qos h A q" h, OF raise_qos_links] by (simp add: ring_def)

lemma kmsgq_raise_qos [simp]: "kmsgq (raise_qos h A q) queue ms = kmsgq h queue ms"
  by (simp add: kmsgq_def)

lemma qos_of_raise: "h a \<noteq> None \<Longrightarrow> qos_of (raise_qos h A q) a = (if a \<in> A then max (qos_of h a) q else qos_of h a)"
  by (auto simp: qos_of_def raise_qos_def)

lemma qos_sorted_raise:
  assumes "qos_sorted h (us @ vs)" "\<And>a. a \<in> set (us @ vs) \<Longrightarrow> h a \<noteq> None" "set us \<inter> set vs = {}" "\<And>v. v \<in> set vs \<Longrightarrow> qos_of h v \<le> q"
  shows "qos_sorted (raise_qos h (set us) q) (us @ vs)"
proof -
  have "sorted_wrt (\<lambda>a b. qos_of (raise_qos h (set us) q) b \<le> qos_of (raise_qos h (set us) q) a) us"
    using assms(1,2) by (auto simp: qos_sorted_def sorted_wrt_append qos_of_raise le_max_iff_disj intro!: sorted_wrt_mono_rel
        [of us "\<lambda>a b. qos_of h b \<le> qos_of h a"])
  moreover have "sorted_wrt (\<lambda>a b. qos_of (raise_qos h (set us) q) b \<le> qos_of (raise_qos h (set us) q) a) vs"
    using assms(1-3) by (auto simp: qos_sorted_def sorted_wrt_append qos_of_raise disjoint_iff intro!: sorted_wrt_mono_rel
        [of vs "\<lambda>a b. qos_of h b \<le> qos_of h a"])
  ultimately show ?thesis
    using assms by (auto simp: qos_sorted_def sorted_wrt_append qos_of_raise disjoint_iff intro: max.coboundedI2)
qed

text \<open>
  Adding a message with overrides: it goes to the end of the queue, and the overrides of the messages
  ahead become the maximum with its own.  The flag says whether the override of the first message changed.
\<close>

lemma same_msgs_qos: "same_msgs h h' \<Longrightarrow> qos_of h' a = qos_of h a"
  by (cases "h a"; cases "h' a") (auto simp: same_msgs_def qos_of_def dest!: spec [of _ a])

lemma same_msgs_None: "same_msgs h h' \<Longrightarrow> h' a = None \<longleftrightarrow> h a = None"
  by (auto simp: same_msgs_def dest!: spec [of _ a])

lemma ipc_kmsg_enqueue_qos_spec:
  assumes q: "kmsgq h queue ms" "qos_sorted h ms" and k: "h k = Some m" "k \<notin> set ms" "k \<noteq> IKM_NULL"
  obtains h' where
    "ipc_kmsg_enqueue_qos h queue k = Some (h', hd (ms @ [k]), \<forall>a\<in>set ms. qos_of h a < qos_of h k)"
    "kmsgq h' (hd (ms @ [k])) (ms @ [k])" "qos_sorted h' (ms @ [k])"
    "\<And>a. qos_of h' a = (if a \<in> set ms then max (qos_of h a) (qos_of h k) else qos_of h a)"
    "\<And>a. map_option msgh_bits (h' a) = map_option msgh_bits (h a)" "\<And>a. a \<notin> set ms \<Longrightarrow> a \<noteq> k \<Longrightarrow> h' a = h a"
proof (cases "ms = []")
  case True
  then show ?thesis
    by (intro that [of "h(k \<mapsto> m\<lparr>ikm_next := k, ikm_prev := k\<rparr>)"])
      (use q k in \<open>auto simp: kmsgq_def ipc_kmsg_enqueue_qos_def mod_kmsg_def ring_def qos_sorted_def qos_of_def\<close>)
next
  case False
  have r: "ring h ms" "distinct ms" using q by (simp_all add: kmsgq_def)
  obtain f h1 where h1: "h (hd ms) = Some f" "ikm_prev f = last ms"
    "do { h \<leftarrow> mod_kmsg h k (\<lambda>m. m\<lparr>ikm_next := hd ms, ikm_prev := last ms\<rparr>);
          h \<leftarrow> mod_kmsg h (hd ms) (\<lambda>m. m\<lparr>ikm_prev := k\<rparr>);
          mod_kmsg h (last ms) (\<lambda>m. m\<lparr>ikm_next := k\<rparr>) } = Some h1"
    "ring h1 (ms @ [k])" "same_msgs h h1" "\<And>a. a \<notin> set ms \<Longrightarrow> a \<noteq> k \<Longrightarrow> h1 a = h a"
    by (rule hang_ring [OF r(1) False r(2) k(1,2)]) (rule that)
  note qos = same_msgs_qos [OF h1(5)] and none = same_msgs_None [OF h1(5)]
  obtain m' where m': "h1 k = Some m'" "ikm_qos_override m' = qos_of h k"
    using same_msgs_Some [OF h1(5) k(1)] k(1) by (auto simp: qos_of_def)
  have seg: "seg h1 k ms k" using h1(4) by (simp add: ring_def seg_append)
  have sorted: "qos_sorted h1 ms" by (rule qos_sorted_cong [OF q(2) qos])
  define h2 where "h2 = raise_qos h1 (set ms) (qos_of h k)"
  have loop: "ipc_kmsg_enqueue_qos_loop h1 (last ms) k (qos_of h k) = Some (h2, \<forall>a\<in>set ms. qos_of h a < qos_of h k)"
    using enqueue_qos_loop_spec [OF seg r(2) k(2) sorted, of "qos_of h k"] False by (simp add: h2_def qos)
  have "queue = hd ms" "queue \<noteq> IKM_NULL" using q False by (cases ms; auto simp: kmsgq_def)+
  then have "ipc_kmsg_enqueue_qos h queue k = Some (h2, hd (ms @ [k]), \<forall>a\<in>set ms. qos_of h a < qos_of h k)"
    using h1(1-3) False m' loop by (auto simp: ipc_kmsg_enqueue_qos_def bind_Some_iff hd_append)
  moreover have "kmsgq h2 (hd (ms @ [k])) (ms @ [k])"
    using q k h1(4) False by (auto simp: kmsgq_def hd_append h2_def)
  moreover have h2: "qos_of h2 a = (if a \<in> set ms then max (qos_of h a) (qos_of h k) else qos_of h a)" for a
  proof (cases "h a")
    case None
    then show ?thesis using ring_in [OF r(1), of a] none [of a] by (auto simp: h2_def qos_of_def raise_qos_def)
  next
    case (Some x)
    then show ?thesis using qos_of_raise [of h1 a] none [of a] by (simp add: h2_def qos)
  qed
  moreover have "qos_sorted h2 (ms @ [k])"
  proof -
    have "sorted_wrt (\<lambda>a b. qos_of h2 b \<le> qos_of h2 a) ms"
      using q(2) by (auto simp: qos_sorted_def h2 le_max_iff_disj intro!: sorted_wrt_mono_rel [of ms "\<lambda>a b. qos_of h b \<le> qos_of h a"])
    then show ?thesis using k(2) by (auto simp: qos_sorted_def sorted_wrt_append h2)
  qed
  moreover have "map_option msgh_bits (h2 a) = map_option msgh_bits (h a)" for a
    using h1(5) by (cases "h a"; cases "h1 a")
      (auto simp: h2_def raise_qos_def same_msgs_def dest!: spec [of _ a])
  moreover have "h2 a = h a" if "a \<notin> set ms" "a \<noteq> k" for a
    using h1(6) that by (simp add: h2_def raise_qos_def)
  ultimately show ?thesis using that by blast
qed

lemma ipc_kmsg_override_qos_spec:
  assumes q: "kmsgq h queue (us @ k # vs)" "qos_sorted h (us @ k # vs)"
  shows "ipc_kmsg_override_qos h queue k q = Some (raise_qos h (set (us @ [k])) q, \<forall>a\<in>set (us @ [k]). qos_of h a < q)"
proof -
  have "seg h (last (us @ k # vs)) ((us @ [k]) @ vs) (hd (us @ k # vs))" and queue: "queue = hd (us @ [k])"
    using q(1) by (cases us; auto simp: kmsgq_def ring_def)+
  then have "seg h (last (us @ k # vs)) (us @ [k]) (hd (vs @ [hd (us @ k # vs)]))" unfolding seg_append [of h _ "us @ [k]"] by blast
  moreover have "qos_sorted h (us @ [k])" "distinct (us @ [k])"
    using q by (auto simp: qos_sorted_def sorted_wrt_append kmsgq_def)
  ultimately show ?thesis
    using override_qos_loop_spec [of h "last (us @ k # vs)" "us @ [k]"] by (simp add: ipc_kmsg_override_qos_def queue)
qed

end
