(* ===== verification/Kmsg_Queue.thy ===== *)
theory Kmsg_Queue
imports Ipc_Kmsg
begin

text \<open>
  The interface of a message queue and what its clients get from it: a run of calls on the linked
  messages is a run of calls on a list.  The interface is interpreted on the two ways of adding a message,
  with and without overrides.
\<close>

section \<open>Runs of calls\<close>

datatype 'a queue_call = Enqueue 'a | Dequeue | Remove 'a

fun queue_run ::
    "('s \<Rightarrow> 'a \<Rightarrow> 's option) \<Rightarrow> ('s \<Rightarrow> ('s \<times> 'a option) option) \<Rightarrow> ('s \<Rightarrow> 'a \<Rightarrow> 's option) \<Rightarrow>
     'a queue_call list \<Rightarrow> 's \<Rightarrow> ('s \<times> 'a option list) option" where
  "queue_run enq deq rm [] s = Some (s, [])"
| "queue_run enq deq rm (Enqueue x # cs) s = do { s \<leftarrow> enq s x; queue_run enq deq rm cs s }"
| "queue_run enq deq rm (Dequeue # cs) s =
     do { (s, x) \<leftarrow> deq s; (s, xs) \<leftarrow> queue_run enq deq rm cs s; Some (s, x # xs) }"
| "queue_run enq deq rm (Remove x # cs) s = do { s \<leftarrow> rm s x; queue_run enq deq rm cs s }"

fun list_run :: "'a queue_call list \<Rightarrow> 'a list \<Rightarrow> 'a list \<times> 'a option list" where
  "list_run [] ms = (ms, [])"
| "list_run (Enqueue x # cs) ms = list_run cs (ms @ [x])"
| "list_run (Dequeue # cs) ms =
     (let (ms', xs) = list_run cs (tl ms) in (ms', (case ms of [] \<Rightarrow> None | m # _ \<Rightarrow> Some m) # xs))"
| "list_run (Remove x # cs) ms = list_run cs (remove1 x ms)"

text \<open>What a client owes: it adds only messages that are not queued and removes only messages that are.\<close>

fun calls_ok :: "'a queue_call list \<Rightarrow> 'a list \<Rightarrow> bool" where
  "calls_ok [] ms \<longleftrightarrow> True"
| "calls_ok (Enqueue x # cs) ms \<longleftrightarrow> x \<notin> set ms \<and> calls_ok cs (ms @ [x])"
| "calls_ok (Dequeue # cs) ms \<longleftrightarrow> calls_ok cs (tl ms)"
| "calls_ok (Remove x # cs) ms \<longleftrightarrow> x \<in> set ms \<and> calls_ok cs (remove1 x ms)"

locale message_queue =
  fixes rep :: "'s \<Rightarrow> 'a list \<Rightarrow> bool" and usable :: "'s \<Rightarrow> 'a \<Rightarrow> bool"
    and enq :: "'s \<Rightarrow> 'a \<Rightarrow> 's option" and deq :: "'s \<Rightarrow> ('s \<times> 'a option) option" and rm :: "'s \<Rightarrow> 'a \<Rightarrow> 's option"
  assumes enq_law: "rep s ms \<Longrightarrow> usable s x \<Longrightarrow> x \<notin> set ms \<Longrightarrow>
      \<exists>s'. enq s x = Some s' \<and> rep s' (ms @ [x]) \<and> usable s' = usable s"
    and deq_law: "rep s ms \<Longrightarrow>
      \<exists>s'. deq s = Some (s', case ms of [] \<Rightarrow> None | m # _ \<Rightarrow> Some m) \<and> rep s' (tl ms) \<and> usable s' = usable s"
    and rm_law: "rep s ms \<Longrightarrow> x \<in> set ms \<Longrightarrow> \<exists>s'. rm s x = Some s' \<and> rep s' (remove1 x ms) \<and> usable s' = usable s"
begin

lemma run_refines:
  assumes "rep s ms" "calls_ok cs ms" "\<And>x. Enqueue x \<in> set cs \<Longrightarrow> usable s x"
  shows "\<exists>s'. queue_run enq deq rm cs s = Some (s', snd (list_run cs ms)) \<and> rep s' (fst (list_run cs ms))"
  using assms
proof (induction cs ms arbitrary: s rule: list_run.induct)
  case (2 x cs ms)
  then obtain s' where "enq s x = Some s'" "rep s' (ms @ [x])" "usable s' = usable s"
    using enq_law [of s ms x] by auto
  then show ?case using 2 by auto
next
  case (3 cs ms)
  then obtain s' where "deq s = Some (s', case ms of [] \<Rightarrow> None | m # _ \<Rightarrow> Some m)" "rep s' (tl ms)" "usable s' = usable s"
    using deq_law [of s ms] by blast
  then show ?case using 3 by (fastforce simp: case_prod_beta)
next
  case (4 x cs ms)
  then obtain s' where "rm s x = Some s'" "rep s' (remove1 x ms)" "usable s' = usable s"
    using rm_law [of s ms x] by auto
  then show ?case using 4 by auto
qed simp

end


section \<open>The queue of a port\<close>

definition kmsg_enq :: "kmsg_store \<times> ipc_kmsg_t \<Rightarrow> ipc_kmsg_t \<Rightarrow> (kmsg_store \<times> ipc_kmsg_t) option" where
  "kmsg_enq s kmsg = ipc_kmsg_enqueue (fst s) (snd s) kmsg"

definition kmsg_enq_qos :: "kmsg_store \<times> ipc_kmsg_t \<Rightarrow> ipc_kmsg_t \<Rightarrow> (kmsg_store \<times> ipc_kmsg_t) option" where
  "kmsg_enq_qos s kmsg = do { (h, queue, _) \<leftarrow> ipc_kmsg_enqueue_qos (fst s) (snd s) kmsg; Some (h, queue) }"

definition kmsg_deq :: "kmsg_store \<times> ipc_kmsg_t \<Rightarrow> ((kmsg_store \<times> ipc_kmsg_t) \<times> ipc_kmsg_t option) option" where
  "kmsg_deq s = do {
     (h, queue, kmsg) \<leftarrow> ipc_kmsg_dequeue (fst s) (snd s);
     Some ((h, queue), if kmsg = IKM_NULL then None else Some kmsg)
   }"

definition kmsg_rm :: "kmsg_store \<times> ipc_kmsg_t \<Rightarrow> ipc_kmsg_t \<Rightarrow> (kmsg_store \<times> ipc_kmsg_t) option" where
  "kmsg_rm s kmsg = ipc_kmsg_rmqueue (fst s) (snd s) kmsg"

definition kmsg_usable :: "kmsg_store \<times> ipc_kmsg_t \<Rightarrow> ipc_kmsg_t \<Rightarrow> bool" where
  "kmsg_usable s kmsg \<longleftrightarrow> fst s kmsg \<noteq> None \<and> kmsg \<noteq> IKM_NULL"

definition qos_kmsgq :: "kmsg_store \<times> ipc_kmsg_t \<Rightarrow> ipc_kmsg_t list \<Rightarrow> bool" where
  "qos_kmsgq s ms \<longleftrightarrow> kmsgq (fst s) (snd s) ms \<and> qos_sorted (fst s) ms"

lemma usable_same_msgs: "same_msgs h h' \<Longrightarrow> kmsg_usable (h', q') = kmsg_usable (h, q)"
  by (auto simp: kmsg_usable_def fun_eq_iff same_msgs_None)

lemma deq_kmsgq:
  assumes "kmsgq h q ms"
  shows "\<exists>h' q'. kmsg_deq (h, q) = Some ((h', q'), case ms of [] \<Rightarrow> None | m # _ \<Rightarrow> Some m) \<and> kmsgq h' q' (tl ms) \<and> same_msgs h h'"
proof (rule ipc_kmsg_dequeue_spec [OF assms])
  fix h' assume "ipc_kmsg_dequeue h q = Some (h', hd (tl ms @ [IKM_NULL]), hd (ms @ [IKM_NULL]))"
    "kmsgq h' (hd (tl ms @ [IKM_NULL])) (tl ms)" "same_msgs h h'"
  then show ?thesis using assms by (cases ms) (auto simp: kmsg_deq_def kmsgq_def)
qed

lemma rm_kmsgq:
  assumes "kmsgq h q ms" "x \<in> set ms"
  shows "\<exists>h' q'. kmsg_rm (h, q) x = Some (h', q') \<and> kmsgq h' q' (remove1 x ms) \<and> same_msgs h h'"
proof -
  obtain us vs where ms: "ms = us @ x # vs" "x \<notin> set us" using split_list_first [OF assms(2)] by blast
  show ?thesis by (rule ipc_kmsg_rmqueue_spec [of h q us x vs]) (use assms ms in \<open>auto simp: kmsg_rm_def remove1_append\<close>)
qed

lemma qos_sorted_sub: "qos_sorted h ms \<Longrightarrow> qos_sorted h (tl ms)" "qos_sorted h ms \<Longrightarrow> qos_sorted h (remove1 x ms)"
  unfolding qos_sorted_def by (cases ms; simp) (induction ms; auto dest: in_set_remove1 [THEN iffD1, rotated] notin_set_remove1)

interpretation kmsgs: message_queue "\<lambda>s. kmsgq (fst s) (snd s)" kmsg_usable kmsg_enq kmsg_deq kmsg_rm
proof
  fix s :: "kmsg_store \<times> ipc_kmsg_t" and ms x
  assume q: "kmsgq (fst s) (snd s) ms"
  show "\<exists>s'. kmsg_deq s = Some (s', case ms of [] \<Rightarrow> None | m # _ \<Rightarrow> Some m) \<and> kmsgq (fst s') (snd s') (tl ms) \<and>
      kmsg_usable s' = kmsg_usable s"
    using deq_kmsgq [OF q] usable_same_msgs [of "fst s" _ _ "snd s"] by fastforce
  show "\<exists>s'. kmsg_rm s x = Some s' \<and> kmsgq (fst s') (snd s') (remove1 x ms) \<and> kmsg_usable s' = kmsg_usable s" if "x \<in> set ms"
    using rm_kmsgq [OF q that] usable_same_msgs [of "fst s" _ _ "snd s"] by fastforce
  show "\<exists>s'. kmsg_enq s x = Some s' \<and> kmsgq (fst s') (snd s') (ms @ [x]) \<and> kmsg_usable s' = kmsg_usable s"
    if new: "kmsg_usable s x" "x \<notin> set ms"
  proof -
    obtain m where m: "fst s x = Some m" "x \<noteq> IKM_NULL" using new by (auto simp: kmsg_usable_def)
    show ?thesis
      by (rule ipc_kmsg_enqueue_spec [OF q m(1) new(2) m(2)])
        (use usable_same_msgs [of "fst s" _ _ "snd s"] in \<open>fastforce simp: kmsg_enq_def\<close>)
  qed
qed

interpretation qos_kmsgs: message_queue qos_kmsgq kmsg_usable kmsg_enq_qos kmsg_deq kmsg_rm
proof
  fix s :: "kmsg_store \<times> ipc_kmsg_t" and ms x
  assume "qos_kmsgq s ms"
  then have q: "kmsgq (fst s) (snd s) ms" and sorted: "qos_sorted (fst s) ms" by (simp_all add: qos_kmsgq_def)
  have keep: "qos_sorted h' xs" if "same_msgs (fst s) h'" "qos_sorted (fst s) xs" for h' xs
    using qos_sorted_cong [OF that(2)] same_msgs_qos [OF that(1)] by blast
  show "\<exists>s'. kmsg_deq s = Some (s', case ms of [] \<Rightarrow> None | m # _ \<Rightarrow> Some m) \<and> qos_kmsgq s' (tl ms) \<and>
      kmsg_usable s' = kmsg_usable s"
    using deq_kmsgq [OF q] usable_same_msgs [of "fst s" _ _ "snd s"] keep [OF _ qos_sorted_sub(1) [OF sorted]]
    by (fastforce simp: qos_kmsgq_def)
  show "\<exists>s'. kmsg_rm s x = Some s' \<and> qos_kmsgq s' (remove1 x ms) \<and> kmsg_usable s' = kmsg_usable s" if "x \<in> set ms"
    using rm_kmsgq [OF q that] usable_same_msgs [of "fst s" _ _ "snd s"] keep [OF _ qos_sorted_sub(2) [OF sorted]]
    by (fastforce simp: qos_kmsgq_def)
  show "\<exists>s'. kmsg_enq_qos s x = Some s' \<and> qos_kmsgq s' (ms @ [x]) \<and> kmsg_usable s' = kmsg_usable s"
    if new: "kmsg_usable s x" "x \<notin> set ms"
  proof -
    obtain m where m: "fst s x = Some m" "x \<noteq> IKM_NULL" using new by (auto simp: kmsg_usable_def)
    have dom: "kmsg_usable (h', q') = kmsg_usable s" if "\<And>a. map_option msgh_bits (h' a) = map_option msgh_bits (fst s a)" for h' q'
    proof
      fix a show "kmsg_usable (h', q') a = kmsg_usable s a" using that [of a] by (cases "h' a"; cases "fst s a") (auto simp: kmsg_usable_def)
    qed
    show ?thesis
      by (rule ipc_kmsg_enqueue_qos_spec [OF q sorted m(1) new(2) m(2)]) (auto simp: kmsg_enq_qos_def qos_kmsgq_def dom)
  qed
qed


section \<open>Properties\<close>

text \<open>
  C39 (refinement).  The queue of a port is a list.  For every run of calls that add, take and remove
  messages, in which a message is added only while it is not queued and removed only while it is: the
  linked messages never run into an inconsistent link or an assertion, the messages come out in the order
  in which they went in, and the links form the ring of the remaining messages.  With overrides the order
  is the same, and overrides still never increase from the head of the queue to its tail.
\<close>

theorem kmsg_queue_fifo:
  assumes "kmsgq h queue ms" "qos_sorted h ms" "calls_ok cs ms" "\<And>kmsg. Enqueue kmsg \<in> set cs \<Longrightarrow> h kmsg \<noteq> None \<and> kmsg \<noteq> IKM_NULL"
  shows "(\<exists>h' queue'. queue_run kmsg_enq kmsg_deq kmsg_rm cs (h, queue) = Some ((h', queue'), snd (list_run cs ms)) \<and>
           kmsgq h' queue' (fst (list_run cs ms))) \<and>
         (\<exists>h' queue'. queue_run kmsg_enq_qos kmsg_deq kmsg_rm cs (h, queue) = Some ((h', queue'), snd (list_run cs ms)) \<and>
           kmsgq h' queue' (fst (list_run cs ms)) \<and> qos_sorted h' (fst (list_run cs ms)))"
  using kmsgs.run_refines [of "(h, queue)" ms cs] qos_kmsgs.run_refines [of "(h, queue)" ms cs] assms
  by (auto simp: kmsg_usable_def qos_kmsgq_def)

definition demo_kmsgs :: kmsg_store where
  "demo_kmsgs = [0x10 \<mapsto> \<lparr>ikm_next = 0x20, ikm_prev = 0x20, ikm_qos_override = 4, msgh_bits = 0x11\<rparr>,
                 0x20 \<mapsto> \<lparr>ikm_next = 0x10, ikm_prev = 0x10, ikm_qos_override = 2, msgh_bits = 0x11\<rparr>,
                 0x30 \<mapsto> \<lparr>ikm_next = 0, ikm_prev = 0, ikm_qos_override = 3, msgh_bits = 0x11\<rparr>]"

lemma demo_kmsgq: "kmsgq demo_kmsgs 0x10 [0x10, 0x20]" "qos_sorted demo_kmsgs [0x10, 0x20]"
  by (simp_all add: kmsgq_def ring_def demo_kmsgs_def IKM_NULL_def qos_sorted_def qos_of_def)

theorem kmsg_queue_fifo_witness:
  "\<exists>h queue. queue_run kmsg_enq_qos kmsg_deq kmsg_rm [Enqueue 0x30, Dequeue, Remove 0x20, Dequeue, Dequeue] (demo_kmsgs, 0x10) =
     Some ((h, queue), [Some 0x10, Some 0x30, None]) \<and> kmsgq h queue []"
  using kmsg_queue_fifo [OF demo_kmsgq, of "[Enqueue 0x30, Dequeue, Remove 0x20, Dequeue, Dequeue]"]
  by (auto simp: demo_kmsgs_def IKM_NULL_def)



end
