(* ===== verification/Spec2Isabelle.thy ===== *)
theory Spec2Isabelle
imports Name_Space Port_Transit Port_Requests Dead_Names Port_Guards Port_Corners
  Port_Alloc Right_Steps Kmsg_Queue
begin

text \<open>
  A verification development for Mach IPC in the XNU kernel
  (\<^verbatim>\<open>src/xnu-8020.140.41/osfmk/ipc\<close> and \<^verbatim>\<open>osfmk/kern/ipc_kobject.c\<close>).

  \<^bold>\<open>The program.\<close>  A task owns a space (\<^verbatim>\<open>ipc_space.c\<close>), which holds a table of capability entries
  (\<^verbatim>\<open>ipc_entry.c\<close>).  A name of a capability is an index into the table with a generation.  Free
  entries form a list through the table; pure send rights are also in a reverse hash that lives in
  two fields of the same table (\<^verbatim>\<open>ipc_hash.c\<close>).  The table grows through a fixed sequence of sizes
  (\<^verbatim>\<open>ipc_table.c\<close>).  An entry denotes a port or a port set (\<^verbatim>\<open>ipc_object.c\<close>, \<^verbatim>\<open>ipc_port.c\<close>,
  \<^verbatim>\<open>ipc_pset.c\<close>), or the name of a dead one.  The right layer (\<^verbatim>\<open>ipc_right.c\<close>) keeps entry, hash and the
  counts of the port in step when rights are made, moved, copied and destroyed; it tells interested
  tasks through requests and notifications (\<^verbatim>\<open>ipc_notify.c\<close>).  Tasks reach it through the port
  calls (\<^verbatim>\<open>mach_port.c\<close>) and through messages, which copy rights in and out (\<^verbatim>\<open>ipc_object.c\<close>) and wait in
  the queue of a port (\<^verbatim>\<open>ipc_kmsg.c\<close>, \<^verbatim>\<open>ipc_mqueue.c\<close>).  Kernel objects are ports whose receiver is the
  kernel (\<^verbatim>\<open>ipc_kobject.c\<close>).

  \<^bold>\<open>Conventions.\<close>  Machine integers are words of their width, pointers to kernel objects are 64-bit
  words, pointers into a table are indices, a union is one field.  A structure is a record and an
  object lives in a store by address; the state is passed explicitly.  A result \<open>None\<close> is a kernel
  panic, a failed assertion, an access outside a table, a use after the last release or a loop that
  does not end; return codes are values.  An operation is a section between taking and dropping the
  locks of the objects it works on.  What the layer reads of the rest of the kernel is a field of the
  state that it never changes (\<open>env\<close>), what it asks of the rest of the kernel is recorded in order
  (\<open>events\<close>).  Memory that an allocation may or may not get is an argument (\<open>mem\<close>), as is the address of
  a new object.  Debugging, tracing and statistics are left out.

  \<^bold>\<open>Names.\<close>
  \<^item> \<open>Ipc_Prelude\<close>: assertions and table access in the option monad, bit fields of words.
  \<^item> \<open>Mach_Names\<close>: return codes, names, rights, types, user references (\<^verbatim>\<open>mach/port.h\<close>, \<^verbatim>\<open>ipc/port.h\<close>).
  \<^item> \<open>Ipc_Entry_Bits\<close>: the entry and its bits, generation counters (\<^verbatim>\<open>ipc_entry.h\<close>).
  \<^item> \<open>Ipc_Table\<close>: the sizes of tables (\<^verbatim>\<open>ipc_table.c\<close>).
  \<^item> \<open>Robin_Hood\<close>, \<open>Ipc_Hash\<close>: Robin Hood hashing in general and as in \<^verbatim>\<open>ipc_hash.c\<close>.
  \<^item> \<open>Os_Refcnt\<close>: reference counters (\<^verbatim>\<open>libkern/os/refcnt.c\<close>).
  \<^item> \<open>Ipc_Space\<close>: spaces and their random free lists (\<^verbatim>\<open>ipc_space.c\<close>, \<^verbatim>\<open>prng_random.c\<close>).
  \<^item> \<open>Ipc_Entry\<close>, \<open>Ipc_Grow\<close>: the operations on entries (\<^verbatim>\<open>ipc_entry.c\<close>) and the invariant of a space:
    the free list is exactly the unused entries, the hash is exactly the pure send rights.
  \<^item> \<open>Ipc_Reverse\<close>: the reverse hash of a space, as an interface and its interpretation.
  \<^item> \<open>Cap_Table\<close>: the table as a partial function from names to capabilities.
  \<^item> \<open>Demo_Space\<close>: creation of a space, a concrete space for the witnesses.
  \<^item> \<open>Name_Space\<close>: the properties.  Allocation, at any name or at a chosen one, deallocation, growth and
    the hash are operations on the partial function; generations of a reused entry do not repeat
    before their period; a lookup is application.

  \<^bold>\<open>Ports.\<close>
  \<^item> \<open>Ipc_State\<close>: the state of ports, port sets and spaces (\<^verbatim>\<open>ipc_port.h\<close>, \<^verbatim>\<open>ipc_object.h\<close>).
  \<^item> \<open>Ipc_Request\<close>: the table of dead-name and send-possible requests of a port (\<^verbatim>\<open>ipc_port.c\<close>).
  \<^item> \<open>Ipc_Port\<close>: rights, notifications, destruction, circularity, importance counts
    (\<^verbatim>\<open>ipc_port.c\<close>, \<^verbatim>\<open>ipc_notify.c\<close>, \<^verbatim>\<open>ipc_importance.c\<close>, \<^verbatim>\<open>ipc_mqueue.c\<close>).
  \<^item> \<open>Ipc_Logic\<close>: rules for postconditions of operations; \<open>Ipc_Frame\<close>: no operation on ports changes a space.
  \<^item> \<open>Port_Chain\<close>, \<open>Port_Transit\<close>: chains of receive rights in transit; the walk along them ends and the
    circularity check refuses exactly the moves that would close a cycle.
  \<^item> \<open>Port_Senders\<close>: an abstract counter of send rights with its no-senders request, refined by the port.
  \<^item> \<open>Port_Requests\<close>: requests round trip, grow, and are answered exactly once.
  \<^item> \<open>Demo_State\<close>: a concrete state for the witnesses.

  \<^bold>\<open>Rights and calls.\<close>
  \<^item> \<open>Ipc_Right\<close> (\<^verbatim>\<open>ipc_right.c\<close>), \<open>Ipc_Object\<close> (\<^verbatim>\<open>ipc_object.c\<close>), \<open>Ipc_Kobject\<close> (\<^verbatim>\<open>ipc_kobject.c\<close>),
    \<open>Mach_Port\<close> (\<^verbatim>\<open>mach_port.c\<close>, \<^verbatim>\<open>ipc_space_terminate\<close>).
  \<^item> \<open>Right_Bits\<close>, \<open>Urefs_Delta\<close>, \<open>Right_Space\<close>, \<open>Right_Caps\<close>, \<open>Right_Calls\<close>: what the steps of an operation
    do to the bits of an entry, to its space and to the partial function of capabilities.
  \<^item> \<open>Send_Rights\<close>: deallocation, deltas and moves of send rights.
  \<^item> \<open>Dead_Names\<close>: what becomes of rights whose port has died.
  \<^item> \<open>Port_Guards\<close>: guards protect receive rights; where they do not.
  \<^item> \<open>Port_Corners\<close>: errors and leaks on rare paths.
  \<^item> \<open>Port_Alloc\<close>: new receive rights, port sets and dead names.
  \<^item> \<open>Right_Types\<close>, \<open>Right_Steps\<close>: the right layer as a transition system, and the type invariant of tables.

  \<^bold>\<open>Messages.\<close>
  \<^item> \<open>Ipc_Kmsg\<close>: the ring of messages of a port and its overrides (\<^verbatim>\<open>ipc_kmsg.c\<close>).
  \<^item> \<open>Kmsg_Queue\<close>: the interface of the queue, a refinement to lists, and its properties.

  \<^bold>\<open>Loops.\<close>  Loops over a table or a list are structural.  The hash loops and the allocation loops run
  with as much fuel as the table has slots or the size table has steps, and the properties show that
  they return.  Walks along pointers (chains in transit, rings of messages) are partial functions of
  the option type; where they end is proved, not assumed.

  \<^bold>\<open>Bounds.\<close>  The properties of the reverse hash assume at most \<open>IPC_ENTRY_DIST_MAX + 1\<close> hashed rights in a
  table, so that no displacement is pegged; beyond that the code can lose a right from the hash.

  \<^bold>\<open>Not modelled.\<close>  Message bodies and their copies from and to user memory, vouchers, event links, the
  kevent filter of ports, turnstiles and task importance beyond the counts of ports, per-space
  debugging and name listings, service port labels beyond their flags, and everything outside IPC.
  The dispatch of kernel requests goes to stubs that the build generates from interface files.
\<close>

end
